(* ===== verification/Prelude.thy ===== *)
theory Prelude
  imports Main "HOL-Library.Word" "HOL-Library.List_Lexorder" "HOL-Library.Char_ord"
begin

section \<open>Shared vocabulary of the model\<close>

text \<open>
  What every component of the endpoint picker uses of Go: its integer types, its strings and the
  few functions of the standard library that build addresses and keys, the order in which a
  \<open>range\<close> loop visits a map, and maps with finitely many keys. The lemmas of the collection
  \<open>go_map\<close> carry the proofs about maps and loops in the other theories.
\<close>

named_theorems go_map \<open>facts about maps, their key sets and loops over them\<close>

subsection \<open>Types\<close>

type_synonym int64 = "64 word"
type_synonym int32 = "32 word"
type_synonym gotime = int
type_synonym labels = "string \<rightharpoonup> string"

text \<open>
  Go's \<open>int\<close> and \<open>int64\<close> are 64-bit two's complement values: \<open>sint\<close> reads them, and
  \<open>+\<close>, \<open>-\<close> on words wrap as Go's operators do. A \<open>time.Time\<close> is the integer
  \<open>gotime\<close>; every operation that calls \<open>time.Now\<close> takes the current time as an argument.
  A label selector or label set is a map from strings to strings.
\<close>

abbreviation i64_less :: "int64 \<Rightarrow> int64 \<Rightarrow> bool" where
  "i64_less a b \<equiv> sint a < sint b"

lemma sint64_bounds: "- (2 ^ 63) \<le> sint (x :: int64)" "sint (x :: int64) < 2 ^ 63"
  using sint_greater_eq [of x] sint_lt [of x] by simp_all

lemma sint64_of_int:
  assumes "- (2 ^ 63) \<le> i" and "i < 2 ^ 63"
  shows "sint (word_of_int i :: int64) = i"
  using assms by (simp add: signed_of_int signed_take_bit_int_eq_self)

lemma sint64_diff:
  assumes "- (2 ^ 63) \<le> sint a - sint b" and "sint a - sint b < 2 ^ 63"
  shows "sint (a - b :: int64) = sint a - sint b"
proof -
  have "a - b = word_of_int (sint a - sint b)" by simp
  then show ?thesis using sint64_of_int [OF assms] by simp
qed

subsection \<open>The order of a range loop\<close>

text \<open>
  Go visits the keys of a map in an unspecified order, each key once. A function with such a loop
  takes the order as an argument, a function from the key set to a list; \<open>range_order\<close> is
  all that Go promises about it.
\<close>

definition range_order :: "('k set \<Rightarrow> 'k list) \<Rightarrow> bool" where
  "range_order ord \<longleftrightarrow> (\<forall>K. finite K \<longrightarrow> distinct (ord K) \<and> set (ord K) = K)"

lemma range_orderD [dest]:
  assumes "range_order ord" and "finite K"
  shows "distinct (ord K)" "set (ord K) = K"
  using assms by (simp_all add: range_order_def)

lemma range_order_sorted: "range_order (sorted_list_of_set :: 'k::linorder set \<Rightarrow> 'k list)"
  by (simp add: range_order_def)

lemma range_order_length: "range_order ord \<Longrightarrow> finite K \<Longrightarrow> length (ord K) = card K"
  by (metis distinct_card range_orderD)

subsection \<open>Maps\<close>

lemma finite_dom_upd [go_map, intro]: "finite (dom m) \<Longrightarrow> finite (dom (m(k := v)))"
  by (cases v) (simp_all add: dom_fun_upd)

lemma dom_delete [go_map]: "dom (m(k := None)) = dom m - {k}"
  by (auto simp: dom_def)

text \<open>Deleting a list of keys, the shape of the code's loops of \<open>delete\<close> calls.\<close>

primrec delete_keys :: "'k list \<Rightarrow> ('k \<rightharpoonup> 'v) \<Rightarrow> ('k \<rightharpoonup> 'v)" where
  "delete_keys [] = (\<lambda>m. m)"
| "delete_keys (x # xs) = (\<lambda>m. delete_keys xs (m(x := None)))"

lemma delete_keys_apply [go_map]: "delete_keys ks m k = (if k \<in> set ks then None else m k)"
  by (induction ks arbitrary: m) auto

lemma finite_dom_delete_keys [go_map]: "finite (dom m) \<Longrightarrow> finite (dom (delete_keys ks m))"
  by (rule finite_subset [of _ "dom m"]) (auto simp: delete_keys_apply split: if_splits)

subsection \<open>Ticker loops\<close>

text \<open>
  The background loops of the program: a \<open>select\<close> between the end of the context and a tick. The
  list holds what the \<open>select\<close> receives, in order, each tick with what the outside world is like
  then; the result is the state and whether the loop has returned.
\<close>

datatype 'r loop_event = Tick 'r | CtxDone

fun run_loop :: "('r \<Rightarrow> 's \<Rightarrow> 's) \<Rightarrow> 'r loop_event list \<Rightarrow> 's \<Rightarrow> 's \<times> bool" where
  "run_loop f [] s = (s, False)"
| "run_loop f (CtxDone # es) s = (s, True)"
| "run_loop f (Tick r # es) s = run_loop f es (f r s)"

lemma run_loop_returns: "snd (run_loop f es s) \<longleftrightarrow> CtxDone \<in> set es"
  by (induction f es s rule: run_loop.induct) auto

text \<open>The ticks a loop gets to see.\<close>

fun ticks :: "'r loop_event list \<Rightarrow> 'r list" where
  "ticks [] = []"
| "ticks (CtxDone # es) = []"
| "ticks (Tick r # es) = r # ticks es"

lemma run_loop_ticks: "run_loop f es s = (fold f (ticks es) s, CtxDone \<in> set es)"
  by (induction f es s rule: run_loop.induct) auto

text \<open>\<open>time.NewTicker\<close> panics unless its interval is positive: no result.\<close>

definition ticker_loop :: "int \<Rightarrow> ('r \<Rightarrow> 's \<Rightarrow> 's) \<Rightarrow> 'r loop_event list \<Rightarrow> 's \<Rightarrow> ('s \<times> bool) option" where
  "ticker_loop interval f es s = (if 0 < interval then Some (run_loop f es s) else None)"

lemma run_loop_invariant:
  "(\<And>r s. P s \<Longrightarrow> Q r \<Longrightarrow> P (f r s)) \<Longrightarrow> P s \<Longrightarrow> (\<And>r. Tick r \<in> set es \<Longrightarrow> Q r) \<Longrightarrow> P (fst (run_loop f es s))"
  by (induction f es s rule: run_loop.induct) auto

subsection \<open>Strings of the standard library\<close>

fun digits :: "nat \<Rightarrow> string" where
  "digits n = (if n < 10 then [char_of (48 + n)] else digits (n div 10) @ [char_of (48 + n mod 10)])"

declare digits.simps [simp del]

definition itoa :: "int \<Rightarrow> string" where
  "itoa i = (if i < 0 then ''-'' @ digits (nat (- i)) else digits (nat i))"

definition join_host_port :: "string \<Rightarrow> string \<Rightarrow> string" where
  "join_host_port host port =
     (if CHR '':'' \<in> set host then ''['' @ host @ '']:'' @ port else host @ '':'' @ port)"

definition http_url :: "string \<Rightarrow> int \<Rightarrow> string \<Rightarrow> string" where
  "http_url host port path = ''http://'' @ join_host_port host (itoa port) @ path"

lemma digits_no_colon: "CHR '':'' \<notin> set (digits n)"
proof (induction n rule: digits.induct)
  case (1 n)
  have dig: "char_of (48 + m) \<noteq> (CHR '':'')" if "m < 10" for m :: nat
  proof
    assume "char_of (48 + m) = CHR '':''"
    then have "of_char (char_of (48 + m) :: char) = (of_char (CHR '':'') :: nat)" by simp
    then have "(48 + m) mod 256 = 58" by simp
    with that show False by simp
  qed
  show ?case
  proof (cases "n < 10")
    case True
    then show ?thesis using dig [of n] by (subst digits.simps) auto
  next
    case False
    then show ?thesis using 1 dig [of "n mod 10"] by (subst digits.simps) auto
  qed
qed

lemma itoa_no_colon: "CHR '':'' \<notin> set (itoa i)"
  by (simp add: itoa_def digits_no_colon)

text \<open>A key of two strings joined by a separator the first one does not contain can be split.\<close>

lemma split_at_sep:
  assumes "s \<notin> set a" and "s \<notin> set a'" and "a @ s # b = a' @ s # b'"
  shows "a = a' \<and> b = b'"
  using assms
proof (induction a arbitrary: a')
  case Nil
  then show ?case by (cases a') auto
next
  case (Cons x xs)
  then show ?case by (cases a') auto
qed

end
