(* ===== verification/Go_Float.thy ===== *)
theory Go_Float
  imports Prelude "HOL-Library.Log_Nat"
begin

section \<open>Go's float64\<close>

text \<open>
  The scheduler's scores and the pressure of a pod are \<open>float64\<close> values. A finite value is the
  rational number it denotes, and every operation rounds its exact result to the nearest
  representable number, ties to even, as IEEE 754 and Go prescribe; overflow gives an infinity.
  Signed zeros are one value: Go's comparisons do not tell them apart, and the only zeros this
  program divides by are excluded by its own guards.
\<close>

datatype float64 = Fin rat | PosInf | NegInf | NaN

subsection \<open>Rounding to nearest, ties to even\<close>

definition pow2 :: "int \<Rightarrow> rat" where
  "pow2 e = (if 0 \<le> e then 2 ^ nat e else 1 / 2 ^ nat (- e))"

definition round_even :: "rat \<Rightarrow> int" where
  "round_even q =
     (let f = \<lfloor>q\<rfloor>; r = q - of_int f
      in if r < 1 / 2 then f else if 1 / 2 < r then f + 1 else if even f then f else f + 1)"

text \<open>
  The exponent of the unit in the last place of a positive number: the magnitude is found from the
  bit lengths of numerator and denominator, and 53 bits of precision are kept, fewer below the
  smallest normal number.
\<close>

definition log2_floor :: "rat \<Rightarrow> int" where
  "log2_floor x =
     (let (n, d) = quotient_of x;
          k = int (floorlog 2 (nat n)) - int (floorlog 2 (nat d))
      in if pow2 k \<le> x then k else k - 1)"

definition ulp_exp :: "rat \<Rightarrow> int" where
  "ulp_exp x = max (log2_floor x - 52) (- 1074)"

definition round_pos :: "rat \<Rightarrow> rat" where
  "round_pos x = of_int (round_even (x / pow2 (ulp_exp x))) * pow2 (ulp_exp x)"

definition round_rat :: "rat \<Rightarrow> rat" where
  "round_rat x = (if x = 0 then 0 else if x < 0 then - round_pos (- x) else round_pos x)"

definition round64 :: "rat \<Rightarrow> float64" where
  "round64 x =
     (let y = round_rat x
      in if pow2 1024 \<le> y then PosInf else if y \<le> - pow2 1024 then NegInf else Fin y)"

subsection \<open>The operations the program uses\<close>

definition f64_of_int :: "int64 \<Rightarrow> float64" where
  "f64_of_int w = round64 (of_int (sint w))"

fun f64_add :: "float64 \<Rightarrow> float64 \<Rightarrow> float64" where
  "f64_add (Fin x) (Fin y) = round64 (x + y)"
| "f64_add PosInf (Fin y) = PosInf"
| "f64_add PosInf PosInf = PosInf"
| "f64_add (Fin x) PosInf = PosInf"
| "f64_add NegInf (Fin y) = NegInf"
| "f64_add NegInf NegInf = NegInf"
| "f64_add (Fin x) NegInf = NegInf"
| "f64_add _ _ = NaN"

definition f64_signed_inf :: "rat \<Rightarrow> float64" where
  "f64_signed_inf s = (if 0 < s then PosInf else if s < 0 then NegInf else NaN)"

fun f64_mul :: "float64 \<Rightarrow> float64 \<Rightarrow> float64" where
  "f64_mul (Fin x) (Fin y) = round64 (x * y)"
| "f64_mul PosInf (Fin y) = f64_signed_inf y"
| "f64_mul (Fin x) PosInf = f64_signed_inf x"
| "f64_mul NegInf (Fin y) = f64_signed_inf (- y)"
| "f64_mul (Fin x) NegInf = f64_signed_inf (- x)"
| "f64_mul PosInf PosInf = PosInf"
| "f64_mul NegInf NegInf = PosInf"
| "f64_mul PosInf NegInf = NegInf"
| "f64_mul NegInf PosInf = NegInf"
| "f64_mul _ _ = NaN"

fun f64_div :: "float64 \<Rightarrow> float64 \<Rightarrow> float64" where
  "f64_div (Fin x) (Fin y) = (if y = 0 then f64_signed_inf x else round64 (x / y))"
| "f64_div (Fin x) PosInf = Fin 0"
| "f64_div (Fin x) NegInf = Fin 0"
| "f64_div PosInf (Fin y) = (if y < 0 then NegInf else PosInf)"
| "f64_div NegInf (Fin y) = (if y < 0 then PosInf else NegInf)"
| "f64_div _ _ = NaN"

fun f64_less :: "float64 \<Rightarrow> float64 \<Rightarrow> bool" where
  "f64_less (Fin x) (Fin y) \<longleftrightarrow> x < y"
| "f64_less (Fin x) PosInf \<longleftrightarrow> True"
| "f64_less NegInf (Fin y) \<longleftrightarrow> True"
| "f64_less NegInf PosInf \<longleftrightarrow> True"
| "f64_less _ _ \<longleftrightarrow> False"

definition f64_const :: "rat \<Rightarrow> float64" where
  "f64_const x = round64 x"

subsection \<open>Powers of two\<close>

lemma pow2_pos [simp]: "0 < pow2 e"
  by (simp add: pow2_def)

lemma pow2_nonneg [simp]: "0 \<le> pow2 e" "pow2 e \<noteq> 0"
  using pow2_pos [of e] by (simp_all add: less_imp_le less_imp_neq [symmetric] del: pow2_pos)

lemma pow2_powi: "pow2 e = 2 powi e"
  by (simp add: pow2_def power_int_def inverse_eq_divide power_one_over)

lemma pow2_add: "pow2 (a + b) = pow2 a * pow2 b"
  by (simp add: pow2_powi power_int_add)

lemma pow2_mono: "a \<le> b \<Longrightarrow> pow2 a \<le> pow2 b"
  by (simp add: pow2_powi power_int_increasing)

lemma pow2_strict_mono: "a < b \<Longrightarrow> pow2 a < pow2 b"
  by (simp add: pow2_powi power_int_strict_increasing)

lemma pow2_less_iff: "pow2 a < pow2 b \<longleftrightarrow> a < b"
  by (meson leD linorder_le_less_linear pow2_mono pow2_strict_mono)

lemma pow2_le_iff: "pow2 a \<le> pow2 b \<longleftrightarrow> a \<le> b"
  by (meson linorder_not_less pow2_less_iff)

lemma pow2_of_nat: "pow2 (int n) = 2 ^ n"
  by (simp add: pow2_def)

lemma pow2_Suc: "pow2 (e + 1) = 2 * pow2 e"
  by (simp add: pow2_add) (simp add: pow2_def)

subsection \<open>The magnitude of a positive rational\<close>

lemma floorlog2_int:
  assumes "0 < n"
  shows "pow2 (int (floorlog 2 (nat n)) - 1) \<le> of_int n" and "of_int n < pow2 (int (floorlog 2 (nat n)))"
proof -
  let ?k = "floorlog 2 (nat n)"
  have k: "2 ^ (?k - 1) \<le> nat n" "nat n < 2 ^ ?k"
    using floorlog_bounds [of "nat n" 2] assms by simp_all
  have "?k \<noteq> 0" using k assms by (cases "?k = 0") auto
  then have "pow2 (int ?k - 1) = 2 ^ (?k - 1)" by (simp add: pow2_def nat_diff_distrib)
  also have "\<dots> = of_nat (2 ^ (?k - 1))" by simp
  also have "\<dots> \<le> of_nat (nat n)" using k(1) by (simp only: of_nat_le_iff)
  also have "\<dots> = of_int n" using assms by simp
  finally show "pow2 (int ?k - 1) \<le> of_int n" .
  have "of_int n = (of_nat (nat n) :: rat)" using assms by simp
  also have "\<dots> < of_nat (2 ^ ?k)" using k(2) by (simp only: of_nat_less_iff)
  finally show "of_int n < pow2 (int ?k)" by (simp add: pow2_of_nat)
qed

lemma log2_floor_bounds:
  assumes "0 < x"
  shows "pow2 (log2_floor x) \<le> x \<and> x < pow2 (log2_floor x + 1)"
proof -
  obtain n d where q: "quotient_of x = (n, d)" by fastforce
  have d: "0 < d" using q by (rule quotient_of_denom_pos)
  have x: "x = of_int n / of_int d" using q by (rule quotient_of_div)
  have n: "0 < n" using assms d by (simp add: x zero_less_divide_iff)
  let ?a = "int (floorlog 2 (nat n))" and ?b = "int (floorlog 2 (nat d))"
  have upper: "x < pow2 (?a - ?b + 1)"
  proof -
    have "x * of_int d < pow2 ?a" using floorlog2_int(2) [OF n] d by (simp add: x)
    also have "\<dots> = pow2 (?a - ?b + 1) * pow2 (?b - 1)" by (simp flip: pow2_add)
    also have "\<dots> \<le> pow2 (?a - ?b + 1) * of_int d"
      using floorlog2_int(1) [OF d] by (intro mult_left_mono) simp_all
    finally show ?thesis using d by simp
  qed
  have lower: "pow2 (?a - ?b - 1) \<le> x"
  proof -
    have "pow2 (?a - ?b - 1) * of_int d \<le> pow2 (?a - ?b - 1) * pow2 ?b"
      using floorlog2_int(2) [OF d] by (intro mult_left_mono) simp_all
    also have "\<dots> = pow2 (?a - 1)" by (simp flip: pow2_add)
    also have "\<dots> \<le> x * of_int d" using floorlog2_int(1) [OF n] d by (simp add: x)
    finally show ?thesis using d by simp
  qed
  show ?thesis using upper lower by (auto simp: log2_floor_def q Let_def)
qed

lemma log2_floor_unique:
  assumes "pow2 e \<le> x" and "x < pow2 (e + 1)"
  shows "log2_floor x = e"
proof -
  have "0 < x" using assms(1) pow2_pos [of e] by linarith
  note b = log2_floor_bounds [OF this]
  have "pow2 e < pow2 (log2_floor x + 1)" using assms(1) b by linarith
  moreover have "pow2 (log2_floor x) < pow2 (e + 1)" using assms(2) b by linarith
  ultimately show ?thesis by (simp add: pow2_less_iff)
qed

lemma log2_floor_mono:
  assumes "0 < x" and "x \<le> y"
  shows "log2_floor x \<le> log2_floor y"
proof -
  have "pow2 (log2_floor x) < pow2 (log2_floor y + 1)"
    using assms log2_floor_bounds [of x] log2_floor_bounds [of y] by linarith
  then show ?thesis by (simp add: pow2_less_iff)
qed

lemma ulp_exp_mono: "0 < x \<Longrightarrow> x \<le> y \<Longrightarrow> ulp_exp x \<le> ulp_exp y"
  using log2_floor_mono [of x y] by (simp add: ulp_exp_def)

subsection \<open>Rounding to an integer\<close>

lemma round_even_of_int [simp]: "round_even (of_int i) = i"
  by (simp add: round_even_def)

lemma round_even_error: "\<bar>of_int (round_even q) - q\<bar> \<le> 1 / 2"
proof -
  define f where "f = \<lfloor>q\<rfloor>"
  have "of_int f \<le> q" "q < of_int f + 1" unfolding f_def by linarith+
  then show ?thesis by (auto simp: round_even_def Let_def simp flip: f_def)
qed

lemma round_even_mono:
  assumes "p \<le> q"
  shows "round_even p \<le> round_even q"
proof (cases "\<lfloor>p\<rfloor> = \<lfloor>q\<rfloor>")
  case True
  with assms show ?thesis by (auto simp: round_even_def Let_def)
next
  case False
  with assms have "\<lfloor>p\<rfloor> + 1 \<le> \<lfloor>q\<rfloor>" using floor_mono [of p q] by linarith
  moreover have "round_even p \<le> \<lfloor>p\<rfloor> + 1" by (simp add: round_even_def Let_def)
  moreover have "\<lfloor>q\<rfloor> \<le> round_even q" by (simp add: round_even_def Let_def)
  ultimately show ?thesis by linarith
qed

lemma round_even_quotient:
  "round_even (of_int a / of_int b) =
     (let f = a div b; r = a - f * b
      in if 2 * r < b then f else if b < 2 * r then f + 1 else if even f then f else f + 1)"
  if "0 < b"
proof -
  have fl: "\<lfloor>of_int a / of_int b :: rat\<rfloor> = a div b" by (rule floor_divide_of_int_eq)
  have lt: "(of_int a / of_int b - of_int (a div b) < (1 / 2 :: rat)) \<longleftrightarrow> 2 * (a - (a div b) * b) < b"
  proof -
    have "(of_int a / of_int b - of_int (a div b) < (1 / 2 :: rat)) \<longleftrightarrow>
        (of_int (2 * (a - (a div b) * b)) < (of_int b :: rat))"
      using that by (simp add: field_simps)
    then show ?thesis by (simp only: of_int_less_iff)
  qed
  have gt: "((1 / 2 :: rat) < of_int a / of_int b - of_int (a div b)) \<longleftrightarrow> b < 2 * (a - (a div b) * b)"
  proof -
    have "((1 / 2 :: rat) < of_int a / of_int b - of_int (a div b)) \<longleftrightarrow>
        (of_int b :: rat) < of_int (2 * (a - (a div b) * b))"
      using that by (simp add: field_simps)
    then show ?thesis by (simp only: of_int_less_iff)
  qed
  show ?thesis unfolding round_even_def Let_def fl lt gt ..
qed

subsection \<open>Rounding a rational\<close>

lemma round_pos_eqI:
  assumes "pow2 (e + 52) \<le> x" and "x < pow2 (e + 53)" and "- 1074 \<le> e"
  shows "round_pos x = of_int (round_even (x / pow2 e)) * pow2 e"
proof -
  have "log2_floor x = e + 52" using assms by (intro log2_floor_unique) (simp_all add: add.assoc)
  then show ?thesis using assms(3) by (simp add: round_pos_def ulp_exp_def)
qed

lemma round_pos_nonneg:
  assumes "0 < x"
  shows "0 \<le> round_pos x"
proof -
  have "0 \<le> round_even (x / pow2 (ulp_exp x))"
    using round_even_mono [of 0 "x / pow2 (ulp_exp x)"] round_even_of_int [of 0] assms by simp
  then show ?thesis by (simp add: round_pos_def)
qed

lemma round_pos_error:
  "\<bar>round_pos x - x\<bar> \<le> pow2 (ulp_exp x) / 2"
proof -
  let ?u = "pow2 (ulp_exp x)"
  have "\<bar>round_pos x - x\<bar> = \<bar>of_int (round_even (x / ?u)) - x / ?u\<bar> * ?u"
    by (simp add: round_pos_def abs_mult_pos [symmetric] field_simps)
  also have "\<dots> \<le> 1 / 2 * ?u"
    using round_even_error by (intro mult_right_mono) simp_all
  finally show ?thesis by simp
qed

lemma pow2_split: "u \<le> e \<Longrightarrow> pow2 e = of_int (2 ^ nat (e - u)) * pow2 u"
  using pow2_add [of "e - u" u] by (simp add: pow2_def [of "e - u"])

lemma round_even_ge: "of_int n \<le> q \<Longrightarrow> n \<le> round_even q"
  using round_even_mono [of "of_int n" q] by simp

lemma round_even_le: "q \<le> of_int n \<Longrightarrow> round_even q \<le> n"
  using round_even_mono [of q "of_int n"] by simp

text \<open>A multiple of the unit in the last place is representable: rounding keeps it.\<close>

lemma round_pos_exact:
  assumes "x = of_int n * pow2 e" and "ulp_exp x \<le> e"
  shows "round_pos x = x"
proof -
  have x: "x = of_int (n * 2 ^ nat (e - ulp_exp x)) * pow2 (ulp_exp x)"
    using assms(1) pow2_split [OF assms(2)] by simp
  then have "x / pow2 (ulp_exp x) = of_int (n * 2 ^ nat (e - ulp_exp x))"
    by (metis nonzero_mult_div_cancel_right pow2_nonneg(2))
  then have "round_even (x / pow2 (ulp_exp x)) = n * 2 ^ nat (e - ulp_exp x)"
    by (simp only: round_even_of_int)
  then show ?thesis using x by (simp only: round_pos_def)
qed

text \<open>The rounded value of a number stays between the powers of two around it.\<close>

lemma round_pos_ge_pow2:
  assumes "0 < x" and "- 1074 \<le> log2_floor x"
  shows "pow2 (log2_floor x) \<le> round_pos x"
proof -
  let ?u = "ulp_exp x" and ?n = "2 ^ nat (log2_floor x - ulp_exp x) :: int"
  have eq: "pow2 (log2_floor x) = of_int ?n * pow2 ?u"
    using assms(2) by (intro pow2_split) (simp add: ulp_exp_def)
  have "of_int ?n * pow2 ?u \<le> x" using log2_floor_bounds [OF assms(1)] eq by linarith
  then have "?n \<le> round_even (x / pow2 ?u)" by (intro round_even_ge) (simp add: field_simps)
  then have "of_int ?n * pow2 ?u \<le> of_int (round_even (x / pow2 ?u)) * pow2 ?u"
    by (intro mult_right_mono) (simp_all only: of_int_le_iff pow2_nonneg)
  then show ?thesis by (simp only: round_pos_def eq)
qed

lemma round_pos_le_pow2:
  assumes "0 < x" and "x \<le> pow2 k" and "ulp_exp x \<le> k"
  shows "round_pos x \<le> pow2 k"
proof -
  let ?u = "ulp_exp x" and ?n = "2 ^ nat (k - ulp_exp x) :: int"
  have eq: "pow2 k = of_int ?n * pow2 ?u" using assms(3) by (rule pow2_split)
  have "x \<le> of_int ?n * pow2 ?u" using assms(2) eq by linarith
  then have "round_even (x / pow2 ?u) \<le> ?n" by (intro round_even_le) (simp add: field_simps)
  then have "of_int (round_even (x / pow2 ?u)) * pow2 ?u \<le> of_int ?n * pow2 ?u"
    by (intro mult_right_mono) (simp_all only: of_int_le_iff pow2_nonneg)
  then show ?thesis by (simp only: round_pos_def eq)
qed

lemma round_pos_mono:
  assumes "0 < x" and "x \<le> y"
  shows "round_pos x \<le> round_pos y"
proof (cases "ulp_exp x = ulp_exp y")
  case True
  have "round_even (x / pow2 (ulp_exp y)) \<le> round_even (y / pow2 (ulp_exp y))"
    using assms(2) by (intro round_even_mono divide_right_mono) simp_all
  then show ?thesis by (simp add: round_pos_def True mult_right_mono)
next
  case False
  with assms ulp_exp_mono [of x y] have lt: "ulp_exp x < ulp_exp y" by simp
  then have y: "ulp_exp y = log2_floor y - 52" "log2_floor x < log2_floor y"
    by (auto simp: ulp_exp_def max_def split: if_splits)
  have "x \<le> pow2 (log2_floor y)"
    using log2_floor_bounds [OF assms(1)] pow2_mono [of "log2_floor x + 1" "log2_floor y"] y by linarith
  moreover have "ulp_exp x \<le> log2_floor y" using lt y by simp
  ultimately have "round_pos x \<le> pow2 (log2_floor y)" by (rule round_pos_le_pow2 [OF assms(1)])
  also have "\<dots> \<le> round_pos y"
    using assms lt y by (intro round_pos_ge_pow2) (auto simp: ulp_exp_def)
  finally show ?thesis .
qed

lemma round_rat_mono: "x \<le> y \<Longrightarrow> round_rat x \<le> round_rat y"
  using round_pos_mono [of x y] round_pos_mono [of "- y" "- x"]
    round_pos_nonneg [of "- x"] round_pos_nonneg [of y]
  by (simp add: round_rat_def) linarith

subsection \<open>Comparing float64 values\<close>

text \<open>Without NaN, \<open><\<close> on \<open>float64\<close> is a strict weak order.\<close>

lemma f64_less_asym: "f64_less a b \<Longrightarrow> \<not> f64_less b a"
  by (cases a; cases b) auto

lemma f64_less_trans: "f64_less a b \<Longrightarrow> f64_less b c \<Longrightarrow> f64_less a c"
  by (cases a; cases b; cases c) auto

lemma f64_not_less_trans:
  "b \<noteq> NaN \<Longrightarrow> \<not> f64_less a b \<Longrightarrow> \<not> f64_less b c \<Longrightarrow> \<not> f64_less a c"
  by (cases a; cases b; cases c) auto

lemma f64_less_le_trans:
  "a \<noteq> NaN \<Longrightarrow> c \<noteq> NaN \<Longrightarrow> \<not> f64_less b a \<Longrightarrow> f64_less b c \<Longrightarrow> f64_less a c"
  by (cases a; cases b; cases c) auto

lemma f64_less_not_less_trans:
  "c \<noteq> NaN \<Longrightarrow> f64_less a b \<Longrightarrow> \<not> f64_less c b \<Longrightarrow> f64_less a c"
  by (cases a; cases b; cases c) auto

lemma f64_of_int_not_NaN: "f64_of_int w \<noteq> NaN"
  by (simp add: f64_of_int_def round64_def Let_def)

text \<open>Constants of ordinary size that are a factor of two apart stay apart when they are rounded.\<close>

lemma round_pos_near:
  assumes "pow2 (- 1022) \<le> x"
  shows "\<bar>round_pos x - x\<bar> \<le> x / 8"
proof -
  have x: "0 < x" using assms pow2_pos [of "- 1022"] by linarith
  have "pow2 (- 1022) < pow2 (log2_floor x + 1)" using assms log2_floor_bounds [OF x] by linarith
  then have "- 1022 < log2_floor x + 1" by (simp only: pow2_less_iff)
  then have "ulp_exp x = log2_floor x + (- 52)" by (simp add: ulp_exp_def)
  then have "pow2 (ulp_exp x) = pow2 (log2_floor x) * pow2 (- 52)" by (simp only: pow2_add)
  moreover have "pow2 (log2_floor x) * pow2 (- 52) \<le> x * (1 / 4)"
    using log2_floor_bounds [OF x] x by (intro mult_mono) (simp_all add: pow2_def)
  ultimately show ?thesis using round_pos_error [of x] by linarith
qed

lemma f64_const_less:
  assumes "pow2 (- 1022) \<le> x" and "2 * x \<le> y" and "y \<le> pow2 1023"
  shows "f64_less (f64_const x) (f64_const y)"
proof -
  have x: "0 < x" using assms pow2_pos [of "- 1022"] by linarith
  have y: "\<bar>round_pos y - y\<bar> \<le> y / 8" by (rule round_pos_near) (use assms x in linarith)
  have "pow2 1024 = 2 * pow2 1023" using pow2_Suc [of 1023] by simp
  with y assms x have "round_pos y < pow2 1024" "- pow2 1024 < round_pos y" "0 < y" by linarith+
  moreover have "round_pos x < round_pos y" "0 \<le> round_pos x"
    using y round_pos_near [OF assms(1)] assms(2) x by linarith+
  ultimately show ?thesis
    using x by (simp add: f64_const_def round64_def round_rat_def Let_def)
qed

end
