(* ===== verification/Scheduling.thy ===== *)
theory Scheduling
  imports Go_Float
begin

section \<open>What the scheduling framework hands to the plugins\<close>

text \<open>
  The fields of the framework's \<open>types.Pod\<close>, \<open>types.LLMRequest\<close> and
  \<open>types.SchedulingResult\<close> that the plugins read. A pointer or interface value that may be nil
  is an option; a pod's accessors \<open>GetPod\<close> and \<open>GetMetrics\<close> are fields.
\<close>

record namespaced_name =
  NnNamespace :: string
  NnName :: string

definition nn_String :: "namespaced_name \<Rightarrow> string" where
  "nn_String n = NnNamespace n @ ''/'' @ NnName n"

record pod_info =
  NamespacedName :: namespaced_name
  Address :: string

record pod_metrics =
  mRunningRequestsSize :: int64
  mWaitingQueueSize :: int64
  mKVCacheUsagePercent :: float64

record sched_pod =
  GetPod :: "pod_info option"
  GetMetrics :: "pod_metrics option"

record llm_request =
  TargetModel :: string

record profile_result =
  TargetPods :: "sched_pod option list"

record scheduling_result =
  PrimaryProfileName :: string
  ProfileResults :: "(string \<rightharpoonup> profile_result option) option"

record typed_name =
  PluginType :: string
  PluginName :: string

text \<open>The address of a pod, empty when the framework has no information on it.\<close>

definition sched_addr :: "sched_pod \<Rightarrow> string" where
  "sched_addr p = (case GetPod p of None \<Rightarrow> [] | Some info \<Rightarrow> Address info)"

end
