(* ===== verification/K8s.thy ===== *)
theory K8s
  imports Prelude
begin

section \<open>The cluster and the model servers as the program sees them\<close>

text \<open>
  The fields of \<open>corev1.Pod\<close> and \<open>corev1.Node\<close> that the program reads, the options it
  passes to \<open>client.List\<close>, and the outcome of an HTTP exchange with a model server. The
  Kubernetes API server and the model servers are outside the program: a client is an argument of
  the operations that use it, a function from the list options to an error or a list of objects,
  and an HTTP transport is a function from requests to outcomes.
\<close>

record container_port =
  cpProtocol :: string
  cpContainerPort :: int32

record pod =
  PodName :: string
  PodNamespace :: string
  PodLabels :: labels
  NodeName :: string
  Containers :: "container_port list list"
  Phase :: string
  PodIP :: string

record node =
  NodeObjName :: string
  NodeLabels :: labels

definition PodRunning :: string where "PodRunning = ''Running''"
definition ProtocolTCP :: string where "ProtocolTCP = ''TCP''"

record list_opts =
  inNamespace :: "string option"
  matchingLabels :: labels
  fieldNodeName :: "string option"

type_synonym 'obj lister = "list_opts \<Rightarrow> string + 'obj list"

text \<open>
  The documented meaning of the options: an object of the answer is in the namespace, carries
  every label of the selector, and has the node name of the field selector. The empty namespace means
  all namespaces.
\<close>

definition labels_match :: "labels \<Rightarrow> labels \<Rightarrow> bool" where
  "labels_match sel ls \<longleftrightarrow> sel \<subseteq>\<^sub>m ls"

definition in_namespace :: "string \<Rightarrow> pod \<Rightarrow> bool" where
  "in_namespace ns p \<longleftrightarrow> ns = [] \<or> PodNamespace p = ns"

definition pod_matches :: "list_opts \<Rightarrow> pod \<Rightarrow> bool" where
  "pod_matches opts p \<longleftrightarrow>
     (case inNamespace opts of None \<Rightarrow> True | Some ns \<Rightarrow> in_namespace ns p) \<and>
     labels_match (matchingLabels opts) (PodLabels p) \<and>
     (case fieldNodeName opts of None \<Rightarrow> True | Some n \<Rightarrow> NodeName p = n)"

definition lists_cluster :: "pod lister \<Rightarrow> pod list \<Rightarrow> bool" where
  "lists_cluster client cluster \<longleftrightarrow>
     (\<forall>opts ps. client opts = Inr ps \<longrightarrow> ps = filter (pod_matches opts) cluster)"

subsection \<open>HTTP\<close>

datatype http_body = NoBody | ModelRequest string

text \<open>\<open>ModelRequest m\<close> is the JSON object \<open>{"model": m}\<close>, the only body the program sends.\<close>

record http_request =
  reqMethod :: string
  reqURL :: string
  reqBody :: http_body

record http_response =
  StatusCode :: int
  Body :: "string option"

text \<open>
  \<open>Body = None\<close> is a response whose body cannot be read. A transport may refuse a URL
  (\<open>http.NewRequestWithContext\<close> fails to parse it), fail to get a response, or return one.
\<close>

record transport =
  urlOk :: "string \<Rightarrow> bool"
  doReq :: "http_request \<Rightarrow> string + http_response"

definition StatusOK :: int where "StatusOK = 200"
definition StatusCreated :: int where "StatusCreated = 201"
definition StatusAccepted :: int where "StatusAccepted = 202"

definition GET :: "string \<Rightarrow> http_request" where
  "GET url = \<lparr>reqMethod = ''GET'', reqURL = url, reqBody = NoBody\<rparr>"

definition POST :: "string \<Rightarrow> http_body \<Rightarrow> http_request" where
  "POST url body = \<lparr>reqMethod = ''POST'', reqURL = url, reqBody = body\<rparr>"

text \<open>
  One entry of a model server's \<open>/models\<close> answer, \<open>{"id": _, "status": {"value": _}}\<close>, as
  decoded by \<open>encoding/json\<close> with missing fields empty. A status of \<open>loaded\<close>,
  \<open>running\<close> or the empty string is a live model.
\<close>

record model_entry =
  ID :: string
  StatusValue :: string

definition live_status :: "string \<Rightarrow> bool" where
  "live_status v \<longleftrightarrow> v = ''loaded'' \<or> v = ''running'' \<or> v = []"

end
