(* ===== verification/Warm_Models.thy ===== *)
theory Warm_Models
  imports Prelude
begin

section \<open>The warm-model interface\<close>

text \<open>
  The loaded-model filter and the model loader share one tracker: the filter asks whether a pod
  has a model, the loader marks a pod before a cold load and retracts the mark when the load
  fails. The locale states what both rely on; the tracker provides it in \<open>Model_Tracker\<close>.
  An empty pod key or model name makes a mark a no-op.
\<close>

datatype mark_event = Mark string string | Unmark string string

fun event_target :: "mark_event \<Rightarrow> string \<times> string" where
  "event_target (Mark p m) = (p, m)"
| "event_target (Unmark p m) = (p, m)"

fun is_mark :: "mark_event \<Rightarrow> bool" where
  "is_mark (Mark p m) = True"
| "is_mark (Unmark p m) = False"

locale warm_models =
  fixes is_loaded :: "'t \<Rightarrow> string \<Rightarrow> string \<Rightarrow> bool"
    and mark :: "string \<Rightarrow> string \<Rightarrow> 't \<Rightarrow> 't"
    and unmark :: "string \<Rightarrow> string \<Rightarrow> 't \<Rightarrow> 't"
    and ok :: "'t \<Rightarrow> bool"
  assumes ok_mark: "ok t \<Longrightarrow> ok (mark p m t)"
    and ok_unmark: "ok t \<Longrightarrow> ok (unmark p m t)"
    and loaded_mark: "ok t \<Longrightarrow> is_loaded (mark p m t) q n \<longleftrightarrow>
      (q = p \<and> n = m \<and> p \<noteq> [] \<and> m \<noteq> []) \<or> is_loaded t q n"
    and loaded_unmark: "ok t \<Longrightarrow> is_loaded (unmark p m t) q n \<longleftrightarrow>
      is_loaded t q n \<and> \<not> (q = p \<and> n = m \<and> p \<noteq> [] \<and> m \<noteq> [])"
begin

text \<open>An optimistic mark that is retracted leaves no trace on any other pod or model.\<close>

lemma mark_then_unmark:
  assumes "ok t" and "p \<noteq> []" and "m \<noteq> []"
  shows "is_loaded (unmark p m (mark p m t)) q n \<longleftrightarrow> is_loaded t q n \<and> (q, n) \<noteq> (p, m)"
  using assms by (auto simp: loaded_mark loaded_unmark ok_mark)

definition apply_event :: "mark_event \<Rightarrow> 't \<Rightarrow> 't" where
  "apply_event e t = (case e of Mark p m \<Rightarrow> mark p m t | Unmark p m \<Rightarrow> unmark p m t)"

lemma ok_apply_event: "ok t \<Longrightarrow> ok (apply_event e t)"
  by (cases e) (simp_all add: apply_event_def ok_mark ok_unmark)

lemma ok_run: "ok t \<Longrightarrow> ok (fold apply_event es t)"
  by (induction es arbitrary: t) (simp_all add: ok_apply_event)

lemma loaded_event:
  assumes "ok t" and "p \<noteq> []" and "m \<noteq> []"
  shows "is_loaded (apply_event e t) p m \<longleftrightarrow>
    (if event_target e = (p, m) then is_mark e else is_loaded t p m)"
  using assms by (cases e) (auto simp: apply_event_def loaded_mark loaded_unmark)

text \<open>After any run of marks and retractions, the last one about a pair decides.\<close>

lemma last_event_decides:
  assumes "ok t" and "p \<noteq> []" and "m \<noteq> []"
  shows "is_loaded (fold apply_event es t) p m \<longleftrightarrow>
    (case filter (\<lambda>e. event_target e = (p, m)) es of
       [] \<Rightarrow> is_loaded t p m
     | _ \<Rightarrow> is_mark (last (filter (\<lambda>e. event_target e = (p, m)) es)))"
  using assms(1)
proof (induction es arbitrary: t)
  case (Cons e es)
  note IH = Cons.IH [OF ok_apply_event [OF Cons.prems, of e]]
  show ?case
    using IH loaded_event [OF Cons.prems assms(2,3), of e]
    by (cases "filter (\<lambda>e. event_target e = (p, m)) es") auto
qed simp

text \<open>Keeping the warm pods of a list: marking a pod of the list makes the result non-empty.\<close>

lemma warm_after_mark:
  assumes "ok t" and "m \<noteq> []" and "x \<in> set xs" and "addr x \<noteq> []"
  shows "x \<in> set (filter (\<lambda>y. is_loaded (mark (addr x) m t) (addr y) m) xs)"
  using assms by (simp add: loaded_mark)

lemma cold_after_unmark:
  assumes "ok t" and "m \<noteq> []" and "addr x \<noteq> []"
  shows "x \<notin> set (filter (\<lambda>y. is_loaded (unmark (addr x) m t) (addr y) m) xs)"
  using assms by (simp add: loaded_unmark)

end

end
