(* ===== verification/Model_Tracker.thy ===== *)
theory Model_Tracker
  imports Prelude Warm_Models
begin

section \<open>The model tracker's state and its queries\<close>

text \<open>
  \<open>internal/modeltracker/tracker.go\<close>, up to the poller: which models each pod has loaded.
  \<open>loaded\<close> maps a pod key (its IP) to a \<open>PodModelSet\<close>. A Go map is a reference: the
  poller keeps the set of a pod that failed to answer by storing the same reference again, so the
  sets live in a store \<open>sets\<close> addressed by \<open>ref\<close>, and \<open>nextRef\<close> is the next
  unused address. The mutex makes each method atomic, so each is a function of the state.
\<close>

type_synonym ref = nat

record options =
  oNamespace :: string
  oPodSelector :: labels
  oPodPort :: int
  oQueryPath :: string
  oUnloadPath :: string
  oPollInterval :: int
  oPollTimeout :: int
  oPressure :: bool
  oDedupGracePolls :: int

record tracker =
  namespace :: string
  podSelector :: labels
  podPort :: int
  queryPath :: string
  unloadPath :: string
  pollInterval :: int
  clientTimeout :: int
  hasPressure :: bool
  dedupGracePolls :: int
  hasObserver :: bool
  loaded :: "string \<rightharpoonup> ref"
  sets :: "ref \<Rightarrow> string set"
  nextRef :: ref
  podIP :: "string \<rightharpoonup> string"
  dupObs :: "string \<rightharpoonup> int"
  firstPoll :: bool

text \<open>
  \<open>hasPressure\<close> and \<open>hasObserver\<close> say that the provider and the callback are not nil;
  what they do when called is an argument of the operations that call them.
\<close>

definition second :: int where
  "second = 1000000000"

definition DefaultPollInterval :: int where "DefaultPollInterval = 10 * second"
definition DefaultPollTimeout :: int where "DefaultPollTimeout = 5 * second"
definition DefaultModelServerPort :: int where "DefaultModelServerPort = 8080"
definition DefaultModelQueryPath :: string where "DefaultModelQueryPath = ''/models''"
definition DefaultUnloadPath :: string where "DefaultUnloadPath = ''/models/unload''"
definition DefaultDedupGracePolls :: int where "DefaultDedupGracePolls = 12"
definition MaxUnloadsPerCycle :: int where "MaxUnloadsPerCycle = 1"

definition or_default :: "'a \<Rightarrow> 'a \<Rightarrow> 'a \<Rightarrow> 'a" where
  "or_default zero d x = (if x = zero then d else x)"

definition NewTracker :: "options \<Rightarrow> tracker" where
  "NewTracker opts =
     \<lparr>namespace = oNamespace opts,
      podSelector = oPodSelector opts,
      podPort = or_default 0 DefaultModelServerPort (oPodPort opts),
      queryPath = or_default [] DefaultModelQueryPath (oQueryPath opts),
      unloadPath = or_default [] DefaultUnloadPath (oUnloadPath opts),
      pollInterval = or_default 0 DefaultPollInterval (oPollInterval opts),
      clientTimeout = or_default 0 DefaultPollTimeout (oPollTimeout opts),
      hasPressure = oPressure opts,
      dedupGracePolls = or_default 0 DefaultDedupGracePolls (oDedupGracePolls opts),
      hasObserver = False,
      loaded = Map.empty, sets = (\<lambda>_. {}), nextRef = 0,
      podIP = Map.empty, dupObs = Map.empty, firstPoll = False\<rparr>"

subsection \<open>Queries\<close>

text \<open>The set a pod's key leads to, and the two membership queries.\<close>

definition pod_set :: "tracker \<Rightarrow> string \<Rightarrow> string set option" where
  "pod_set t podKey = map_option (sets t) (loaded t podKey)"

definition IsLoaded :: "tracker \<Rightarrow> string \<Rightarrow> string \<Rightarrow> bool" where
  "IsLoaded t podKey model =
     (if \<not> firstPoll t then False
      else case loaded t podKey of None \<Rightarrow> False | Some r \<Rightarrow> model \<in> sets t r)"

text \<open>The loop over the pods stops at the first one that has the model.\<close>

fun any_loaded :: "tracker \<Rightarrow> string \<Rightarrow> string list \<Rightarrow> bool" where
  "any_loaded t model [] = False"
| "any_loaded t model (k # ks) =
     (case loaded t k of
        Some r \<Rightarrow> if model \<in> sets t r then True else any_loaded t model ks
      | None \<Rightarrow> any_loaded t model ks)"

definition AnyPodHasLoaded :: "(string set \<Rightarrow> string list) \<Rightarrow> tracker \<Rightarrow> string \<Rightarrow> bool" where
  "AnyPodHasLoaded ord t model =
     (if \<not> firstPoll t then False else any_loaded t model (ord (dom (loaded t))))"

text \<open>\<open>Snapshot\<close> allocates a fresh set for each pod and fills it with the pod's models.\<close>

fun snapshot_pods :: "string list \<Rightarrow> tracker \<Rightarrow> (string \<rightharpoonup> ref) \<Rightarrow> (string \<rightharpoonup> ref) \<times> tracker" where
  "snapshot_pods [] t out = (out, t)"
| "snapshot_pods (k # ks) t out =
     (case loaded t k of
        None \<Rightarrow> snapshot_pods ks t out
      | Some r \<Rightarrow>
          snapshot_pods ks
            (t\<lparr>sets := (sets t)(nextRef t := sets t r), nextRef := Suc (nextRef t)\<rparr>)
            (out(k \<mapsto> nextRef t)))"

definition Snapshot :: "(string set \<Rightarrow> string list) \<Rightarrow> tracker \<Rightarrow> (string \<rightharpoonup> ref) \<times> tracker" where
  "Snapshot ord t = snapshot_pods (ord (dom (loaded t))) t Map.empty"

subsection \<open>Updates\<close>

text \<open>\<open>t.loaded[podKey] = set\<close> for a set just made: a fresh address with that content.\<close>

definition link_set :: "string \<Rightarrow> string set \<Rightarrow> tracker \<Rightarrow> tracker" where
  "link_set podKey S t =
     t\<lparr>loaded := (loaded t)(podKey \<mapsto> nextRef t),
       sets := (sets t)(nextRef t := S), nextRef := Suc (nextRef t)\<rparr>"

definition SetLoaded :: "string \<Rightarrow> string list \<Rightarrow> tracker \<Rightarrow> tracker" where
  "SetLoaded podKey models t = (link_set podKey (set models) t)\<lparr>firstPoll := True\<rparr>"

definition SetPodIP :: "string \<Rightarrow> string \<Rightarrow> tracker \<Rightarrow> tracker" where
  "SetPodIP podKey ip t = t\<lparr>podIP := (podIP t)(podKey \<mapsto> ip)\<rparr>"

definition MarkLoaded :: "string \<Rightarrow> string \<Rightarrow> tracker \<Rightarrow> tracker" where
  "MarkLoaded podKey model t =
     (if podKey = [] \<or> model = [] then t
      else
        (let (r, t') = (case loaded t podKey of
               Some r \<Rightarrow> (r, t)
             | None \<Rightarrow> (nextRef t, link_set podKey {} t))
         in t'\<lparr>sets := (sets t')(r := insert model (sets t' r)), firstPoll := True\<rparr>))"

text \<open>
  \<open>MarkUnloaded\<close> calls the observer after it has released the lock; the call is the second
  component of the result, with the pod's routable IP, or its key when the tracker has no IP.
\<close>

definition MarkUnloaded :: "string \<Rightarrow> string \<Rightarrow> tracker \<Rightarrow> tracker \<times> (string \<times> string) option" where
  "MarkUnloaded podKey model t =
     (if podKey = [] \<or> model = [] then (t, None)
      else
        (case loaded t podKey of
           None \<Rightarrow> (t, None)
         | Some r \<Rightarrow>
             (t\<lparr>sets := (sets t)(r := sets t r - {model})\<rparr>,
              if hasObserver t
              then Some (case podIP t podKey of None \<Rightarrow> podKey
                         | Some ip \<Rightarrow> if ip = [] then podKey else ip, model)
              else None)))"

definition SetUnloadObserver :: "bool \<Rightarrow> tracker \<Rightarrow> tracker" where
  "SetUnloadObserver obs t = t\<lparr>hasObserver := obs\<rparr>"

lemma MarkLoaded_noop: "p = [] \<or> m = [] \<Longrightarrow> MarkLoaded p m t = t"
  by (auto simp: MarkLoaded_def)

lemma MarkLoaded_known:
  "p \<noteq> [] \<Longrightarrow> m \<noteq> [] \<Longrightarrow> loaded t p = Some r \<Longrightarrow>
   MarkLoaded p m t = t\<lparr>sets := (sets t)(r := insert m (sets t r)), firstPoll := True\<rparr>"
  by (simp add: MarkLoaded_def)

lemma MarkLoaded_new:
  "p \<noteq> [] \<Longrightarrow> m \<noteq> [] \<Longrightarrow> loaded t p = None \<Longrightarrow>
   MarkLoaded p m t = (link_set p {m} t)\<lparr>firstPoll := True\<rparr>"
  by (rule tracker.equality) (simp_all add: MarkLoaded_def link_set_def)

subsection \<open>Well-formed trackers\<close>

text \<open>
  Every address in use was handed out, no two pods share a set, maps and sets are finite, and
  nothing is tracked before the first poll or mark. Sharing is what would make a change to one pod
  visible at another.
\<close>

definition wf_tracker :: "tracker \<Rightarrow> bool" where
  "wf_tracker t \<longleftrightarrow>
     (\<forall>p r. loaded t p = Some r \<longrightarrow> r < nextRef t \<and> finite (sets t r)) \<and>
     (\<forall>p q r. loaded t p = Some r \<longrightarrow> loaded t q = Some r \<longrightarrow> p = q) \<and>
     finite (dom (loaded t)) \<and> finite (dom (dupObs t)) \<and>
     (\<not> firstPoll t \<longrightarrow> loaded t = Map.empty)"

lemma wf_trackerI:
  assumes "\<And>p r. loaded t p = Some r \<Longrightarrow> r < nextRef t"
    and "\<And>p r. loaded t p = Some r \<Longrightarrow> finite (sets t r)"
    and "\<And>p q r. loaded t p = Some r \<Longrightarrow> loaded t q = Some r \<Longrightarrow> p = q"
    and "finite (dom (loaded t))" and "finite (dom (dupObs t))"
    and "\<not> firstPoll t \<Longrightarrow> loaded t = Map.empty"
  shows "wf_tracker t"
  using assms unfolding wf_tracker_def by blast

lemma wf_trackerD:
  assumes "wf_tracker t"
  shows wf_tracker_ref: "loaded t p = Some r \<Longrightarrow> r < nextRef t"
    and wf_tracker_set: "loaded t p = Some r \<Longrightarrow> finite (sets t r)"
    and wf_tracker_inj: "loaded t p = Some r \<Longrightarrow> loaded t q = Some r \<Longrightarrow> p = q"
    and wf_tracker_fin: "finite (dom (loaded t))" "finite (dom (dupObs t))"
    and wf_tracker_unpolled: "\<not> firstPoll t \<Longrightarrow> loaded t = Map.empty"
  using assms unfolding wf_tracker_def by blast+

lemma wf_tracker_fresh: "wf_tracker t \<Longrightarrow> loaded t p \<noteq> Some (nextRef t)"
  using wf_tracker_ref [of t p "nextRef t"] by auto

lemma dom_pod_set [simp]: "dom (pod_set t) = dom (loaded t)"
  by (auto simp: pod_set_def dom_def)

lemma pod_set_finite: "wf_tracker t \<Longrightarrow> pod_set t p = Some S \<Longrightarrow> finite S"
  by (auto simp: pod_set_def dest: wf_tracker_set)

lemma wf_NewTracker: "wf_tracker (NewTracker opts)"
  by (simp add: wf_tracker_def NewTracker_def)

lemma wf_link_set:
  assumes "wf_tracker t" and "finite S"
  shows "wf_tracker ((link_set p S t)\<lparr>firstPoll := True\<rparr>)"
  using assms
  by (intro wf_trackerI)
    (auto simp: link_set_def less_Suc_eq wf_tracker_fin wf_tracker_fresh split: if_splits
      dest: wf_tracker_ref wf_tracker_set wf_tracker_inj wf_tracker_fresh)

lemma wf_set_upd:
  assumes "wf_tracker t" and "finite S"
  shows "wf_tracker (t\<lparr>sets := (sets t)(r := S)\<rparr>)"
    and "wf_tracker (t\<lparr>sets := (sets t)(r := S), firstPoll := True\<rparr>)"
  using assms by (auto simp: wf_tracker_def)

lemma wf_SetLoaded: "wf_tracker t \<Longrightarrow> wf_tracker (SetLoaded p ms t)"
  by (simp add: SetLoaded_def wf_link_set)

lemma wf_SetPodIP: "wf_tracker t \<Longrightarrow> wf_tracker (SetPodIP p ip t)"
  by (simp add: SetPodIP_def wf_tracker_def)

lemma wf_SetUnloadObserver: "wf_tracker t \<Longrightarrow> wf_tracker (SetUnloadObserver b t)"
  by (simp add: SetUnloadObserver_def wf_tracker_def)

lemma wf_MarkLoaded:
  assumes "wf_tracker t"
  shows "wf_tracker (MarkLoaded p m t)"
proof (cases "p = [] \<or> m = []")
  case False
  then show ?thesis
    using assms wf_tracker_set [OF assms]
    by (cases "loaded t p") (simp_all add: MarkLoaded_new MarkLoaded_known wf_link_set wf_set_upd)
qed (simp add: MarkLoaded_noop assms)

lemma wf_MarkUnloaded: "wf_tracker t \<Longrightarrow> wf_tracker (fst (MarkUnloaded p m t))"
  by (auto simp: MarkUnloaded_def wf_set_upd wf_tracker_set split: option.splits)

lemmas wf_tracker_ops =
  wf_NewTracker wf_SetLoaded wf_SetPodIP wf_SetUnloadObserver wf_MarkLoaded wf_MarkUnloaded

subsection \<open>The abstract view and its refinement\<close>

text \<open>
  What the tracker promises, without addresses: which models are known to be warm on which pod.
  Each operation on the store does to \<open>pod_set\<close> what the abstract one does to the view.
\<close>

type_synonym warm_view = "string \<rightharpoonup> string set"

definition view_mark :: "string \<Rightarrow> string \<Rightarrow> warm_view \<Rightarrow> warm_view" where
  "view_mark p m v =
     (if p = [] \<or> m = [] then v
      else v(p \<mapsto> insert m (case v p of None \<Rightarrow> {} | Some S \<Rightarrow> S)))"

definition view_unmark :: "string \<Rightarrow> string \<Rightarrow> warm_view \<Rightarrow> warm_view" where
  "view_unmark p m v =
     (if p = [] \<or> m = [] then v
      else case v p of None \<Rightarrow> v | Some S \<Rightarrow> v(p \<mapsto> S - {m}))"

lemma pod_set_apply: "pod_set t p = (case loaded t p of None \<Rightarrow> None | Some r \<Rightarrow> Some (sets t r))"
  by (simp add: pod_set_def map_option_case)

lemma pod_set_link_set:
  assumes "wf_tracker t"
  shows "pod_set (link_set p S t) = (pod_set t)(p \<mapsto> S)"
  by (rule ext) (use wf_tracker_fresh [OF assms] in
      \<open>auto simp: pod_set_apply link_set_def split: option.splits\<close>)

lemma pod_set_set_upd:
  assumes "wf_tracker t" and "loaded t p = Some r"
  shows "pod_set (t\<lparr>sets := (sets t)(r := S)\<rparr>) = (pod_set t)(p \<mapsto> S)"
  by (rule ext) (use assms in
      \<open>auto simp: pod_set_apply split: option.splits dest: wf_tracker_inj\<close>)

lemma pod_set_firstPoll [simp]: "pod_set (t\<lparr>firstPoll := b\<rparr>) = pod_set t"
  by (simp add: pod_set_def fun_eq_iff)

lemma pod_set_SetLoaded: "wf_tracker t \<Longrightarrow> pod_set (SetLoaded p ms t) = (pod_set t)(p \<mapsto> set ms)"
  by (simp add: SetLoaded_def pod_set_link_set)

lemma pod_set_MarkLoaded:
  assumes "wf_tracker t"
  shows "pod_set (MarkLoaded p m t) = view_mark p m (pod_set t)"
proof (cases "p = [] \<or> m = []")
  case False
  show ?thesis
  proof (cases "loaded t p")
    case None
    with False show ?thesis
      using assms by (simp add: MarkLoaded_new pod_set_link_set view_mark_def) (simp add: pod_set_apply)
  next
    case (Some r)
    with False show ?thesis
      using pod_set_set_upd [OF assms Some, of "insert m (sets t r)"]
      by (simp add: MarkLoaded_known view_mark_def pod_set_apply fun_eq_iff)
  qed
qed (auto simp: MarkLoaded_noop view_mark_def)

lemma pod_set_MarkUnloaded:
  assumes "wf_tracker t"
  shows "pod_set (fst (MarkUnloaded p m t)) = view_unmark p m (pod_set t)"
  using pod_set_set_upd [OF assms]
  by (auto simp: MarkUnloaded_def view_unmark_def pod_set_apply split: option.splits)

lemma IsLoaded_view:
  assumes "wf_tracker t"
  shows "IsLoaded t p m \<longleftrightarrow> (\<exists>S. pod_set t p = Some S \<and> m \<in> S)"
  using wf_tracker_unpolled [OF assms]
  by (auto simp: IsLoaded_def pod_set_def split: option.splits)

lemmas tracker_view = pod_set_SetLoaded pod_set_MarkLoaded pod_set_MarkUnloaded IsLoaded_view

subsection \<open>The tracker provides the warm-model interface\<close>

lemma view_mark_iff:
  "(\<exists>S. view_mark p m v q = Some S \<and> n \<in> S) \<longleftrightarrow>
   (q = p \<and> n = m \<and> p \<noteq> [] \<and> m \<noteq> []) \<or> (\<exists>S. v q = Some S \<and> n \<in> S)"
  by (auto simp: view_mark_def split: option.splits)

lemma view_unmark_iff:
  "(\<exists>S. view_unmark p m v q = Some S \<and> n \<in> S) \<longleftrightarrow>
   (\<exists>S. v q = Some S \<and> n \<in> S) \<and> \<not> (q = p \<and> n = m \<and> p \<noteq> [] \<and> m \<noteq> [])"
  by (auto simp: view_unmark_def split: option.splits)

interpretation warm: warm_models
  IsLoaded MarkLoaded "\<lambda>p m t. fst (MarkUnloaded p m t)" wf_tracker
  by unfold_locales
    (simp_all add: wf_tracker_ops tracker_view view_mark_iff view_unmark_iff)

end
