(* ===== verification/Model_Loader.thy ===== *)
theory Model_Loader
  imports Scheduling K8s Model_Tracker
begin

section \<open>The model loader\<close>

text \<open>
  \<open>internal/plugins/modelloader/loader.go\<close>: before a request goes to the chosen pod, the
  plugin makes sure that the pod has the model, loading it when it has not. The loader's maps are
  shared between requests; \<open>loadingModels\<close> points to results that waiting requests also hold,
  so results live in a store. The tracker is a separate shared object, and the tracker's unload
  observer is the loader's \<open>InvalidateLoadedModel\<close>.

  This theory translates the plugin's functions with one request running; what another request does
  meanwhile enters as the outcome of waiting for it. \<open>Loader_Machine\<close> interleaves requests.
\<close>

subsection \<open>Configuration and state\<close>

record loader_config =
  ModelServerPort :: int
  ModelLoadEndpoint :: string
  ModelQueryEndpoint :: string
  ModelLoadTimeoutSeconds :: int
  ConcurrentLoadLimit :: int

definition loader_defaultModelServerPort :: int where "loader_defaultModelServerPort = 8080"
definition defaultModelLoadEndpoint :: string where "defaultModelLoadEndpoint = ''/models/load''"
definition defaultModelQueryEndpoint :: string where "defaultModelQueryEndpoint = ''/models''"
definition defaultModelLoadTimeout :: int where "defaultModelLoadTimeout = 15 * 60 * 1000000000"
definition defaultModelQueryTimeout :: int where "defaultModelQueryTimeout = 5 * 1000000000"
definition defaultConcurrentLoadLimit :: int where "defaultConcurrentLoadLimit = 2"

definition DefaultConfig :: loader_config where
  "DefaultConfig =
     \<lparr>ModelServerPort = loader_defaultModelServerPort, ModelLoadEndpoint = defaultModelLoadEndpoint,
      ModelQueryEndpoint = defaultModelQueryEndpoint,
      ModelLoadTimeoutSeconds = defaultModelLoadTimeout div 1000000000,
      ConcurrentLoadLimit = defaultConcurrentLoadLimit\<rparr>"

text \<open>
  The timeout of a load in nanoseconds: \<open>time.Duration(seconds) * time.Second\<close> wraps at 64 bits. It is
  the timeout of the plugin's HTTP client, where 0 is none, and that of the wait for a load.
\<close>

definition load_timeout :: "loader_config \<Rightarrow> int64" where
  "load_timeout config = word_of_int (ModelLoadTimeoutSeconds config) * 1000000000"

datatype load_error =
  CreateRequest string
| RequestFailed string
| ModelLoadFailed int string
| WaitLoaded string string
| ConcurrentLoadFailed load_error
| ContextCancelled

record load_result =
  lrDone :: bool
  lrErr :: "load_error option"

record loader =
  ldTypedName :: typed_name
  ldConfig :: loader_config
  ldHttpTimeout :: int64
  loadingModels :: "string \<rightharpoonup> nat"
  loadedModels :: "string \<rightharpoonup> gotime"
  results :: "nat \<Rightarrow> load_result"
  nextResult :: nat

type_synonym world = "loader \<times> tracker option"

definition ModelLoaderType :: string where
  "ModelLoaderType = ''model-loader''"

definition NewPlugin :: "string \<Rightarrow> loader_config \<Rightarrow> loader" where
  "NewPlugin name config =
     \<lparr>ldTypedName = \<lparr>PluginType = ModelLoaderType, PluginName = name\<rparr>, ldConfig = config,
      ldHttpTimeout = load_timeout config, loadingModels = Map.empty, loadedModels = Map.empty,
      results = (\<lambda>_. \<lparr>lrDone = False, lrErr = None\<rparr>), nextResult = 0\<rparr>"

definition loader_TypedName :: "loader \<Rightarrow> typed_name" where
  "loader_TypedName p = ldTypedName p"

definition WithTracker :: "tracker option \<Rightarrow> loader \<Rightarrow> world" where
  "WithTracker t p = (p, map_option (SetUnloadObserver True) t)"

text \<open>\<open>unmarshal\<close> is \<open>json.Unmarshal\<close> of the parameters over the default configuration.\<close>

definition ModelLoaderFactory ::
  "(string \<Rightarrow> loader_config \<Rightarrow> string + loader_config) \<Rightarrow> tracker option option \<Rightarrow>
   string \<Rightarrow> string \<Rightarrow> string + world" where
  "ModelLoaderFactory unmarshal loaderDeps name rawParameters =
     (case (if rawParameters = [] then Inr DefaultConfig else unmarshal rawParameters DefaultConfig) of
        Inl e \<Rightarrow> Inl e
      | Inr config \<Rightarrow>
          (let p = NewPlugin name config
           in case loaderDeps of
                Some (Some t) \<Rightarrow> Inr (WithTracker (Some t) p)
              | _ \<Rightarrow> Inr (p, None)))"

definition loadKey :: "string \<Rightarrow> string \<Rightarrow> string" where
  "loadKey ip model = ip @ '':'' @ model"

definition InvalidateLoadedModel :: "string \<Rightarrow> string \<Rightarrow> loader \<Rightarrow> loader" where
  "InvalidateLoadedModel ip model p =
     (if ip = [] \<or> model = [] then p
      else p\<lparr>loadedModels := (loadedModels p)(loadKey ip model := None)\<rparr>)"

definition ClearLoadedModelsCache :: "loader \<Rightarrow> loader" where
  "ClearLoadedModelsCache p = p\<lparr>loadedModels := Map.empty\<rparr>"

definition cache_loaded :: "gotime \<Rightarrow> string \<Rightarrow> loader \<Rightarrow> loader" where
  "cache_loaded now key p = p\<lparr>loadedModels := (loadedModels p)(key \<mapsto> now)\<rparr>"

definition markTrackerLoaded :: "string \<Rightarrow> string \<Rightarrow> world \<Rightarrow> world" where
  "markTrackerLoaded key model w =
     (case w of (p, t) \<Rightarrow>
        case t of None \<Rightarrow> w
        | Some tr \<Rightarrow> if key = [] then w else (p, Some (MarkLoaded key model tr)))"

text \<open>A retraction calls the unload observer, which drops the pair from the loader's own cache.\<close>

definition markTrackerUnloaded :: "string \<Rightarrow> string \<Rightarrow> world \<Rightarrow> world" where
  "markTrackerUnloaded key model w =
     (case w of (p, t) \<Rightarrow>
        case t of None \<Rightarrow> w
        | Some tr \<Rightarrow>
            if key = [] then w
            else (case MarkUnloaded key model tr of
                    (tr', None) \<Rightarrow> (p, Some tr')
                  | (tr', Some (ip, m)) \<Rightarrow> (InvalidateLoadedModel ip m p, Some tr')))"

subsection \<open>The target of a request\<close>

definition getTargetPod :: "scheduling_result \<Rightarrow> sched_pod option" where
  "getTargetPod result =
     (case ProfileResults result of
        None \<Rightarrow> None
      | Some profiles \<Rightarrow>
          (case profiles (PrimaryProfileName result) of
             Some (Some primary) \<Rightarrow>
               (case TargetPods primary of [] \<Rightarrow> None | pod # _ \<Rightarrow> pod)
           | _ \<Rightarrow> None))"

definition validateAndExtractPreRequestInfo ::
  "llm_request option \<Rightarrow> scheduling_result option \<Rightarrow> string \<times> string \<times> string" where
  "validateAndExtractPreRequestInfo request schedulingResult =
     (case request of
        None \<Rightarrow> ([], [], [])
      | Some req \<Rightarrow>
          (case schedulingResult of
             None \<Rightarrow> ([], [], [])
           | Some result \<Rightarrow>
               if TargetModel req = [] then ([], [], [])
               else case getTargetPod result of
                 None \<Rightarrow> ([], [], [])
               | Some targetPod \<Rightarrow>
                   (case GetPod targetPod of
                      None \<Rightarrow> ([], [], [])
                    | Some info \<Rightarrow>
                        if Address info = [] then ([], [], [])
                        else (TargetModel req, Address info, nn_String (NamespacedName info)))))"

text \<open>
  What \<open>validateAndExtractPreRequestInfo\<close> writes to the log of the scheduling result: a loop over the map of
  profiles, in the order \<open>ord\<close>, and over the pods of each. Every pointer in it may be nil.
\<close>

datatype profile_log =
  ProfileNil string
| ProfilePods string nat
| LogPodNil string nat
| LogPodNoInfo string nat
| LogPod string nat string string

fun log_pods :: "string \<Rightarrow> nat \<Rightarrow> sched_pod option list \<Rightarrow> profile_log list" where
  "log_pods name i [] = []"
| "log_pods name i (pod # pods) =
     (case pod of
        None \<Rightarrow> LogPodNil name i
      | Some p \<Rightarrow>
          (case GetPod p of
             None \<Rightarrow> LogPodNoInfo name i
           | Some info \<Rightarrow> LogPod name i (nn_String (NamespacedName info)) (Address info)))
     # log_pods name (Suc i) pods"

definition logProfileResults :: "(string set \<Rightarrow> string list) \<Rightarrow> scheduling_result \<Rightarrow> profile_log list" where
  "logProfileResults ord schedulingResult =
     (case ProfileResults schedulingResult of
        None \<Rightarrow> []
      | Some profiles \<Rightarrow>
          concat (map (\<lambda>name.
             case profiles name of
               Some (Some result) \<Rightarrow>
                 ProfilePods name (length (TargetPods result)) # log_pods name 0 (TargetPods result)
             | _ \<Rightarrow> [ProfileNil name])
            (ord (dom profiles))))"

subsection \<open>Asking and telling the model server\<close>

text \<open>The first entry with the model's name decides.\<close>

fun find_model :: "string \<Rightarrow> model_entry list \<Rightarrow> bool" where
  "find_model model [] = False"
| "find_model model (e # es) = (if ID e = model then live_status (StatusValue e) else find_model model es)"

definition isModelLoaded ::
  "(string \<Rightarrow> model_entry list option) \<Rightarrow> transport \<Rightarrow> loader_config \<Rightarrow> string \<Rightarrow> string \<Rightarrow> bool" where
  "isModelLoaded decode net cfg ip model =
     (let url = http_url ip (ModelServerPort cfg) (ModelQueryEndpoint cfg)
      in if \<not> urlOk net url then False
         else case doReq net (GET url) of
           Inl e \<Rightarrow> False
         | Inr resp \<Rightarrow>
             (case Body resp of
                None \<Rightarrow> False
              | Some body \<Rightarrow>
                  if StatusCode resp \<noteq> StatusOK then False
                  else case decode body of None \<Rightarrow> False | Some es \<Rightarrow> find_model model es))"

text \<open>
  The wait for a load: a first check, then one at each tick until the context is done. The list
  holds the events the \<open>select\<close> receives, each tick with the network as it is then; \<open>None\<close> says
  that the wait is still on after those events.
\<close>

datatype wait_event = WaitTick transport | WaitCtxDone

text \<open>
  \<open>context.WithTimeout\<close>: the new deadline is never after that of the parent. \<open>parent = None\<close> is a parent without
  a deadline. A query ends after five seconds at the latest, the wait with the timeout of a load.
\<close>

definition with_timeout :: "gotime option \<Rightarrow> gotime \<Rightarrow> int \<Rightarrow> gotime" where
  "with_timeout parent now d = (case parent of None \<Rightarrow> now + d | Some p \<Rightarrow> min p (now + d))"

definition query_deadline :: "gotime option \<Rightarrow> gotime \<Rightarrow> gotime" where
  "query_deadline parent now = with_timeout parent now defaultModelQueryTimeout"

definition wait_deadline :: "loader_config \<Rightarrow> gotime option \<Rightarrow> gotime \<Rightarrow> gotime" where
  "wait_deadline cfg parent now = with_timeout parent now (sint (load_timeout cfg))"

fun wait_loop ::
  "(string \<Rightarrow> model_entry list option) \<Rightarrow> loader_config \<Rightarrow> string \<Rightarrow> string \<Rightarrow> wait_event list \<Rightarrow>
   load_error option option" where
  "wait_loop decode cfg ip model [] = None"
| "wait_loop decode cfg ip model (WaitCtxDone # es) = Some (Some (WaitLoaded model ip))"
| "wait_loop decode cfg ip model (WaitTick net # es) =
     (if isModelLoaded decode net cfg ip model then Some None else wait_loop decode cfg ip model es)"

definition waitForModelLoaded ::
  "(string \<Rightarrow> model_entry list option) \<Rightarrow> transport \<Rightarrow> loader_config \<Rightarrow> string \<Rightarrow> string \<Rightarrow>
   wait_event list \<Rightarrow> load_error option option" where
  "waitForModelLoaded decode net cfg ip model es =
     (if isModelLoaded decode net cfg ip model then Some None
      else wait_loop decode cfg ip model es)"

text \<open>The primary's part of \<open>loadModel\<close> between its two critical sections.\<close>

record load_env =
  envQuery :: transport
  envLoad :: transport
  envFirst :: transport
  envEvents :: "wait_event list"
  envNow :: gotime

definition requestLoad :: "transport \<Rightarrow> loader_config \<Rightarrow> string \<Rightarrow> string \<Rightarrow> load_error option" where
  "requestLoad net cfg ip model =
     (let url = http_url ip (ModelServerPort cfg) (ModelLoadEndpoint cfg)
      in if \<not> urlOk net url then Some (CreateRequest url)
         else case doReq net (POST url (ModelRequest model)) of
           Inl e \<Rightarrow> Some (RequestFailed e)
         | Inr resp \<Rightarrow>
             if StatusCode resp \<noteq> StatusOK \<and> StatusCode resp \<noteq> StatusCreated \<and>
                StatusCode resp \<noteq> StatusAccepted
             then Some (ModelLoadFailed (StatusCode resp) (case Body resp of None \<Rightarrow> [] | Some b \<Rightarrow> b))
             else None)"

definition primaryLoad ::
  "(string \<Rightarrow> model_entry list option) \<Rightarrow> load_env \<Rightarrow> loader_config \<Rightarrow> string \<Rightarrow> string \<Rightarrow>
   load_error option option" where
  "primaryLoad decode env cfg ip model =
     (case requestLoad (envLoad env) cfg ip model of
        Some e \<Rightarrow> Some (Some e)
      | None \<Rightarrow> waitForModelLoaded decode (envFirst env) cfg ip model (envEvents env))"

subsection \<open>The critical sections\<close>

datatype lookup = Loaded | Loading nat | Cold

definition lookup_key :: "string \<Rightarrow> loader \<Rightarrow> lookup" where
  "lookup_key key p =
     (if loadedModels p key \<noteq> None then Loaded
      else case loadingModels p key of Some r \<Rightarrow> Loading r | None \<Rightarrow> Cold)"

text \<open>The first critical section of \<open>loadModel\<close>: join the load in flight, or start one.\<close>

definition beginLoad :: "string \<Rightarrow> loader \<Rightarrow> nat option \<times> loader" where
  "beginLoad key p =
     (case loadingModels p key of
        Some r \<Rightarrow> (Some r, p)
      | None \<Rightarrow>
          (None, p\<lparr>results := (results p)(nextResult p := \<lparr>lrDone = False, lrErr = None\<rparr>),
                   loadingModels := (loadingModels p)(key \<mapsto> nextResult p),
                   nextResult := Suc (nextResult p)\<rparr>))"

text \<open>The deferred section: forget the load, store its outcome and wake every waiter.\<close>

definition finishLoad :: "string \<Rightarrow> nat \<Rightarrow> load_error option \<Rightarrow> loader \<Rightarrow> loader" where
  "finishLoad key r err p =
     p\<lparr>loadingModels := (loadingModels p)(key := None),
       results := (results p)(r := \<lparr>lrDone = True, lrErr = err\<rparr>)\<rparr>"

text \<open>How a wait for another request's load ends: it was published, or the context was cancelled.\<close>

datatype wait_outcome = Published "load_error option" | Cancelled

definition handleAlreadyLoadedOrLoading ::
  "(nat \<Rightarrow> wait_outcome) \<Rightarrow> string \<Rightarrow> string \<Rightarrow> string \<Rightarrow> world \<Rightarrow> bool \<times> world" where
  "handleAlreadyLoadedOrLoading await key model ip w =
     (case lookup_key key (fst w) of
        Loaded \<Rightarrow> (True, markTrackerLoaded ip model w)
      | Loading r \<Rightarrow>
          (case await r of
             Published (Some e) \<Rightarrow> (False, w)
           | Published None \<Rightarrow> (True, w)
           | Cancelled \<Rightarrow> (True, w))
      | Cold \<Rightarrow> (False, w))"

definition loadModel ::
  "(string \<Rightarrow> model_entry list option) \<Rightarrow> (nat \<Rightarrow> wait_outcome) \<Rightarrow> load_env \<Rightarrow> string \<Rightarrow> string \<Rightarrow>
   loader \<Rightarrow> (load_error option \<times> loader) option" where
  "loadModel decode await env ip model p =
     (let key = loadKey ip model
      in case beginLoad key p of
           (Some r, p') \<Rightarrow>
             (case await r of
                Published (Some e) \<Rightarrow> Some (Some (ConcurrentLoadFailed e), p')
              | Published None \<Rightarrow> Some (None, p')
              | Cancelled \<Rightarrow> Some (Some ContextCancelled, p'))
         | (None, p') \<Rightarrow>
             (case primaryLoad decode env (ldConfig p) ip model of
                None \<Rightarrow> None
              | Some err \<Rightarrow>
                  Some (err, finishLoad key (nextResult p) err
                    (if err = None then cache_loaded (envNow env) key p' else p'))))"

subsection \<open>PreRequest\<close>

definition PreRequest ::
  "(string \<Rightarrow> model_entry list option) \<Rightarrow> (nat \<Rightarrow> wait_outcome) \<Rightarrow> load_env \<Rightarrow>
   llm_request option \<Rightarrow> scheduling_result option \<Rightarrow> world \<Rightarrow> world option" where
  "PreRequest decode await env request schedulingResult w =
     (case validateAndExtractPreRequestInfo request schedulingResult of
        (model, ip, podKey) \<Rightarrow>
          if model = [] \<or> ip = [] then Some w
          else
            (let key = loadKey ip model
             in case handleAlreadyLoadedOrLoading await key model ip w of
                  (True, w') \<Rightarrow> Some w'
                | (False, w') \<Rightarrow>
                    if isModelLoaded decode (envQuery env) (ldConfig (fst w')) ip model
                    then Some (markTrackerLoaded ip model (cache_loaded (envNow env) key (fst w'), snd w'))
                    else
                      (let w1 = markTrackerLoaded ip model w'
                       in case loadModel decode await env ip model (fst w1) of
                            None \<Rightarrow> None
                          | Some (None, p) \<Rightarrow> Some (p, snd w1)
                          | Some (Some e, p) \<Rightarrow> Some (markTrackerUnloaded ip model (p, snd w1)))))"

end
