(* ===== verification/Loader_Correct.thy ===== *)
theory Loader_Correct
  imports Model_Loader
begin

section \<open>Correctness of the model loader\<close>

text \<open>
  What one request does to the loader's maps and to the tracker, on every path; the keys of the
  loader's maps; and the end of the wait for a load.
\<close>

subsection \<open>The maps after each critical section\<close>

lemma loadModel_alone:
  assumes "loadingModels p (loadKey ip model) = None"
  shows "loadModel decode await env ip model p =
    (case primaryLoad decode env (ldConfig p) ip model of
       None \<Rightarrow> None
     | Some err \<Rightarrow>
         Some (err, p\<lparr>results := (results p)(nextResult p := \<lparr>lrDone = True, lrErr = err\<rparr>),
           nextResult := Suc (nextResult p),
           loadedModels := (if err = None then (loadedModels p)(loadKey ip model \<mapsto> envNow env)
             else loadedModels p)\<rparr>))"
  using assms
  by (auto simp: loadModel_def beginLoad_def finishLoad_def cache_loaded_def fun_upd_idem
      split: option.split)

text \<open>The world after a retraction: the tracker forgets the pair and so does the loader's cache.\<close>

lemma markTrackerUnloaded_some:
  assumes "ip \<noteq> []"
  shows "\<exists>p'. markTrackerUnloaded ip model (p, Some t) = (p', Some (fst (MarkUnloaded ip model t))) \<and>
    loadingModels p' = loadingModels p \<and> results p' = results p \<and> loadedModels p' \<subseteq>\<^sub>m loadedModels p"
  using assms
  by (auto simp: markTrackerUnloaded_def InvalidateLoadedModel_def map_le_def split: prod.splits option.splits)

lemma markTrackerLoaded_some:
  "ip \<noteq> [] \<Longrightarrow> markTrackerLoaded ip model (p, Some t) = (p, Some (MarkLoaded ip model t))"
  by (simp add: markTrackerLoaded_def)

lemma validate_nonempty:
  assumes "validateAndExtractPreRequestInfo request result = (model, ip, podKey)"
  shows "(model = [] \<longleftrightarrow> ip = []) \<and> (model \<noteq> [] \<longrightarrow>
    (\<exists>req. request = Some req \<and> TargetModel req = model))"
  using assms
  by (auto simp: validateAndExtractPreRequestInfo_def split: option.splits if_splits)

text \<open>What a request with a target does when no load for its key is in flight.\<close>

lemma PreRequest_target:
  assumes "validateAndExtractPreRequestInfo request result = (model, ip, podKey)"
    and "model \<noteq> []" and "ip \<noteq> []" and "loadingModels p (loadKey ip model) = None"
  shows "PreRequest decode await env request result (p, Some t) =
    (if loadedModels p (loadKey ip model) \<noteq> None then Some (p, Some (MarkLoaded ip model t))
     else if isModelLoaded decode (envQuery env) (ldConfig p) ip model
     then Some (cache_loaded (envNow env) (loadKey ip model) p, Some (MarkLoaded ip model t))
     else case loadModel decode await env ip model p of
       None \<Rightarrow> None
     | Some (None, p') \<Rightarrow> Some (p', Some (MarkLoaded ip model t))
     | Some (Some e, p') \<Rightarrow> Some (markTrackerUnloaded ip model (p', Some (MarkLoaded ip model t))))"
  using assms
  by (auto simp: PreRequest_def handleAlreadyLoadedOrLoading_def lookup_key_def Let_def
      markTrackerLoaded_def split: option.split)

lemma cold_outcome:
  assumes "validateAndExtractPreRequestInfo request result = (model, ip, podKey)"
    and "model \<noteq> []" and "wf_tracker t"
    and "lookup_key (loadKey ip model) p = Cold"
    and "\<not> isModelLoaded decode (envQuery env) (ldConfig p) ip model"
  shows "case primaryLoad decode env (ldConfig p) ip model of
      None \<Rightarrow> PreRequest decode await env request result (p, Some t) = None
    | Some err \<Rightarrow>
        (\<exists>p' t'. PreRequest decode await env request result (p, Some t) = Some (p', Some t') \<and>
           wf_tracker t' \<and> loadingModels p' = loadingModels p \<and>
           results p' (nextResult p) = \<lparr>lrDone = True, lrErr = err\<rparr> \<and>
           loadedModels p' (loadKey ip model) = (if err = None then Some (envNow env) else None) \<and>
           (IsLoaded t' ip model \<longleftrightarrow> err = None) \<and>
           (\<forall>q n. (q, n) \<noteq> (ip, model) \<longrightarrow> IsLoaded t' q n = IsLoaded t q n))"
proof -
  have ip: "ip \<noteq> []" using validate_nonempty [OF assms(1)] assms(2) by simp
  have cold: "loadingModels p (loadKey ip model) = None" "loadedModels p (loadKey ip model) = None"
    using assms(4) by (auto simp: lookup_key_def split: if_splits option.splits)
  note pr = PreRequest_target [OF assms(1,2) ip cold(1), of decode await env t]
  note wf = wf_MarkLoaded [OF assms(3), of ip model]
  note marked = warm.loaded_mark [OF assms(3), of ip model]
  note gone = warm.mark_then_unmark [OF assms(3) ip assms(2)]
  note run = loadModel_alone [OF cold(1), of decode await env]
  show ?thesis
  proof (cases "primaryLoad decode env (ldConfig p) ip model")
    case None
    then show ?thesis using pr cold assms(5) run by simp
  next
    case (Some err)
    show ?thesis
    proof (cases err)
      case None
      then show ?thesis using Some pr cold assms(2,5) run wf marked ip by auto
    next
      case (Some e)
      define q where "q = p\<lparr>results := (results p)(nextResult p := \<lparr>lrDone = True, lrErr = err\<rparr>),
        nextResult := Suc (nextResult p)\<rparr>"
      have "loadModel decode await env ip model p = Some (Some e, q)"
        using run \<open>primaryLoad decode env (ldConfig p) ip model = Some err\<close> Some by (simp add: q_def)
      moreover obtain p' where p': "markTrackerUnloaded ip model (q, Some (MarkLoaded ip model t)) =
          (p', Some (fst (MarkUnloaded ip model (MarkLoaded ip model t))))"
          "loadingModels p' = loadingModels q" "results p' = results q" "loadedModels p' \<subseteq>\<^sub>m loadedModels q"
        using markTrackerUnloaded_some [OF ip] by blast
      moreover have "loadedModels p' (loadKey ip model) = None"
        using p'(4) cold(2) by (auto simp: map_le_def dom_def q_def)
      ultimately show ?thesis
        using pr cold assms(5) gone wf_MarkUnloaded [OF wf] Some
          \<open>primaryLoad decode env (ldConfig p) ip model = Some err\<close>
        by (simp add: q_def)
    qed
  qed
qed

subsection \<open>A concrete loader\<close>

definition demo_world_tracker :: tracker where
  "demo_world_tracker = SetUnloadObserver True (NewTracker
     \<lparr>oNamespace = [], oPodSelector = Map.empty, oPodPort = 0, oQueryPath = [], oUnloadPath = [],
      oPollInterval = 0, oPollTimeout = 0, oPressure = False, oDedupGracePolls = 0\<rparr>)"

definition demo_request :: llm_request where
  "demo_request = \<lparr>TargetModel = ''llama''\<rparr>"

definition demo_schedule :: scheduling_result where
  "demo_schedule =
     \<lparr>PrimaryProfileName = ''default'',
      ProfileResults = Some [''default'' \<mapsto> Some \<lparr>TargetPods = [Some
        \<lparr>GetPod = Some \<lparr>NamespacedName = \<lparr>NnNamespace = ''ns'', NnName = ''llama-0-rank-0''\<rparr>, Address = ''10.0.0.1''\<rparr>,
         GetMetrics = None\<rparr>]\<rparr>]\<rparr>"

definition dead_net :: transport where
  "dead_net = \<lparr>urlOk = (\<lambda>u. True), doReq = (\<lambda>r. Inl ''connection refused'')\<rparr>"

text \<open>A server that accepts the load and answers each query with the body it is given.\<close>

definition live_net :: "string \<Rightarrow> transport" where
  "live_net body =
     \<lparr>urlOk = (\<lambda>u. True), doReq = (\<lambda>r. Inr \<lparr>StatusCode = StatusOK, Body = Some body\<rparr>)\<rparr>"

definition demo_decode :: "string \<Rightarrow> model_entry list option" where
  "demo_decode body = Some [\<lparr>ID = ''qwen'', StatusValue = ''unloaded''\<rparr>, \<lparr>ID = ''llama'', StatusValue = body\<rparr>]"

lemma demo_checks:
  "isModelLoaded demo_decode (live_net body) cfg ip ''llama'' = live_status body"
  "isModelLoaded demo_decode dead_net cfg ip ''llama'' = False"
  "requestLoad (live_net body) cfg ip model = None"
  "requestLoad dead_net cfg ip model = Some (RequestFailed ''connection refused'')"
  by (simp_all add: isModelLoaded_def live_net_def dead_net_def demo_decode_def requestLoad_def)

lemma demo_validate:
  "validateAndExtractPreRequestInfo (Some demo_request) (Some demo_schedule) =
    (''llama'', ''10.0.0.1'', ''ns/llama-0-rank-0'')"
  by (simp add: validateAndExtractPreRequestInfo_def getTargetPod_def demo_request_def demo_schedule_def nn_String_def)

lemma demo_world: "wf_tracker demo_world_tracker" "\<not> IsLoaded demo_world_tracker q n"
  unfolding demo_world_tracker_def
  by (simp add: wf_tracker_ops) (simp add: IsLoaded_def SetUnloadObserver_def NewTracker_def)

subsection \<open>Properties of the loader\<close>

text \<open>C18: the whole of a request that finds neither its model in the cache nor a load in flight. If the
  server has the model it is cached and marked. Otherwise the model is marked while the load runs; a
  load that succeeds leaves it cached and marked, a load that fails leaves it neither cached nor
  marked, whatever the tracker knew of it, and publishes the error. Other pods and models keep their
  marks, no load is left in flight, and the request returns exactly when the load does.\<close>

theorem prerequest_cold:
  assumes "validateAndExtractPreRequestInfo request result = (model, ip, podKey)"
    and "model \<noteq> []" and "wf_tracker t"
    and "lookup_key (loadKey ip model) p = Cold"
    and "\<not> isModelLoaded decode (envQuery env) (ldConfig p) ip model"
  shows "case primaryLoad decode env (ldConfig p) ip model of
      None \<Rightarrow> PreRequest decode await env request result (p, Some t) = None
    | Some err \<Rightarrow>
        (\<exists>p' t'. PreRequest decode await env request result (p, Some t) = Some (p', Some t') \<and>
           wf_tracker t' \<and> loadingModels p' = loadingModels p \<and>
           results p' (nextResult p) = \<lparr>lrDone = True, lrErr = err\<rparr> \<and>
           loadedModels p' (loadKey ip model) = (if err = None then Some (envNow env) else None) \<and>
           (IsLoaded t' ip model \<longleftrightarrow> err = None) \<and>
           (\<forall>q n. (q, n) \<noteq> (ip, model) \<longrightarrow> IsLoaded t' q n = IsLoaded t q n))"
  using assms by (rule cold_outcome)

definition demo_env :: load_env where
  "demo_env =
     \<lparr>envQuery = live_net ''unloaded'', envLoad = live_net [], envFirst = live_net ''loading'',
      envEvents = [WaitTick (live_net ''loading''), WaitTick (live_net ''loaded'')], envNow = 7\<rparr>"

lemma demo_primary: "primaryLoad demo_decode demo_env cfg ''10.0.0.1'' ''llama'' = Some None"
  by (simp add: primaryLoad_def demo_env_def waitForModelLoaded_def demo_checks live_status_def)

lemma demo_not_loaded: "\<not> isModelLoaded demo_decode (envQuery demo_env) cfg ''10.0.0.1'' ''llama''"
  by (simp add: demo_env_def demo_checks live_status_def)

theorem prerequest_cold_witness:
  "\<exists>p' t'. PreRequest demo_decode (\<lambda>r. Cancelled) demo_env (Some demo_request) (Some demo_schedule)
      (NewPlugin ''loader'' DefaultConfig, Some demo_world_tracker) = Some (p', Some t') \<and>
    IsLoaded t' ''10.0.0.1'' ''llama'' \<and> loadedModels p' (loadKey ''10.0.0.1'' ''llama'') = Some 7"
proof -
  have "lookup_key k (NewPlugin ''loader'' DefaultConfig) = Cold" for k
    by (simp add: lookup_key_def NewPlugin_def)
  with demo_primary demo_not_loaded show ?thesis
    using prerequest_cold [OF demo_validate _ demo_world(1), of "NewPlugin ''loader'' DefaultConfig"
        demo_decode demo_env "\<lambda>r. Cancelled"]
    by (fastforce simp: demo_env_def)
qed

text \<open>The two caches agree. When a request with a target returns, and no other request was loading
  its model, the tracker shows the model on the pod exactly when the loader's cache has it: the
  filter's next decision and the loader's next short cut rest on the same fact.\<close>

theorem prerequest_caches_agree:
  assumes "validateAndExtractPreRequestInfo request result = (model, ip, podKey)"
    and "model \<noteq> []" and "wf_tracker t" and "loadingModels p (loadKey ip model) = None"
    and "PreRequest decode await env request result (p, Some t) = Some (p', Some t')"
  shows "IsLoaded t' ip model \<longleftrightarrow> loadedModels p' (loadKey ip model) \<noteq> None"
proof -
  have ip: "ip \<noteq> []" using validate_nonempty [OF assms(1)] assms(2) by simp
  note pr = PreRequest_target [OF assms(1,2) ip assms(4), of decode await env t]
  note marked = warm.loaded_mark [OF assms(3), of ip model]
  consider (warm) "loadedModels p (loadKey ip model) \<noteq> None"
    | (server) "loadedModels p (loadKey ip model) = None"
        "isModelLoaded decode (envQuery env) (ldConfig p) ip model"
    | (cold) "lookup_key (loadKey ip model) p = Cold"
        "\<not> isModelLoaded decode (envQuery env) (ldConfig p) ip model"
    using assms(4) by (cases "loadedModels p (loadKey ip model) = None") (auto simp: lookup_key_def)
  then show ?thesis
  proof cases
    case warm
    then show ?thesis using pr assms(2,5) marked ip by auto
  next
    case server
    then show ?thesis using pr assms(2,5) marked ip by (auto simp: cache_loaded_def)
  next
    case cold
    show ?thesis
      using cold_outcome [OF assms(1-3) cold, of await] assms(5) by (auto split: option.splits)
  qed
qed

theorem prerequest_caches_agree_witness:
  "\<exists>p' t'. PreRequest demo_decode (\<lambda>r. Cancelled) demo_env (Some demo_request) (Some demo_schedule)
      (NewPlugin ''loader'' DefaultConfig, Some demo_world_tracker) = Some (p', Some t') \<and>
    IsLoaded t' ''10.0.0.1'' ''llama'' = (loadedModels p' (loadKey ''10.0.0.1'' ''llama'') \<noteq> None)"
proof -
  have new: "loadingModels (NewPlugin ''loader'' DefaultConfig) k = None"
    "lookup_key k (NewPlugin ''loader'' DefaultConfig) = Cold" for k
    by (simp_all add: lookup_key_def NewPlugin_def)
  obtain p' t' where "PreRequest demo_decode (\<lambda>r. Cancelled) demo_env (Some demo_request) (Some demo_schedule)
      (NewPlugin ''loader'' DefaultConfig, Some demo_world_tracker) = Some (p', Some t')"
    using cold_outcome [OF demo_validate _ demo_world(1) new(2) demo_not_loaded, of "\<lambda>r. Cancelled"] demo_primary
    by fastforce
  with prerequest_caches_agree [OF demo_validate _ demo_world(1) new(1) this] show ?thesis by blast
qed

text \<open>The networks of the ticks that the wait receives before its context is done.\<close>

fun ticks_before_done :: "wait_event list \<Rightarrow> transport list" where
  "ticks_before_done [] = []"
| "ticks_before_done (WaitTick net # es) = net # ticks_before_done es"
| "ticks_before_done (WaitCtxDone # es) = []"

lemma wait_loop_result:
  "wait_loop decode cfg ip model es =
    (if \<exists>net \<in> set (ticks_before_done es). isModelLoaded decode net cfg ip model then Some None
     else if WaitCtxDone \<in> set es then Some (Some (WaitLoaded model ip)) else None)"
proof (induction es)
  case (Cons e es)
  then show ?case by (cases e) auto
qed simp

text \<open>The wait for a load always ends once its context does, and it succeeds exactly when some
  check made before that, the first one or one at a tick, finds the model live on the server.\<close>

theorem wait_ends_with_context:
  "waitForModelLoaded decode net cfg ip model es =
    (if \<exists>n \<in> set (net # ticks_before_done es). isModelLoaded decode n cfg ip model then Some None
     else if WaitCtxDone \<in> set es then Some (Some (WaitLoaded model ip)) else None)"
  by (simp add: waitForModelLoaded_def wait_loop_result)

theorem wait_ends_with_context_witness:
  "waitForModelLoaded demo_decode dead_net DefaultConfig ''10.0.0.1'' ''llama''
     [WaitTick (live_net ''loading''), WaitCtxDone, WaitTick (live_net ''loaded'')] =
   Some (Some (WaitLoaded ''llama'' ''10.0.0.1''))"
  by (simp add: wait_ends_with_context demo_checks live_status_def)

text \<open>
  The wait ends with the context of the request at the latest, whatever the configured timeout; within the
  range of a duration it ends after the configured seconds. One second more than fits wraps to a
  negative duration, and the wait is over before it starts.
\<close>

lemma wait_deadline_parent: "wait_deadline cfg (Some p) now \<le> p"
  by (simp add: wait_deadline_def with_timeout_def)

lemma wait_deadline_seconds:
  assumes "0 \<le> ModelLoadTimeoutSeconds cfg" and "ModelLoadTimeoutSeconds cfg \<le> 9223372036"
  shows "wait_deadline cfg None now = now + ModelLoadTimeoutSeconds cfg * 1000000000"
proof -
  have "load_timeout cfg = word_of_int (ModelLoadTimeoutSeconds cfg * 1000000000)"
    by (simp add: load_timeout_def)
  then have "sint (load_timeout cfg) = ModelLoadTimeoutSeconds cfg * 1000000000"
    using assms sint64_of_int [of "ModelLoadTimeoutSeconds cfg * 1000000000"] by simp
  then show ?thesis by (simp add: wait_deadline_def with_timeout_def)
qed

lemma wait_deadline_wraps:
  "ModelLoadTimeoutSeconds cfg = 9223372037 \<Longrightarrow> wait_deadline cfg None now < now"
  by (simp add: wait_deadline_def with_timeout_def load_timeout_def)

lemma default_wait: "wait_deadline DefaultConfig None now = now + defaultModelLoadTimeout"
  by (subst wait_deadline_seconds) (simp_all add: DefaultConfig_def defaultModelLoadTimeout_def)

text \<open>The log names every pod with information that the result lists.\<close>

lemma log_pods_nth:
  "j < length pods \<Longrightarrow> pods ! j = Some p \<Longrightarrow> GetPod p = Some info \<Longrightarrow>
   LogPod name (i + j) (nn_String (NamespacedName info)) (Address info) \<in> set (log_pods name i pods)"
proof (induction pods arbitrary: i j)
  case (Cons q pods)
  then show ?case using Cons.IH [of "j - 1" "Suc i"] by (cases j) auto
qed simp

text \<open>What the tracker's unload notice does to the loader's cache. With pod IPs free of colons the
  notice makes exactly the unloaded pair cold again, so the next request for it asks the server
  instead of taking the short cut, and no other pair is touched.\<close>

theorem invalidate_exact:
  assumes "ip \<noteq> []" and "model \<noteq> []" and "CHR '':'' \<notin> set ip" and "CHR '':'' \<notin> set ip'"
  shows "lookup_key (loadKey ip model) (InvalidateLoadedModel ip model p) \<noteq> Loaded \<and>
    ((ip', model') \<noteq> (ip, model) \<longrightarrow>
      lookup_key (loadKey ip' model') (InvalidateLoadedModel ip model p) = lookup_key (loadKey ip' model') p)"
proof -
  have "loadKey ip' model' = loadKey ip model \<Longrightarrow> (ip', model') = (ip, model)"
    using split_at_sep [OF assms(4,3), of model' model] by (simp add: loadKey_def)
  then show ?thesis
    using assms(1,2) by (auto simp: lookup_key_def InvalidateLoadedModel_def split: option.split)
qed

theorem invalidate_exact_witness:
  "lookup_key (loadKey ''10.0.0.1'' ''llama'')
     (InvalidateLoadedModel ''10.0.0.1'' ''llama''
       (cache_loaded 3 (loadKey ''10.0.0.1'' ''llama'') (NewPlugin ''loader'' DefaultConfig))) \<noteq> Loaded"
  using invalidate_exact [where ip = "''10.0.0.1''" and model = "''llama''" and ip' = "''10.0.0.1''"
      and p = "cache_loaded 3 (loadKey ''10.0.0.1'' ''llama'') (NewPlugin ''loader'' DefaultConfig)"]
  by simp

text \<open>With IPv6 addresses two different pairs can share a key: a model cached for one pod then
  makes a request for another model on another pod skip the load, and marks that pod warm in the
  tracker without asking it.\<close>

theorem ipv6_keys_collide:
  "(let p = cache_loaded 3 (loadKey ''fd00::1'' ''2:m'') (NewPlugin ''loader'' DefaultConfig);
        sched = \<lparr>PrimaryProfileName = ''default'',
          ProfileResults = Some [''default'' \<mapsto> Some \<lparr>TargetPods = [Some
            \<lparr>GetPod = Some \<lparr>NamespacedName = \<lparr>NnNamespace = ''ns'', NnName = ''b''\<rparr>, Address = ''fd00::1:2''\<rparr>, GetMetrics = None\<rparr>]\<rparr>]\<rparr>
    in PreRequest decode await env (Some \<lparr>TargetModel = ''m''\<rparr>) (Some sched) (p, Some t) =
       Some (p, Some (MarkLoaded ''fd00::1:2'' ''m'' t)))"
  by (simp add: PreRequest_def validateAndExtractPreRequestInfo_def getTargetPod_def Let_def loadKey_def
      handleAlreadyLoadedOrLoading_def lookup_key_def cache_loaded_def markTrackerLoaded_def)

end
