(* ===== verification/Loader_Machine.thy ===== *)
theory Loader_Machine
  imports Loader_Correct
begin

section \<open>Concurrent requests in the model loader\<close>

text \<open>
  Any number of \<open>PreRequest\<close> calls running at once. A call is a goroutine with a number; its program
  counter names the next atomic action: a critical section of the loader's mutex, a call into the
  tracker, an exchange with the model server, or a \<open>select\<close> on a load in flight. What the server
  answers and when a context is cancelled is up to the environment, which may also invalidate cache
  entries and change the tracker (the poller, the dedup pass) at any time. \<open>job\<close> gives each call's
  pod IP and model, the result of \<open>validateAndExtractPreRequestInfo\<close>.
\<close>

datatype pc =
  Lookup
| AwaitFirst nat
| Query
| CacheWarm
| MarkWarm
| MarkCold
| Begin
| AwaitLoad nat
| Load nat
| CacheLoaded nat
| Finish nat "load_error option"
| Retract
| Notify string string
| Returned

record mstate =
  mLoader :: loader
  mTracker :: tracker
  pcs :: "nat \<Rightarrow> pc"

definition goto :: "nat \<Rightarrow> pc \<Rightarrow> mstate \<Rightarrow> mstate" where
  "goto g c s = s\<lparr>pcs := (pcs s)(g := c)\<rparr>"

definition job_key :: "(nat \<Rightarrow> string \<times> string) \<Rightarrow> nat \<Rightarrow> string" where
  "job_key job g = loadKey (fst (job g)) (snd (job g))"

inductive mstep ::
  "(string \<Rightarrow> model_entry list option) \<Rightarrow> (nat \<Rightarrow> string \<times> string) \<Rightarrow> mstate \<Rightarrow> mstate \<Rightarrow> bool"
  for decode job where
  lookup_warm: "pcs s g = Lookup \<Longrightarrow> lookup_key (job_key job g) (mLoader s) = Loaded \<Longrightarrow>
    mstep decode job s (goto g MarkWarm s)"
| lookup_wait: "pcs s g = Lookup \<Longrightarrow> lookup_key (job_key job g) (mLoader s) = Loading r \<Longrightarrow>
    mstep decode job s (goto g (AwaitFirst r) s)"
| lookup_cold: "pcs s g = Lookup \<Longrightarrow> lookup_key (job_key job g) (mLoader s) = Cold \<Longrightarrow>
    mstep decode job s (goto g Query s)"
| await_first: "pcs s g = AwaitFirst r \<Longrightarrow> lrDone (results (mLoader s) r) \<Longrightarrow>
    mstep decode job s (goto g (if lrErr (results (mLoader s) r) = None then Returned else Query) s)"
| await_first_cancelled: "pcs s g = AwaitFirst r \<Longrightarrow> mstep decode job s (goto g Returned s)"
| query: "pcs s g = Query \<Longrightarrow>
    mstep decode job s (goto g (if isModelLoaded decode net (ldConfig (mLoader s)) (fst (job g)) (snd (job g))
      then CacheWarm else MarkCold) s)"
| cache_warm: "pcs s g = CacheWarm \<Longrightarrow>
    mstep decode job s (goto g MarkWarm (s\<lparr>mLoader := cache_loaded now (job_key job g) (mLoader s)\<rparr>))"
| mark_warm: "pcs s g = MarkWarm \<Longrightarrow>
    mstep decode job s (goto g Returned
      (s\<lparr>mTracker := MarkLoaded (fst (job g)) (snd (job g)) (mTracker s)\<rparr>))"
| mark_cold: "pcs s g = MarkCold \<Longrightarrow>
    mstep decode job s (goto g Begin
      (s\<lparr>mTracker := MarkLoaded (fst (job g)) (snd (job g)) (mTracker s)\<rparr>))"
| begin_join: "pcs s g = Begin \<Longrightarrow> beginLoad (job_key job g) (mLoader s) = (Some r, p) \<Longrightarrow>
    mstep decode job s (goto g (AwaitLoad r) (s\<lparr>mLoader := p\<rparr>))"
| begin_primary: "pcs s g = Begin \<Longrightarrow> beginLoad (job_key job g) (mLoader s) = (None, p) \<Longrightarrow>
    mstep decode job s (goto g (Load (nextResult (mLoader s))) (s\<lparr>mLoader := p\<rparr>))"
| await_load: "pcs s g = AwaitLoad r \<Longrightarrow> lrDone (results (mLoader s) r) \<Longrightarrow>
    mstep decode job s (goto g (if lrErr (results (mLoader s) r) = None then Returned else Retract) s)"
| await_load_cancelled: "pcs s g = AwaitLoad r \<Longrightarrow> mstep decode job s (goto g Retract s)"
| load_end: "pcs s g = Load r \<Longrightarrow>
    primaryLoad decode env (ldConfig (mLoader s)) (fst (job g)) (snd (job g)) = Some err \<Longrightarrow>
    mstep decode job s (goto g (if err = None then CacheLoaded r else Finish r err) s)"
| cache_load: "pcs s g = CacheLoaded r \<Longrightarrow>
    mstep decode job s (goto g (Finish r None) (s\<lparr>mLoader := cache_loaded now (job_key job g) (mLoader s)\<rparr>))"
| finish: "pcs s g = Finish r err \<Longrightarrow>
    mstep decode job s (goto g (if err = None then Returned else Retract)
      (s\<lparr>mLoader := finishLoad (job_key job g) r err (mLoader s)\<rparr>))"
| retract: "pcs s g = Retract \<Longrightarrow> MarkUnloaded (fst (job g)) (snd (job g)) (mTracker s) = (t, note) \<Longrightarrow>
    mstep decode job s (goto g (case note of None \<Rightarrow> Returned | Some (ip, m) \<Rightarrow> Notify ip m)
      (s\<lparr>mTracker := t\<rparr>))"
| notify: "pcs s g = Notify ip m \<Longrightarrow>
    mstep decode job s (goto g Returned (s\<lparr>mLoader := InvalidateLoadedModel ip m (mLoader s)\<rparr>))"
| env_tracker: "mstep decode job s (s\<lparr>mTracker := t\<rparr>)"
| env_invalidate: "mstep decode job s (s\<lparr>mLoader := InvalidateLoadedModel ip m (mLoader s)\<rparr>)"
| env_clear: "mstep decode job s (s\<lparr>mLoader := ClearLoadedModelsCache (mLoader s)\<rparr>)"

definition minit :: "string \<Rightarrow> loader_config \<Rightarrow> tracker \<Rightarrow> mstate" where
  "minit name cfg t = \<lparr>mLoader = NewPlugin name cfg, mTracker = t, pcs = (\<lambda>_. Lookup)\<rparr>"

inductive mreach ::
  "(string \<Rightarrow> model_entry list option) \<Rightarrow> (nat \<Rightarrow> string \<times> string) \<Rightarrow> mstate \<Rightarrow> bool"
  for decode job where
  init: "mreach decode job (minit name cfg t)"
| step: "mreach decode job s \<Longrightarrow> mstep decode job s s' \<Longrightarrow> mreach decode job s'"

lemma goto_simps [simp]:
  "mLoader (goto g c s) = mLoader s" "mTracker (goto g c s) = mTracker s"
  "pcs (goto g c s) = (pcs s)(g := c)"
  by (simp_all add: goto_def)

subsection \<open>The invariant\<close>

text \<open>A primary: the call that registered a load and will publish its result.\<close>

fun primary :: "pc \<Rightarrow> nat option" where
  "primary (Load r) = Some r"
| "primary (CacheLoaded r) = Some r"
| "primary (Finish r err) = Some r"
| "primary _ = None"

fun awaits :: "pc \<Rightarrow> nat option" where
  "awaits (AwaitFirst r) = Some r"
| "awaits (AwaitLoad r) = Some r"
| "awaits _ = None"

text \<open>
  A registered load has exactly one primary, which works for that key; its result is not published;
  keys do not share results; and a call waits only for a result that its key's primary will publish,
  or that is published.
\<close>

definition minv :: "(nat \<Rightarrow> string \<times> string) \<Rightarrow> mstate \<Rightarrow> bool" where
  "minv job s \<longleftrightarrow>
     (\<forall>g r. primary (pcs s g) = Some r \<longrightarrow> loadingModels (mLoader s) (job_key job g) = Some r) \<and>
     (\<forall>k r. loadingModels (mLoader s) k = Some r \<longrightarrow>
        r < nextResult (mLoader s) \<and> \<not> lrDone (results (mLoader s) r) \<and>
        (\<exists>g. primary (pcs s g) = Some r \<and> job_key job g = k)) \<and>
     (\<forall>g h r. primary (pcs s g) = Some r \<longrightarrow> primary (pcs s h) = Some r \<longrightarrow> g = h) \<and>
     (\<forall>g r. awaits (pcs s g) = Some r \<longrightarrow>
        lrDone (results (mLoader s) r) \<or> loadingModels (mLoader s) (job_key job g) = Some r) \<and>
     (\<forall>r. lrDone (results (mLoader s) r) \<longrightarrow> r < nextResult (mLoader s))"

lemma minvI:
  assumes "\<And>g r. primary (pcs s g) = Some r \<Longrightarrow> loadingModels (mLoader s) (job_key job g) = Some r"
    and "\<And>k r. loadingModels (mLoader s) k = Some r \<Longrightarrow>
        r < nextResult (mLoader s) \<and> \<not> lrDone (results (mLoader s) r)"
    and "\<And>k r. loadingModels (mLoader s) k = Some r \<Longrightarrow>
        \<exists>g. primary (pcs s g) = Some r \<and> job_key job g = k"
    and "\<And>g h r. primary (pcs s g) = Some r \<Longrightarrow> primary (pcs s h) = Some r \<Longrightarrow> g = h"
    and "\<And>g r. awaits (pcs s g) = Some r \<Longrightarrow>
        lrDone (results (mLoader s) r) \<or> loadingModels (mLoader s) (job_key job g) = Some r"
    and "\<And>r. lrDone (results (mLoader s) r) \<Longrightarrow> r < nextResult (mLoader s)"
  shows "minv job s"
  using assms unfolding minv_def by blast

lemma minvD:
  assumes "minv job s"
  shows minv_primary: "primary (pcs s g) = Some r \<Longrightarrow> loadingModels (mLoader s) (job_key job g) = Some r"
    and minv_result: "loadingModels (mLoader s) k = Some r \<Longrightarrow> r < nextResult (mLoader s)"
      "loadingModels (mLoader s) k = Some r \<Longrightarrow> \<not> lrDone (results (mLoader s) r)"
    and minv_loading: "loadingModels (mLoader s) k = Some r \<Longrightarrow>
        \<exists>g. primary (pcs s g) = Some r \<and> job_key job g = k"
    and minv_unique: "primary (pcs s g) = Some r \<Longrightarrow> primary (pcs s h) = Some r \<Longrightarrow> g = h"
    and minv_awaits: "awaits (pcs s g) = Some r \<Longrightarrow>
        lrDone (results (mLoader s) r) \<or> loadingModels (mLoader s) (job_key job g) = Some r"
    and minv_done: "lrDone (results (mLoader s) r) \<Longrightarrow> r < nextResult (mLoader s)"
  using assms unfolding minv_def by blast+

text \<open>A result belongs to one key.\<close>

lemma minv_key: "minv job s \<Longrightarrow> loadingModels (mLoader s) k = Some r \<Longrightarrow>
    loadingModels (mLoader s) k' = Some r \<Longrightarrow> k = k'"
  by (metis minv_loading minv_unique)

text \<open>Steps that touch neither the loads in flight nor a primary keep the invariant.\<close>

lemma minv_frame:
  assumes inv: "minv job s"
    and "loadingModels (mLoader s') = loadingModels (mLoader s)"
    and "results (mLoader s') = results (mLoader s)" and "nextResult (mLoader s') = nextResult (mLoader s)"
    and prim: "\<And>h. primary (pcs s' h) = primary (pcs s h)"
    and await: "\<And>h r. awaits (pcs s' h) = Some r \<Longrightarrow> awaits (pcs s h) = Some r \<or>
        loadingModels (mLoader s) (job_key job h) = Some r"
  shows "minv job s'"
proof (rule minvI)
  show "lrDone (results (mLoader s') r) \<or> loadingModels (mLoader s') (job_key job g) = Some r"
    if "awaits (pcs s' g) = Some r" for g r
    using await [OF that] minv_awaits [OF inv, of g r] assms(2,3) by auto
qed (use minvD [OF inv] assms(2-4) prim in auto)

lemma minv_begin:
  assumes inv: "minv job s" and "pcs s g = Begin"
    and none: "loadingModels (mLoader s) (job_key job g) = None"
  shows "minv job (goto g (Load (nextResult (mLoader s)))
    (s\<lparr>mLoader := (mLoader s)\<lparr>
        results := (results (mLoader s))(nextResult (mLoader s) := \<lparr>lrDone = False, lrErr = None\<rparr>),
        loadingModels := (loadingModels (mLoader s))(job_key job g \<mapsto> nextResult (mLoader s)),
        nextResult := Suc (nextResult (mLoader s))\<rparr>\<rparr>))" (is "minv job ?s")
proof -
  let ?n = "nextResult (mLoader s)"
  have fresh: "loadingModels (mLoader s) k \<noteq> Some ?n" for k using minv_result(1) [OF inv] by blast
  have fresh_p: "primary (pcs s h) \<noteq> Some ?n" for h using minv_primary [OF inv] fresh by blast
  have fresh_a: "awaits (pcs s h) \<noteq> Some ?n" for h
    using minv_awaits [OF inv] minv_done [OF inv] fresh by blast
  have own: "primary (pcs s h) = None" if "job_key job h = job_key job g" for h
    using minv_primary [OF inv, of h] that none by (cases "primary (pcs s h)") auto
  show ?thesis
  proof (rule minvI)
    show "loadingModels (mLoader ?s) (job_key job h) = Some r" if "primary (pcs ?s h) = Some r" for h r
      using that minv_primary [OF inv, of h r] own [of h] by (auto split: if_splits)
    show "r < nextResult (mLoader ?s) \<and> \<not> lrDone (results (mLoader ?s) r)"
      if "loadingModels (mLoader ?s) k = Some r" for k r
      using that minv_result [OF inv, of k r] by (auto split: if_splits)
    show "\<exists>h. primary (pcs ?s h) = Some r \<and> job_key job h = k" if "loadingModels (mLoader ?s) k = Some r" for k r
    proof (cases "k = job_key job g")
      case False
      then have "loadingModels (mLoader s) k = Some r" using that by simp
      then obtain h where "primary (pcs s h) = Some r" "job_key job h = k"
        using minv_loading [OF inv] by blast
      with False show ?thesis by (intro exI [of _ h]) auto
    qed (use that in auto)
    show "h = h'" if "primary (pcs ?s h) = Some r" "primary (pcs ?s h') = Some r" for h h' r
      using that minv_unique [OF inv, of h r h'] fresh_p by (auto split: if_splits)
    show "lrDone (results (mLoader ?s) r) \<or> loadingModels (mLoader ?s) (job_key job h) = Some r"
      if "awaits (pcs ?s h) = Some r" for h r
      using that minv_awaits [OF inv, of h r] fresh_a [of h] none by (auto split: if_splits)
    show "r < nextResult (mLoader ?s)" if "lrDone (results (mLoader ?s) r)" for r
      using that minv_done [OF inv, of r] by (auto split: if_splits)
  qed
qed

lemma minv_finish:
  assumes inv: "minv job s" and g: "pcs s g = Finish r err"
    and c: "primary c = None" "awaits c = None"
  shows "minv job (goto g c (s\<lparr>mLoader := finishLoad (job_key job g) r err (mLoader s)\<rparr>))"
    (is "minv job ?s")
proof -
  have mine: "loadingModels (mLoader s) (job_key job g) = Some r"
    using minv_primary [OF inv, of g r] g by simp
  have only: "primary (pcs s h) = Some r' \<Longrightarrow> h \<noteq> g \<Longrightarrow> r' \<noteq> r \<and> job_key job h \<noteq> job_key job g" for h r'
    using minv_unique [OF inv, of h r g] minv_primary [OF inv, of h r'] mine g by auto
  have key: "loadingModels (mLoader s) k = Some r \<Longrightarrow> k = job_key job g" for k
    using minv_key [OF inv] mine by blast
  show ?thesis
  proof (rule minvI)
    show "loadingModels (mLoader ?s) (job_key job h) = Some r'" if "primary (pcs ?s h) = Some r'" for h r'
      using that c(1) minv_primary [OF inv, of h r'] only [of h r']
      by (auto simp: finishLoad_def split: if_splits)
    show "r' < nextResult (mLoader ?s) \<and> \<not> lrDone (results (mLoader ?s) r')"
      if "loadingModels (mLoader ?s) k = Some r'" for k r'
      using that minv_result [OF inv, of k r'] key [of k] by (auto simp: finishLoad_def split: if_splits)
    show "\<exists>h. primary (pcs ?s h) = Some r' \<and> job_key job h = k"
      if "loadingModels (mLoader ?s) k = Some r'" for k r'
    proof -
      have k: "k \<noteq> job_key job g" "loadingModels (mLoader s) k = Some r'"
        using that by (auto simp: finishLoad_def split: if_splits)
      then obtain h where "primary (pcs s h) = Some r'" "job_key job h = k"
        using minv_loading [OF inv, of k r'] by blast
      with k show ?thesis by (intro exI [of _ h]) auto
    qed
    show "h = h'" if "primary (pcs ?s h) = Some r'" "primary (pcs ?s h') = Some r'" for h h' r'
      using that c(1) minv_unique [OF inv, of h r' h'] by (auto split: if_splits)
    show "lrDone (results (mLoader ?s) r') \<or> loadingModels (mLoader ?s) (job_key job h) = Some r'"
      if "awaits (pcs ?s h) = Some r'" for h r'
      using that c(2) minv_awaits [OF inv, of h r'] mine
      by (auto simp: finishLoad_def split: if_splits)
    show "r' < nextResult (mLoader ?s)" if "lrDone (results (mLoader ?s) r')" for r'
      using that minv_done [OF inv, of r'] minv_result(1) [OF inv mine]
      by (auto simp: finishLoad_def split: if_splits)
  qed
qed

lemma loader_frames [simp]:
  "loadingModels (cache_loaded now k p) = loadingModels p" "results (cache_loaded now k p) = results p"
  "nextResult (cache_loaded now k p) = nextResult p"
  "loadingModels (InvalidateLoadedModel ip m p) = loadingModels p"
  "results (InvalidateLoadedModel ip m p) = results p"
  "nextResult (InvalidateLoadedModel ip m p) = nextResult p"
  "loadingModels (ClearLoadedModelsCache p) = loadingModels p"
  "results (ClearLoadedModelsCache p) = results p" "nextResult (ClearLoadedModelsCache p) = nextResult p"
  by (simp_all add: cache_loaded_def InvalidateLoadedModel_def ClearLoadedModelsCache_def)

lemma lookup_key_Loading: "lookup_key k p = Loading r \<Longrightarrow> loadingModels p k = Some r"
  by (auto simp: lookup_key_def split: if_splits option.splits)

lemma beginLoad_cases:
  "beginLoad k p = (Some r, p') \<longleftrightarrow> loadingModels p k = Some r \<and> p' = p"
  "beginLoad k p = (None, p') \<longleftrightarrow> loadingModels p k = None \<and>
    p' = p\<lparr>results := (results p)(nextResult p := \<lparr>lrDone = False, lrErr = None\<rparr>),
           loadingModels := (loadingModels p)(k \<mapsto> nextResult p), nextResult := Suc (nextResult p)\<rparr>"
  by (auto simp: beginLoad_def split: option.splits)

lemma minv_init: "minv job (minit name cfg t)"
  by (rule minvI) (simp_all add: minit_def NewPlugin_def)

lemma minv_step: "mstep decode job s s' \<Longrightarrow> minv job s \<Longrightarrow> minv job s'"
proof (induction rule: mstep.induct)
  case (begin_primary s g p)
  then show ?case using minv_begin [of job s g] by (simp add: beginLoad_cases)
next
  case (finish s g r err)
  then show ?case by (intro minv_finish) simp_all
qed (erule minv_frame; auto simp: beginLoad_cases dest: lookup_key_Loading
    split: if_splits option.splits)+

lemma mreach_minv: "mreach decode job s \<Longrightarrow> minv job s"
  by (induction rule: mreach.induct) (auto intro: minv_init minv_step)

text \<open>A published result is never written again.\<close>

lemma published_stable:
  assumes "mstep decode job s s'" and "minv job s" and "lrDone (results (mLoader s) r)"
  shows "results (mLoader s') r = results (mLoader s) r"
  using assms
proof (induction rule: mstep.induct)
  case (begin_primary s g p)
  then show ?case using minv_done [OF begin_primary.prems(1), of r] by (auto simp: beginLoad_cases)
next
  case (finish s g r' err)
  have "loadingModels (mLoader s) (job_key job g) = Some r'"
    using minv_primary [OF finish.prems(1), of g r'] finish.hyps by simp
  then have "\<not> lrDone (results (mLoader s) r')" by (rule minv_result(2) [OF finish.prems(1)])
  then show ?case using finish.prems by (auto simp: finishLoad_def)
qed (auto simp: beginLoad_cases)

abbreviation msteps ::
  "(string \<Rightarrow> model_entry list option) \<Rightarrow> (nat \<Rightarrow> string \<times> string) \<Rightarrow> mstate \<Rightarrow> mstate \<Rightarrow> bool" where
  "msteps decode job \<equiv> (mstep decode job)\<^sup>*\<^sup>*"

lemma msteps_minv: "msteps decode job s s' \<Longrightarrow> minv job s \<Longrightarrow> minv job s'"
  by (induction rule: rtranclp_induct) (auto intro: minv_step)

lemma published_stable_steps:
  assumes "msteps decode job s s'" and "minv job s" and "lrDone (results (mLoader s) r)"
  shows "results (mLoader s') r = results (mLoader s) r"
  using assms
proof (induction rule: rtranclp_induct)
  case (step s1 s2)
  then show ?case using published_stable [OF step.hyps(2) msteps_minv [OF step.hyps(1)]] by simp
qed simp

text \<open>A primary can always finish: the server may refuse the request.\<close>

lemma primaryLoad_refused:
  "primaryLoad decode \<lparr>envQuery = dead_net, envLoad = dead_net, envFirst = dead_net, envEvents = [],
     envNow = 0\<rparr> cfg ip m = Some (Some (RequestFailed ''connection refused''))"
  by (simp add: primaryLoad_def demo_checks)

lemma finish_publishes:
  assumes "pcs s h = Finish r err" and "g \<noteq> h"
  shows "\<exists>s'. msteps decode job s s' \<and> lrDone (results (mLoader s') r) \<and> pcs s' g = pcs s g"
  by (rule exI, rule conjI, rule r_into_rtranclp, rule mstep.finish [OF assms(1)])
    (use assms(2) in \<open>simp add: finishLoad_def\<close>)

lemma step_then:
  assumes "mstep decode job s s1" and "pcs s1 g = pcs s g"
    and "\<exists>s'. msteps decode job s1 s' \<and> lrDone (results (mLoader s') r) \<and> pcs s' g = pcs s1 g"
  shows "\<exists>s'. msteps decode job s s' \<and> lrDone (results (mLoader s') r) \<and> pcs s' g = pcs s g"
  using assms by (metis converse_rtranclp_into_rtranclp)

lemma primary_publishes:
  assumes "primary (pcs s h) = Some r" and "g \<noteq> h"
  shows "\<exists>s'. msteps decode job s s' \<and> lrDone (results (mLoader s') r) \<and> pcs s' g = pcs s g"
proof (cases "pcs s h")
  case (Load r')
  with assms have r': "pcs s h = Load r" by simp
  note st = mstep.load_end [OF r' primaryLoad_refused, of decode job, simplified]
  have f: "pcs (goto h (Finish r e) s) h = Finish r e" for e by simp
  show ?thesis by (rule step_then [OF st _ finish_publishes [OF f assms(2)]]) (use assms(2) in simp)
next
  case (CacheLoaded r')
  with assms have r': "pcs s h = CacheLoaded r" by simp
  have f: "pcs (goto h (Finish r None) (s\<lparr>mLoader := p\<rparr>)) h = Finish r None" for p by simp
  show ?thesis
    by (rule step_then [OF mstep.cache_load [OF r'] _ finish_publishes [OF f assms(2)]])
      (use assms(2) in simp)
next
  case (Finish r' err)
  with assms show ?thesis by (auto intro!: finish_publishes)
qed (use assms in auto)

subsection \<open>A run in which a waiting request is cancelled\<close>

definition demo_job :: "nat \<Rightarrow> string \<times> string" where
  "demo_job g = (''10.0.0.1'', ''llama'')"

definition demo_start :: mstate where
  "demo_start = minit ''loader'' DefaultConfig demo_world_tracker"

lemma mstep_query_no: "pcs s g = Query \<Longrightarrow> mstep decode job s (goto g MarkCold s)"
proof -
  assume q: "pcs s g = Query"
  have "\<not> isModelLoaded decode dead_net cfg ip m" for cfg ip m
    by (simp add: isModelLoaded_def dead_net_def)
  then show ?thesis using mstep.query [OF q, of decode job dead_net] by simp
qed

text \<open>Two requests for the same pod and model pass the lookup; the first one registers the load.\<close>

definition demo_marked :: mstate where
  "demo_marked = demo_start\<lparr>pcs := (\<lambda>_. Lookup)(0 := Begin, 1 := Begin),
     mTracker := MarkLoaded ''10.0.0.1'' ''llama'' (MarkLoaded ''10.0.0.1'' ''llama'' demo_world_tracker)\<rparr>"

lemma demo_marked_reach: "mreach decode demo_job demo_marked"
proof -
  have cold: "pcs s g = Lookup \<Longrightarrow> mLoader s = mLoader demo_start \<Longrightarrow>
      mstep decode demo_job s (goto g Query s)" for s g
    by (rule mstep.lookup_cold) (simp_all add: lookup_key_def demo_start_def minit_def NewPlugin_def)
  have start: "mreach decode demo_job demo_start" unfolding demo_start_def by (rule mreach.init)
  define s1 where "s1 = goto 0 Query demo_start"
  define s2 where "s2 = goto 1 Query s1"
  define s3 where "s3 = goto 0 MarkCold s2"
  define s4 where "s4 = goto 1 MarkCold s3"
  define s5 where "s5 = goto 0 Begin (s4\<lparr>mTracker := MarkLoaded ''10.0.0.1'' ''llama'' (mTracker s4)\<rparr>)"
  define s6 where "s6 = goto 1 Begin (s5\<lparr>mTracker := MarkLoaded ''10.0.0.1'' ''llama'' (mTracker s5)\<rparr>)"
  note defs = s1_def s2_def s3_def s4_def s5_def s6_def
  have p0: "pcs demo_start = (\<lambda>_. Lookup)" by (simp add: demo_start_def minit_def)
  have "mreach decode demo_job s1"
    unfolding s1_def by (rule mreach.step [OF start cold]) (simp_all add: p0)
  then have "mreach decode demo_job s2"
    unfolding s2_def by (rule mreach.step [OF _ cold]) (simp_all add: p0 defs)
  then have "mreach decode demo_job s3"
    unfolding s3_def by (rule mreach.step [OF _ mstep_query_no]) (simp add: p0 defs)
  then have "mreach decode demo_job s4"
    unfolding s4_def by (rule mreach.step [OF _ mstep_query_no]) (simp add: p0 defs)
  then have "mreach decode demo_job s5"
    using mstep.mark_cold [of s4 0 decode demo_job]
    by (auto simp: s5_def demo_job_def p0 defs intro: mreach.step)
  then have "mreach decode demo_job s6"
    using mstep.mark_cold [of s5 1 decode demo_job]
    by (auto simp: s6_def demo_job_def p0 defs intro: mreach.step)
  moreover have "s6 = demo_marked"
    by (rule mstate.equality) (simp_all add: defs demo_marked_def goto_def p0 demo_start_def minit_def fun_eq_iff)
  ultimately show ?thesis by simp
qed

text \<open>Then the first request is loading and the second one waits for it.\<close>

definition demo_waiting :: mstate where
  "demo_waiting = goto 1 (AwaitLoad 0) (goto 0 (Load 0) (demo_marked\<lparr>mLoader :=
     snd (beginLoad (loadKey ''10.0.0.1'' ''llama'') (mLoader demo_marked))\<rparr>))"

lemma demo_begin:
  "mLoader demo_marked = NewPlugin ''loader'' DefaultConfig"
  "beginLoad (loadKey ''10.0.0.1'' ''llama'') (NewPlugin ''loader'' DefaultConfig) =
    (None, snd (beginLoad (loadKey ''10.0.0.1'' ''llama'') (NewPlugin ''loader'' DefaultConfig)))"
  "beginLoad (loadKey ''10.0.0.1'' ''llama'')
      (snd (beginLoad (loadKey ''10.0.0.1'' ''llama'') (NewPlugin ''loader'' DefaultConfig))) =
    (Some 0, snd (beginLoad (loadKey ''10.0.0.1'' ''llama'') (NewPlugin ''loader'' DefaultConfig)))"
  by (simp_all add: demo_marked_def demo_start_def minit_def beginLoad_def NewPlugin_def)

lemma demo_waiting_reach: "mreach decode demo_job demo_waiting"
proof -
  define s1 where "s1 = goto 0 (Load 0) (demo_marked\<lparr>mLoader :=
    snd (beginLoad (loadKey ''10.0.0.1'' ''llama'') (mLoader demo_marked))\<rparr>)"
  have key: "job_key demo_job g = loadKey ''10.0.0.1'' ''llama''" for g
    by (simp add: job_key_def demo_job_def)
  have n: "nextResult (mLoader demo_marked) = 0" by (simp add: demo_begin NewPlugin_def)
  have "mstep decode demo_job demo_marked s1"
    using mstep.begin_primary [of demo_marked 0 demo_job _ decode] demo_begin n
    by (simp add: s1_def key demo_marked_def)
  with demo_marked_reach have "mreach decode demo_job s1" by (rule mreach.step)
  moreover have "mstep decode demo_job s1 (goto 1 (AwaitLoad 0) (s1\<lparr>mLoader := mLoader s1\<rparr>))"
    by (rule mstep.begin_join) (use demo_begin in \<open>simp_all add: s1_def key demo_marked_def\<close>)
  ultimately have "mreach decode demo_job (goto 1 (AwaitLoad 0) (s1\<lparr>mLoader := mLoader s1\<rparr>))"
    by (rule mreach.step)
  moreover have "s1\<lparr>mLoader := mLoader s1\<rparr> = s1" by simp
  ultimately show ?thesis unfolding demo_waiting_def s1_def by metis
qed

lemma demo_waiting_pcs:
  "pcs demo_waiting 0 = Load 0" "pcs demo_waiting 1 = AwaitLoad 0"
  "IsLoaded (mTracker demo_waiting) ''10.0.0.1'' ''llama''" "wf_tracker (mTracker demo_waiting)"
  unfolding demo_waiting_def
  by (simp_all add: demo_marked_def demo_begin warm.loaded_mark wf_MarkLoaded demo_world)

subsection \<open>Properties of concurrent loads\<close>

text \<open>C5: single flight. Whatever the interleaving, and whatever the environment does to caches and
  tracker, at any moment at most one request is loading a given model on a given pod: two requests
  that are both between registering a load and publishing its result are for different keys.\<close>

theorem single_flight:
  assumes "mreach decode job s" and "primary (pcs s g) = Some r" and "primary (pcs s h) = Some r'"
    and "job g = job h"
  shows "g = h \<and> r = r'"
proof -
  note inv = mreach_minv [OF assms(1)]
  have "Some r = Some r'"
    using minv_primary [OF inv assms(2)] minv_primary [OF inv assms(3)] assms(4) by (simp add: job_key_def)
  then show ?thesis using minv_unique [OF inv assms(2)] assms(3) by simp
qed

theorem single_flight_witness:
  "primary (pcs demo_waiting 0) = Some 0 \<and> \<not> (\<exists>h. primary (pcs demo_waiting h) = Some 0 \<and> h \<noteq> 0)"
  using single_flight [OF demo_waiting_reach [of demo_decode], of 0 0] demo_waiting_pcs(1)
  by (auto simp: demo_job_def)

text \<open>No lost wake-up. A request that waits for another one's load is never left behind: from every
  reachable state there is a continuation, without any step of the waiting request itself, in which
  the result it waits for is published.\<close>

theorem waiters_are_woken:
  assumes "mreach decode job s" and "awaits (pcs s g) = Some r"
  shows "\<exists>s'. msteps decode job s s' \<and> lrDone (results (mLoader s') r) \<and> pcs s' g = pcs s g"
proof -
  note inv = mreach_minv [OF assms(1)]
  from minv_awaits [OF inv assms(2)] show ?thesis
  proof
    assume "loadingModels (mLoader s) (job_key job g) = Some r"
    then obtain h where h: "primary (pcs s h) = Some r" using minv_loading [OF inv] by blast
    with assms(2) have "g \<noteq> h" by (cases "pcs s g") auto
    with h show ?thesis by (rule primary_publishes)
  qed blast
qed

theorem waiters_are_woken_witness:
  "\<exists>s'. msteps demo_decode demo_job demo_waiting s' \<and> lrDone (results (mLoader s') 0) \<and>
    pcs s' 1 = AwaitLoad 0"
  using waiters_are_woken [OF demo_waiting_reach, of 1 0 demo_decode] demo_waiting_pcs(2) by simp

text \<open>Every request that waits for a load sees the same outcome: once published, the result of a
  load is never overwritten and never revoked, so a failed load is seen as failed by all of them.\<close>

theorem load_result_is_final:
  assumes "mreach decode job s" and "lrDone (results (mLoader s) r)" and "msteps decode job s s'"
  shows "lrDone (results (mLoader s') r) \<and> lrErr (results (mLoader s') r) = lrErr (results (mLoader s) r)"
  using published_stable_steps [OF assms(3) mreach_minv [OF assms(1)] assms(2)] assms(2) by simp

theorem load_result_is_final_witness:
  "\<exists>s s'. mreach demo_decode demo_job s \<and> msteps demo_decode demo_job s s' \<and>
    lrDone (results (mLoader s') 0) \<and> lrErr (results (mLoader s') 0) = lrErr (results (mLoader s) 0)"
proof -
  obtain s where s: "msteps demo_decode demo_job demo_waiting s" "lrDone (results (mLoader s) 0)"
    using primary_publishes [of demo_waiting 0 0 1 demo_decode demo_job] demo_waiting_pcs(1) by auto
  have "mreach demo_decode demo_job s"
    using s(1) demo_waiting_reach by (induction rule: rtranclp_induct) (auto intro: mreach.step)
  from load_result_is_final [OF this s(2) rtranclp.rtrancl_refl] this show ?thesis by blast
qed

text \<open>An action of the call \<open>g\<close> itself: it moves its program counter and no other; the environment moves none.\<close>

definition own_step ::
  "(string \<Rightarrow> model_entry list option) \<Rightarrow> (nat \<Rightarrow> string \<times> string) \<Rightarrow> nat \<Rightarrow> mstate \<Rightarrow> mstate \<Rightarrow> bool" where
  "own_step decode job g s s' \<longleftrightarrow>
     mstep decode job s s' \<and> pcs s' g \<noteq> pcs s g \<and> (\<forall>h. h \<noteq> g \<longrightarrow> pcs s' h = pcs s h)"

text \<open>A call that waits for a load that is not done can only be cancelled; a call that retracts retracts.\<close>

lemma own_waiting:
  assumes "own_step decode job g s s'" and "pcs s g = AwaitLoad r" and "\<not> lrDone (results (mLoader s) r)"
  shows "s' = goto g Retract s"
proof -
  have "mstep decode job s s'" and moved: "pcs s' g \<noteq> pcs s g" using assms(1) by (simp_all add: own_step_def)
  then show ?thesis by (cases rule: mstep.cases) (use moved assms(2,3) in \<open>auto split: if_splits\<close>)
qed

lemma own_retracting:
  assumes "own_step decode job g s s'" and "pcs s g = Retract"
  shows "mTracker s' = fst (MarkUnloaded (fst (job g)) (snd (job g)) (mTracker s)) \<and> mLoader s' = mLoader s"
proof -
  have "mstep decode job s s'" and moved: "pcs s' g \<noteq> pcs s g" using assms(1) by (simp_all add: own_step_def)
  then show ?thesis by (cases rule: mstep.cases) (use moved assms(2) in \<open>auto split: if_splits\<close>)
qed

text \<open>C28: the mark of a load in progress can be retracted by a bystander. A request that waits for the load of another
  one, which is not done, has one way to go on by itself: its context is cancelled, and then it takes back
  the mark. It always can, and after these two actions of its own the filter no longer sees the pod as
  warm, although the load is still registered and its primary is still at it.\<close>

theorem cancelled_waiter_retracts_mark:
  assumes "mreach decode job s" and "pcs s g = AwaitLoad r" and "\<not> lrDone (results (mLoader s) r)"
    and "wf_tracker (mTracker s)" and "fst (job g) \<noteq> []" and "snd (job g) \<noteq> []"
  shows "(\<exists>s1 s2. own_step decode job g s s1 \<and> own_step decode job g s1 s2) \<and>
    (\<forall>s1 s2. own_step decode job g s s1 \<longrightarrow> own_step decode job g s1 s2 \<longrightarrow>
       pcs s1 g = Retract \<and> mTracker s1 = mTracker s \<and> \<not> IsLoaded (mTracker s2) (fst (job g)) (snd (job g)) \<and>
       loadingModels (mLoader s2) (job_key job g) = Some r \<and>
       (\<exists>h. h \<noteq> g \<and> job_key job h = job_key job g \<and> primary (pcs s2 h) = Some r))"
proof (intro conjI allI impI)
  let ?s1 = "goto g Retract s"
  obtain t nt where t: "MarkUnloaded (fst (job g)) (snd (job g)) (mTracker s) = (t, nt)" by fastforce
  let ?c = "case nt of None \<Rightarrow> Returned | Some (ip, m) \<Rightarrow> Notify ip m"
  have "own_step decode job g s ?s1"
    using await_load_cancelled [OF assms(2), of decode job] assms(2) by (simp add: own_step_def)
  moreover have "own_step decode job g ?s1 (goto g ?c (?s1\<lparr>mTracker := t\<rparr>))"
    using mstep.retract [of ?s1 g job t nt decode] t by (auto simp: own_step_def split: option.split)
  ultimately show "\<exists>s1 s2. own_step decode job g s s1 \<and> own_step decode job g s1 s2" by blast
next
  fix s1 s2 assume 1: "own_step decode job g s s1" and 2: "own_step decode job g s1 s2"
  have s1: "s1 = goto g Retract s" by (rule own_waiting [OF 1 assms(2,3)])
  then show "pcs s1 g = Retract" "mTracker s1 = mTracker s" by simp_all
  have s2: "mTracker s2 = fst (MarkUnloaded (fst (job g)) (snd (job g)) (mTracker s))" "mLoader s2 = mLoader s"
    using own_retracting [OF 2] by (simp_all add: s1)
  show "\<not> IsLoaded (mTracker s2) (fst (job g)) (snd (job g))"
    using warm.loaded_unmark [OF assms(4), of "fst (job g)" "snd (job g)" "fst (job g)" "snd (job g)"] assms(5,6)
    by (simp add: s2)
  have inv: "minv job s" by (rule mreach_minv [OF assms(1)])
  have load: "loadingModels (mLoader s) (job_key job g) = Some r"
    using minv_awaits [OF inv, of g r] assms(2,3) by simp
  then show "loadingModels (mLoader s2) (job_key job g) = Some r" by (simp add: s2)
  obtain h where h: "primary (pcs s h) = Some r" "job_key job h = job_key job g" using minv_loading [OF inv load] by blast
  with assms(2) have "h \<noteq> g" by auto
  with h 2 show "\<exists>h. h \<noteq> g \<and> job_key job h = job_key job g \<and> primary (pcs s2 h) = Some r"
    by (intro exI [of _ h]) (simp add: own_step_def s1)
qed

theorem cancelled_waiter_retracts_mark_witness:
  "\<exists>s1 s2. IsLoaded (mTracker demo_waiting) ''10.0.0.1'' ''llama'' \<and>
    own_step demo_decode demo_job 1 demo_waiting s1 \<and> own_step demo_decode demo_job 1 s1 s2 \<and>
    \<not> IsLoaded (mTracker s2) ''10.0.0.1'' ''llama'' \<and>
    loadingModels (mLoader s2) (loadKey ''10.0.0.1'' ''llama'') = Some 0"
proof -
  have inv: "minv demo_job demo_waiting" by (rule mreach_minv [OF demo_waiting_reach [of demo_decode]])
  have "loadingModels (mLoader demo_waiting) (job_key demo_job 0) = Some 0"
    using minv_primary [OF inv, of 0 0] demo_waiting_pcs(1) by simp
  then have busy: "\<not> lrDone (results (mLoader demo_waiting) 0)" by (rule minv_result(2) [OF inv])
  have job: "fst (demo_job 1) \<noteq> []" "snd (demo_job 1) \<noteq> []" by (simp_all add: demo_job_def)
  note both = cancelled_waiter_retracts_mark [OF demo_waiting_reach [of demo_decode] demo_waiting_pcs(2) busy
      demo_waiting_pcs(4) job]
  then obtain s1 s2 where s: "own_step demo_decode demo_job 1 demo_waiting s1" "own_step demo_decode demo_job 1 s1 s2"
    by blast
  with both have "\<not> IsLoaded (mTracker s2) (fst (demo_job 1)) (snd (demo_job 1)) \<and>
      loadingModels (mLoader s2) (job_key demo_job 1) = Some 0" by blast
  with s demo_waiting_pcs(3) show ?thesis by (auto simp: demo_job_def job_key_def)
qed

end
