(* ===== verification/Tracker_Poll.thy ===== *)
theory Tracker_Poll
  imports Model_Tracker K8s
begin

section \<open>The poller of the model tracker\<close>

text \<open>
  \<open>listPods\<close>, \<open>queryPod\<close> and the part of \<open>pollOnce\<close> up to and including the exchange
  of the maps, in \<open>internal/modeltracker/tracker.go\<close>. \<open>json.Unmarshal\<close> of an answer is
  the argument \<open>decode\<close>. The loop reads the previous set of a pod that fails to answer and keeps
  its reference, so a mark made on that pod while the poll is under way is not lost;
  \<open>Tracker_Machine\<close> interleaves the two.
\<close>

datatype query_error =
  BuildRequest string
| DoRequest string
| UnexpectedStatus int
| ReadBody
| DecodeBody

datatype list_error = ListPods string

definition listPods :: "pod lister \<Rightarrow> tracker \<Rightarrow> list_error + pod list" where
  "listPods client t =
     (let opts = \<lparr>inNamespace = (if namespace t \<noteq> [] then Some (namespace t) else None),
                  matchingLabels = podSelector t,
                  fieldNodeName = None\<rparr>
      in case client opts of Inl e \<Rightarrow> Inl (ListPods e) | Inr ps \<Rightarrow> Inr ps)"

text \<open>
  The options are added only when the namespace, or the selector, is not empty; an empty selector
  constrains nothing, so it is passed as it is.
\<close>

fun live_models :: "model_entry list \<Rightarrow> string set \<Rightarrow> string set" where
  "live_models [] S = S"
| "live_models (e # es) S = live_models es (if live_status (StatusValue e) then insert (ID e) S else S)"

definition queryPod ::
  "transport \<Rightarrow> (string \<Rightarrow> model_entry list option) \<Rightarrow> tracker \<Rightarrow> string \<Rightarrow> query_error + string set" where
  "queryPod net decode t ip =
     (let url = http_url ip (podPort t) (queryPath t)
      in if \<not> urlOk net url then Inl (BuildRequest url)
         else case doReq net (GET url) of
           Inl e \<Rightarrow> Inl (DoRequest e)
         | Inr resp \<Rightarrow>
             if StatusCode resp \<noteq> StatusOK then Inl (UnexpectedStatus (StatusCode resp))
             else case Body resp of
               None \<Rightarrow> Inl ReadBody
             | Some body \<Rightarrow>
                 (case decode body of
                    None \<Rightarrow> Inl DecodeBody
                  | Some es \<Rightarrow> Inr (live_models es {})))"

text \<open>
  One round of the loop of \<open>pollOnce\<close> for each listed pod. The accumulators are the code's
  \<open>next\<close> and \<open>nextIPs\<close>; the tracker changes only by the sets it allocates.
\<close>

definition poll_pod ::
  "(string \<Rightarrow> query_error + string set) \<Rightarrow> pod \<Rightarrow>
   tracker \<times> (string \<rightharpoonup> ref) \<times> (string \<rightharpoonup> string) \<Rightarrow>
   tracker \<times> (string \<rightharpoonup> ref) \<times> (string \<rightharpoonup> string)" where
  "poll_pod query pod st =
     (case st of (t, nxt, nextIPs) \<Rightarrow>
        if PodIP pod = [] then (t, nxt, nextIPs)
        else
          (let key = PodIP pod; nextIPs' = nextIPs(key \<mapsto> PodIP pod)
           in case query (PodIP pod) of
                Inl e \<Rightarrow>
                  (case loaded t key of
                     Some prev \<Rightarrow> (t, nxt(key \<mapsto> prev), nextIPs')
                   | None \<Rightarrow> (t, nxt, nextIPs'))
              | Inr S \<Rightarrow>
                  (t\<lparr>sets := (sets t)(nextRef t := S), nextRef := Suc (nextRef t)\<rparr>,
                   nxt(key \<mapsto> nextRef t), nextIPs')))"

definition poll_swap :: "(string \<rightharpoonup> ref) \<Rightarrow> (string \<rightharpoonup> string) \<Rightarrow> tracker \<Rightarrow> tracker" where
  "poll_swap nxt nextIPs t = t\<lparr>loaded := nxt, podIP := nextIPs, firstPoll := True\<rparr>"

definition poll_update ::
  "(string \<Rightarrow> query_error + string set) \<Rightarrow> pod list \<Rightarrow> tracker \<Rightarrow> tracker" where
  "poll_update query pods t =
     (case fold (poll_pod query) pods (t, Map.empty, Map.empty) of
        (t', nxt, nextIPs) \<Rightarrow> poll_swap nxt nextIPs t')"

subsection \<open>What a poll computes\<close>

lemma live_models_set:
  "live_models es S = S \<union> {ID e | e. e \<in> set es \<and> live_status (StatusValue e)}"
  by (induction es S rule: live_models.induct) auto

lemma finite_live_models: "finite S \<Longrightarrow> finite (live_models es S)"
  by (induction es S rule: live_models.induct) auto

lemma queryPod_finite: "queryPod net decode t ip = Inr S \<Longrightarrow> finite S"
  by (auto simp: queryPod_def Let_def finite_live_models split: if_splits sum.splits option.splits)

text \<open>
  What holds at every point of the loop, with other goroutines running: the tracker is well formed,
  the sets gathered so far exist, two gathered pods never share a set, and a gathered set that the
  tracker still uses belongs to the same pod there.
\<close>

definition poll_inv :: "tracker \<Rightarrow> (string \<rightharpoonup> ref) \<Rightarrow> bool" where
  "poll_inv t nxt \<longleftrightarrow>
     wf_tracker t \<and>
     (\<forall>p r. nxt p = Some r \<longrightarrow> r < nextRef t \<and> finite (sets t r)) \<and>
     (\<forall>p q r. nxt p = Some r \<longrightarrow> loaded t q = Some r \<longrightarrow> p = q) \<and>
     (\<forall>p q r. nxt p = Some r \<longrightarrow> nxt q = Some r \<longrightarrow> p = q) \<and>
     finite (dom nxt)"

lemma poll_inv_start: "wf_tracker t \<Longrightarrow> poll_inv t Map.empty"
  by (simp add: poll_inv_def)

lemma poll_invI:
  assumes "wf_tracker t"
    and "\<And>p r. nxt p = Some r \<Longrightarrow> r < nextRef t"
    and "\<And>p r. nxt p = Some r \<Longrightarrow> finite (sets t r)"
    and "\<And>p q r. nxt p = Some r \<Longrightarrow> loaded t q = Some r \<Longrightarrow> p = q"
    and "\<And>p q r. nxt p = Some r \<Longrightarrow> nxt q = Some r \<Longrightarrow> p = q"
    and "finite (dom nxt)"
  shows "poll_inv t nxt"
  using assms unfolding poll_inv_def by blast

lemma poll_invD:
  assumes "poll_inv t nxt"
  shows poll_inv_wf: "wf_tracker t"
    and poll_inv_ref: "nxt p = Some r \<Longrightarrow> r < nextRef t"
    and poll_inv_set: "nxt p = Some r \<Longrightarrow> finite (sets t r)"
    and poll_inv_loaded: "nxt p = Some r \<Longrightarrow> loaded t q = Some r \<Longrightarrow> p = q"
    and poll_inv_inj: "nxt p = Some r \<Longrightarrow> nxt q = Some r \<Longrightarrow> p = q"
    and poll_inv_fin: "finite (dom nxt)"
  using assms unfolding poll_inv_def by blast+

lemma poll_inv_fresh: "poll_inv t nxt \<Longrightarrow> nxt p \<noteq> Some (nextRef t)"
  using poll_inv_ref by blast

abbreviation add_set :: "string set \<Rightarrow> tracker \<Rightarrow> tracker" where
  "add_set S t \<equiv> t\<lparr>sets := (sets t)(nextRef t := S), nextRef := Suc (nextRef t)\<rparr>"

lemma wf_add_set: "wf_tracker t \<Longrightarrow> wf_tracker (add_set S t)"
  by (rule wf_trackerI)
    (auto simp: wf_tracker_fin less_Suc_eq wf_tracker_unpolled
      dest: wf_tracker_ref wf_tracker_set wf_tracker_inj wf_tracker_fresh)

lemma poll_inv_alloc:
  assumes inv: "poll_inv t nxt" and "finite S"
  shows "poll_inv (add_set S t) (nxt(k \<mapsto> nextRef t))"
proof (rule poll_invI)
  show "wf_tracker (add_set S t)" using poll_inv_wf [OF inv] by (rule wf_add_set)
  show "finite (dom (nxt(k \<mapsto> nextRef t)))" using poll_inv_fin [OF inv] by simp
qed (use inv assms(2) poll_inv_fresh [OF inv] wf_tracker_fresh [OF poll_inv_wf [OF inv]] in
    \<open>auto split: if_splits simp: less_Suc_eq
      dest: poll_inv_ref poll_inv_set poll_inv_loaded poll_inv_inj\<close>)

lemma poll_inv_keep:
  assumes inv: "poll_inv t nxt" and r: "loaded t k = Some r"
  shows "poll_inv t (nxt(k \<mapsto> r))"
proof -
  note wf = poll_inv_wf [OF inv]
  have own: "nxt p = Some r \<Longrightarrow> p = k" for p using poll_inv_loaded [OF inv _ r] .
  show ?thesis
  proof (rule poll_invI)
    show "finite (dom (nxt(k \<mapsto> r)))" using poll_inv_fin [OF inv] by simp
  qed (use inv wf own wf_tracker_ref [OF wf r] wf_tracker_set [OF wf r] wf_tracker_inj [OF wf r] in
      \<open>auto split: if_splits dest: poll_inv_ref poll_inv_set poll_inv_loaded poll_inv_inj\<close>)
qed

lemma poll_inv_pod:
  assumes "poll_inv t nxt" and "\<And>ip S. query ip = Inr S \<Longrightarrow> finite S"
    and "poll_pod query pod (t, nxt, ips) = (t', nxt', ips')"
  shows "poll_inv t' nxt'"
  using assms by (auto simp: poll_pod_def Let_def poll_inv_alloc poll_inv_keep
      split: if_splits sum.splits option.splits)

lemma wf_poll_swap: "poll_inv t nxt \<Longrightarrow> wf_tracker (poll_swap nxt ips t)"
  by (rule wf_trackerI)
    (auto simp: poll_swap_def poll_inv_fin wf_tracker_fin(2) [OF poll_inv_wf]
      dest: poll_inv_ref poll_inv_set poll_inv_inj)

subsection \<open>A poll with nothing else running\<close>

definition listed_ips :: "pod list \<Rightarrow> string set" where
  "listed_ips pods = {PodIP p | p. p \<in> set pods \<and> PodIP p \<noteq> []}"

text \<open>
  The abstract poll: an answering pod shows its answer, a silent one what was known of it, and a
  pod that is no longer listed is forgotten.
\<close>

definition view_poll ::
  "(string \<Rightarrow> query_error + string set) \<Rightarrow> string set \<Rightarrow> warm_view \<Rightarrow> warm_view" where
  "view_poll query D v p =
     (if p \<in> D then (case query p of Inr S \<Rightarrow> Some S | Inl e \<Rightarrow> v p) else None)"

definition gathered ::
  "(string \<Rightarrow> query_error + string set) \<Rightarrow> warm_view \<Rightarrow> string set \<Rightarrow>
   tracker \<times> (string \<rightharpoonup> ref) \<times> (string \<rightharpoonup> string) \<Rightarrow> bool" where
  "gathered query v D st \<longleftrightarrow>
     (case st of (t, nxt, ips) \<Rightarrow>
        poll_inv t nxt \<and> pod_set t = v \<and>
        (\<forall>p. map_option (sets t) (nxt p) = view_poll query D v p) \<and>
        ips = (\<lambda>p. if p \<in> D then Some p else None))"

lemma pod_set_add_set: "wf_tracker t \<Longrightarrow> pod_set (add_set S t) = pod_set t"
  by (rule ext) (use wf_tracker_fresh in \<open>auto simp: pod_set_apply split: option.splits\<close>)

lemma gathered_pod:
  assumes g: "gathered query v D (t, nxt, ips)"
    and fin: "\<And>ip S. query ip = Inr S \<Longrightarrow> finite S"
  shows "gathered query v (D \<union> listed_ips [pod]) (poll_pod query pod (t, nxt, ips))"
proof (cases "PodIP pod = []")
  case True
  then show ?thesis using g by (simp add: poll_pod_def listed_ips_def)
next
  case False
  let ?k = "PodIP pod"
  have inv: "poll_inv t nxt" and v: "pod_set t = v" and ips: "ips = (\<lambda>p. if p \<in> D then Some p else None)"
    and look: "\<And>p. map_option (sets t) (nxt p) = view_poll query D v p"
    using g by (simp_all add: gathered_def)
  have D: "D \<union> listed_ips [pod] = insert ?k D" using False by (auto simp: listed_ips_def)
  have ips': "ips(?k \<mapsto> ?k) = (\<lambda>p. if p \<in> insert ?k D then Some p else None)" by (auto simp: ips)
  show ?thesis
  proof (cases "query ?k")
    case (Inr S)
    have "map_option ((sets t)(nextRef t := S)) ((nxt(?k \<mapsto> nextRef t)) p) =
        view_poll query (insert ?k D) v p" for p
      using look [of p] poll_inv_fresh [OF inv, of p] Inr
      by (cases "nxt p") (auto simp: view_poll_def split: if_splits)
    with Inr False D ips' v show ?thesis
      using poll_inv_alloc [OF inv fin [OF Inr]] pod_set_add_set [OF poll_inv_wf [OF inv]]
      by (simp add: gathered_def poll_pod_def Let_def)
  next
    case (Inl e)
    show ?thesis
    proof (cases "loaded t ?k")
      case (Some r)
      have "map_option (sets t) ((nxt(?k \<mapsto> r)) p) = view_poll query (insert ?k D) v p" for p
        using look [of p] Inl Some v by (auto simp: view_poll_def pod_set_apply)
      with Inl Some False D ips' v show ?thesis
        using poll_inv_keep [OF inv Some] by (simp add: gathered_def poll_pod_def Let_def)
    next
      case None
      have "map_option (sets t) (nxt p) = view_poll query (insert ?k D) v p" for p
        using look [of p] Inl None v by (auto simp: view_poll_def pod_set_apply)
      with Inl None False D ips' v show ?thesis
        using inv by (simp add: gathered_def poll_pod_def Let_def)
    qed
  qed
qed

lemma gathered_pods:
  assumes "gathered query v D st" and fin: "\<And>ip S. query ip = Inr S \<Longrightarrow> finite S"
  shows "gathered query v (D \<union> listed_ips pods) (fold (poll_pod query) pods st)"
  using assms(1)
proof (induction pods arbitrary: D st)
  case Nil
  then show ?case by (simp add: listed_ips_def)
next
  case (Cons pod pods)
  have "D \<union> listed_ips (pod # pods) = (D \<union> listed_ips [pod]) \<union> listed_ips pods"
    by (auto simp: listed_ips_def)
  then show ?case
    using Cons.IH gathered_pod [OF _ fin] Cons.prems by (cases st) simp
qed

lemma pod_set_poll_swap:
  "pod_set (poll_swap nxt ips t) = (\<lambda>p. map_option (sets t) (nxt p))"
  by (simp add: pod_set_def poll_swap_def fun_eq_iff)

lemma poll_update_correct:
  assumes wf: "wf_tracker t" and fin: "\<And>ip S. query ip = Inr S \<Longrightarrow> finite S"
  shows "wf_tracker (poll_update query pods t)"
    and "pod_set (poll_update query pods t) = view_poll query (listed_ips pods) (pod_set t)"
    and "podIP (poll_update query pods t) = (\<lambda>p. if p \<in> listed_ips pods then Some p else None)"
    and "firstPoll (poll_update query pods t)"
proof -
  obtain t' nxt ips where st: "fold (poll_pod query) pods (t, Map.empty, Map.empty) = (t', nxt, ips)"
    by (metis prod_cases3)
  have "gathered query (pod_set t) {} (t, Map.empty, Map.empty)"
    using poll_inv_start [OF wf] by (simp add: gathered_def view_poll_def)
  from gathered_pods [OF this fin, where pods = pods] have
    g: "gathered query (pod_set t) (listed_ips pods) (t', nxt, ips)" by (simp add: st)
  then have inv: "poll_inv t' nxt" by (simp add: gathered_def)
  show "wf_tracker (poll_update query pods t)"
    using wf_poll_swap [OF inv] by (simp add: poll_update_def st)
  show "pod_set (poll_update query pods t) = view_poll query (listed_ips pods) (pod_set t)"
    using g by (simp add: poll_update_def st pod_set_poll_swap gathered_def fun_eq_iff)
  show "podIP (poll_update query pods t) = (\<lambda>p. if p \<in> listed_ips pods then Some p else None)"
    using g by (simp add: poll_update_def st poll_swap_def gathered_def)
  show "firstPoll (poll_update query pods t)"
    by (simp add: poll_update_def st poll_swap_def)
qed

text \<open>What a poll leaves alone.\<close>

lemma poll_pod_frame:
  "poll_pod query pod (t, nxt, ips) = (t', nxt', ips') \<Longrightarrow>
   dupObs t' = dupObs t \<and> hasPressure t' = hasPressure t \<and> hasObserver t' = hasObserver t \<and>
   dedupGracePolls t' = dedupGracePolls t"
  by (auto simp: poll_pod_def Let_def split: if_splits sum.splits option.splits)

lemma poll_pods_frame:
  "fold (poll_pod query) pods (t, nxt, ips) = (t', nxt', ips') \<Longrightarrow>
   dupObs t' = dupObs t \<and> hasPressure t' = hasPressure t \<and> hasObserver t' = hasObserver t \<and>
   dedupGracePolls t' = dedupGracePolls t"
proof (induction pods arbitrary: t nxt ips)
  case (Cons pod pods)
  obtain t1 nxt1 ips1 where s: "poll_pod query pod (t, nxt, ips) = (t1, nxt1, ips1)"
    by (metis prod_cases3)
  from Cons.IH [of t1 nxt1 ips1] Cons.prems poll_pod_frame [OF s] show ?case by (simp add: s)
qed simp

lemma poll_update_frame:
  "dupObs (poll_update query pods t) = dupObs t"
  "hasPressure (poll_update query pods t) = hasPressure t"
  "hasObserver (poll_update query pods t) = hasObserver t"
  "dedupGracePolls (poll_update query pods t) = dedupGracePolls t"
  using poll_pods_frame [of query pods t Map.empty Map.empty]
  by (cases "fold (poll_pod query) pods (t, Map.empty, Map.empty)";
      simp add: poll_update_def poll_swap_def)+

end
