(* ===== verification/Tracker_Dedup.thy ===== *)
theory Tracker_Dedup
  imports Tracker_Poll Go_Float
begin

section \<open>Reclaiming duplicated models\<close>

text \<open>
  \<open>resolveDuplicates\<close>, \<open>pickLoser\<close> and \<open>unloadModel\<close> of
  \<open>internal/modeltracker/tracker.go\<close>. A model loaded on two pods or more for enough consecutive
  polls is unloaded from the pod with the lowest pressure. The pressure provider is the argument
  \<open>pr\<close>; the HTTP call is \<open>unload\<close>, which \<open>unloadModel\<close> instantiates; every \<open>range\<close>
  loop has its own order. The result carries the requests sent and the observer's calls, in order.
\<close>

subsection \<open>Choosing the copy to give up\<close>

fun lowest_pressure :: "(string \<Rightarrow> float64) \<Rightarrow> string \<Rightarrow> float64 \<Rightarrow> string list \<Rightarrow> string" where
  "lowest_pressure pr loser loserScore [] = loser"
| "lowest_pressure pr loser loserScore (pk # pks) =
     (let s = pr pk
      in if f64_less s loserScore then lowest_pressure pr pk s pks
         else lowest_pressure pr loser loserScore pks)"

definition pickLoser :: "(string \<Rightarrow> float64) \<Rightarrow> string list \<Rightarrow> string" where
  "pickLoser pr holders =
     (case sort holders of [] \<Rightarrow> [] | loser # rest \<Rightarrow> lowest_pressure pr loser (pr loser) rest)"

subsection \<open>The unload request\<close>

datatype unload_error =
  UnloadBuild string
| UnloadDo string
| UnloadStatus string int
| UnloadRead
| UnloadDecode
| UnloadRefused string

text \<open>\<open>decode\<close> is \<open>json.Unmarshal\<close> of the answer's \<open>success\<close> field; \<open>None\<close> is success.\<close>

definition unloadModel ::
  "transport \<Rightarrow> (string \<Rightarrow> bool option) \<Rightarrow> tracker \<Rightarrow> string \<Rightarrow> string \<Rightarrow> unload_error option" where
  "unloadModel net decode t ip model =
     (let url = http_url ip (podPort t) (unloadPath t)
      in if \<not> urlOk net url then Some (UnloadBuild url)
         else case doReq net (POST url (ModelRequest model)) of
           Inl e \<Rightarrow> Some (UnloadDo e)
         | Inr resp \<Rightarrow>
             if StatusCode resp \<noteq> StatusOK then Some (UnloadStatus model (StatusCode resp))
             else case Body resp of
               None \<Rightarrow> Some UnloadRead
             | Some body \<Rightarrow>
                 (case decode body of
                    None \<Rightarrow> Some UnloadDecode
                  | Some success \<Rightarrow> if \<not> success then Some (UnloadRefused model) else None))"

subsection \<open>Who holds what\<close>

record dedup_orders =
  ordLoaded :: "string set \<Rightarrow> string list"
  ordModels :: "string \<Rightarrow> string set \<Rightarrow> string list"
  ordObs :: "string set \<Rightarrow> string list"
  ordDup :: "string set \<Rightarrow> string list"

definition dedup_ranges :: "dedup_orders \<Rightarrow> bool" where
  "dedup_ranges ord \<longleftrightarrow>
     range_order (ordLoaded ord) \<and> (\<forall>pk. range_order (ordModels ord pk)) \<and>
     range_order (ordObs ord) \<and> range_order (ordDup ord)"

definition holders :: "(string \<rightharpoonup> string list) \<Rightarrow> string \<Rightarrow> string list" where
  "holders dup model = (case dup model of None \<Rightarrow> [] | Some hs \<Rightarrow> hs)"

definition add_holder ::
  "string \<Rightarrow> string \<Rightarrow> (string \<rightharpoonup> string list) \<Rightarrow> (string \<rightharpoonup> string list)" where
  "add_holder pk model dup = dup(model \<mapsto> holders dup model @ [pk])"

definition add_pod ::
  "dedup_orders \<Rightarrow> tracker \<Rightarrow> string \<Rightarrow> (string \<rightharpoonup> string list) \<Rightarrow> (string \<rightharpoonup> string list)" where
  "add_pod ord t pk dup =
     (case loaded t pk of None \<Rightarrow> dup
      | Some r \<Rightarrow> fold (add_holder pk) (ordModels ord pk (sets t r)) dup)"

definition build_dup :: "dedup_orders \<Rightarrow> tracker \<Rightarrow> (string \<rightharpoonup> string list)" where
  "build_dup ord t = fold (add_pod ord t) (ordLoaded ord (dom (loaded t))) Map.empty"

subsection \<open>Counting observations\<close>

definition obs_count :: "(string \<rightharpoonup> int) \<Rightarrow> string \<Rightarrow> int" where
  "obs_count obs model = (case obs model of None \<Rightarrow> 0 | Some c \<Rightarrow> c)"

definition resolved_models :: "(string \<rightharpoonup> string list) \<Rightarrow> string list \<Rightarrow> string list" where
  "resolved_models dup ms = filter (\<lambda>m. length (holders dup m) < 2) ms"

fun count_dups ::
  "int \<Rightarrow> (string \<rightharpoonup> string list) \<Rightarrow> string list \<Rightarrow> (string \<rightharpoonup> int) \<Rightarrow>
   (string \<times> string list) list \<Rightarrow> (string \<rightharpoonup> int) \<times> (string \<times> string list) list" where
  "count_dups grace dup [] obs ripe = (obs, ripe)"
| "count_dups grace dup (m # ms) obs ripe =
     (if length (holders dup m) < 2 then count_dups grace dup ms obs ripe
      else
        (let c = obs_count obs m + 1; obs' = obs(m \<mapsto> c)
         in count_dups grace dup ms obs'
              (if grace \<le> c then ripe @ [(m, holders dup m)] else ripe)))"

subsection \<open>Issuing the unloads\<close>

record dedup_log =
  attempts :: "(string \<times> string) list"
  notified :: "(string \<times> string) list"

definition forget_obs :: "string \<Rightarrow> tracker \<Rightarrow> tracker" where
  "forget_obs model t = t\<lparr>dupObs := (dupObs t)(model := None)\<rparr>"

fun unload_ripe ::
  "(string \<Rightarrow> float64) \<Rightarrow> (string \<Rightarrow> string \<Rightarrow> unload_error option) \<Rightarrow> (string \<rightharpoonup> string) \<Rightarrow>
   (string \<times> string list) list \<Rightarrow> int \<Rightarrow> tracker \<Rightarrow> dedup_log \<Rightarrow> tracker \<times> dedup_log" where
  "unload_ripe pr unload ipSnap [] issued t lg = (t, lg)"
| "unload_ripe pr unload ipSnap ((model, hs) # rs) issued t lg =
     (if MaxUnloadsPerCycle \<le> issued then (t, lg)
      else
        (let loserKey = pickLoser pr hs
         in if loserKey = [] then unload_ripe pr unload ipSnap rs issued t lg
            else case ipSnap loserKey of
              None \<Rightarrow> unload_ripe pr unload ipSnap rs issued t lg
            | Some loserIP \<Rightarrow>
                if loserIP = [] then unload_ripe pr unload ipSnap rs issued t lg
                else
                  (let lg' = lg\<lparr>attempts := attempts lg @ [(loserIP, model)]\<rparr>
                   in case unload loserIP model of
                        Some e \<Rightarrow> unload_ripe pr unload ipSnap rs issued t lg'
                      | None \<Rightarrow>
                          (case MarkUnloaded loserKey model t of
                             (t', note) \<Rightarrow>
                               unload_ripe pr unload ipSnap rs (issued + 1) (forget_obs model t')
                                 (lg'\<lparr>notified := notified lg' @
                                    (case note of None \<Rightarrow> [] | Some n \<Rightarrow> [n])\<rparr>)))))"

definition resolveDuplicates ::
  "dedup_orders \<Rightarrow> (string \<Rightarrow> float64) \<Rightarrow> (string \<Rightarrow> string \<Rightarrow> unload_error option) \<Rightarrow>
   tracker \<Rightarrow> tracker \<times> dedup_log" where
  "resolveDuplicates ord pr unload t =
     (let lg = \<lparr>attempts = [], notified = []\<rparr>
      in if \<not> hasPressure t then (t, lg)
         else if \<not> firstPoll t then (t, lg)
         else
           (let dup = build_dup ord t;
                ipSnap = podIP t;
                obs1 = delete_keys (resolved_models dup (ordObs ord (dom (dupObs t)))) (dupObs t)
            in case count_dups (dedupGracePolls t) dup (ordDup ord (dom dup)) obs1 [] of
                 (obs2, ripe) \<Rightarrow>
                   (let t' = t\<lparr>dupObs := obs2\<rparr>
                    in if ripe = [] then (t', lg)
                       else unload_ripe pr unload ipSnap (sort_key fst ripe) 0 t' lg)))"

definition ResolveDuplicates ::
  "dedup_orders \<Rightarrow> (string \<Rightarrow> float64) \<Rightarrow> (string \<Rightarrow> string \<Rightarrow> unload_error option) \<Rightarrow>
   tracker \<Rightarrow> tracker \<times> dedup_log" where
  "ResolveDuplicates ord pr unload t = resolveDuplicates ord pr unload t"

text \<open>\<open>pollOnce\<close>: list, poll, then one pass over the duplicates. A failed listing changes nothing.\<close>

definition pollOnce ::
  "dedup_orders \<Rightarrow> pod lister \<Rightarrow> (string \<Rightarrow> query_error + string set) \<Rightarrow> (string \<Rightarrow> float64) \<Rightarrow>
   (string \<Rightarrow> string \<Rightarrow> unload_error option) \<Rightarrow> tracker \<Rightarrow> tracker \<times> dedup_log" where
  "pollOnce ord client query pr unload t =
     (case listPods client t of
        Inl e \<Rightarrow> (t, \<lparr>attempts = [], notified = []\<rparr>)
      | Inr pods \<Rightarrow> resolveDuplicates ord pr unload (poll_update query pods t))"

subsection \<open>Holders of a model\<close>

definition holder_set :: "tracker \<Rightarrow> string \<Rightarrow> string set" where
  "holder_set t m = {pk. \<exists>S. pod_set t pk = Some S \<and> m \<in> S}"

lemma holder_set_subset: "holder_set t m \<subseteq> dom (loaded t)"
  by (auto simp: holder_set_def pod_set_def)

lemma finite_holder_set: "wf_tracker t \<Longrightarrow> finite (holder_set t m)"
  using finite_subset [OF holder_set_subset] wf_tracker_fin by blast

lemma holders_add_holder:
  "holders (add_holder pk m' dup) m = holders dup m @ (if m = m' then [pk] else [])"
  by (simp add: holders_def add_holder_def)

lemma holders_fold_add_holder:
  "distinct ms \<Longrightarrow>
   holders (fold (add_holder pk) ms dup) m = holders dup m @ (if m \<in> set ms then [pk] else [])"
  by (induction ms arbitrary: dup) (auto simp: holders_add_holder)

lemma dom_fold_add_holder: "dom (fold (add_holder pk) ms dup) = dom dup \<union> set ms"
  by (induction ms arbitrary: dup) (auto simp: add_holder_def)

lemma holders_add_pod:
  assumes "wf_tracker t" and "dedup_ranges ord"
  shows "holders (add_pod ord t pk dup) m =
    holders dup m @ (if pk \<in> holder_set t m then [pk] else [])"
proof (cases "loaded t pk")
  case (Some r)
  have "distinct (ordModels ord pk (sets t r))" "set (ordModels ord pk (sets t r)) = sets t r"
    using assms wf_tracker_set [OF assms(1) Some] by (auto simp: dedup_ranges_def range_order_def)
  with Some show ?thesis
    by (simp add: add_pod_def holders_fold_add_holder holder_set_def pod_set_apply)
qed (simp add: add_pod_def holder_set_def pod_set_apply)

lemma holders_fold_add_pod:
  assumes "wf_tracker t" and "dedup_ranges ord"
  shows "holders (fold (add_pod ord t) pks dup) m =
    holders dup m @ filter (\<lambda>pk. pk \<in> holder_set t m) pks"
  by (induction pks arbitrary: dup) (simp_all add: holders_add_pod [OF assms])

lemma dom_fold_add_pod:
  assumes "wf_tracker t" and "dedup_ranges ord"
  shows "dom (fold (add_pod ord t) pks dup) = dom dup \<union> (\<Union>pk \<in> set pks. \<Union> (set_option (pod_set t pk)))"
proof (induction pks arbitrary: dup)
  case (Cons pk pks)
  have "dom (add_pod ord t pk dup) = dom dup \<union> \<Union> (set_option (pod_set t pk))"
    using assms wf_tracker_set [OF assms(1), of pk]
    by (cases "loaded t pk")
      (auto simp: add_pod_def pod_set_apply dom_fold_add_holder dedup_ranges_def range_order_def)
  with Cons show ?case by auto
qed simp

lemma finite_dom_build_dup:
  assumes "wf_tracker t" and "dedup_ranges ord"
  shows "finite (dom (build_dup ord t))"
proof -
  have "set (ordLoaded ord (dom (loaded t))) = dom (loaded t)"
    using assms wf_tracker_fin by (auto simp: dedup_ranges_def range_order_def)
  then show ?thesis
    using assms wf_tracker_fin(1) [OF assms(1)] pod_set_finite [OF assms(1)]
    by (auto simp: build_dup_def dom_fold_add_pod [OF assms] elim!: option.set_cases)
qed

text \<open>The code's list of a model's holders: each pod that has it, once.\<close>

lemma holders_build_dup:
  assumes "wf_tracker t" and "dedup_ranges ord"
  shows "distinct (holders (build_dup ord t) m)"
    and "set (holders (build_dup ord t) m) = holder_set t m"
    and "length (holders (build_dup ord t) m) = card (holder_set t m)"
proof -
  have ord: "distinct (ordLoaded ord (dom (loaded t)))"
      "set (ordLoaded ord (dom (loaded t))) = dom (loaded t)"
    using assms wf_tracker_fin by (auto simp: dedup_ranges_def range_order_def)
  have eq: "holders (build_dup ord t) m =
      filter (\<lambda>pk. pk \<in> holder_set t m) (ordLoaded ord (dom (loaded t)))"
    by (simp add: build_dup_def holders_fold_add_pod [OF assms]) (simp add: holders_def)
  show d: "distinct (holders (build_dup ord t) m)" using ord by (simp add: eq)
  show s: "set (holders (build_dup ord t) m) = holder_set t m"
    using ord holder_set_subset [of t m] by (auto simp: eq)
  show "length (holders (build_dup ord t) m) = card (holder_set t m)"
    using distinct_card [OF d] s by simp
qed

definition duplicated :: "tracker \<Rightarrow> string set" where
  "duplicated t = {m. 2 \<le> card (holder_set t m)}"

lemma duplicated_in_dup:
  assumes "wf_tracker t" and "dedup_ranges ord"
  shows "duplicated t \<subseteq> dom (build_dup ord t)"
proof
  fix m assume "m \<in> duplicated t"
  then have "holders (build_dup ord t) m \<noteq> []"
    using holders_build_dup(3) [OF assms, of m] by (auto simp: duplicated_def)
  then show "m \<in> dom (build_dup ord t)" by (auto simp: holders_def split: option.splits)
qed

definition sorted_orders :: dedup_orders where
  "sorted_orders =
     \<lparr>ordLoaded = sorted_list_of_set, ordModels = (\<lambda>_. sorted_list_of_set),
      ordObs = sorted_list_of_set, ordDup = sorted_list_of_set\<rparr>"

lemma dedup_ranges_sorted: "dedup_ranges sorted_orders"
  by (simp add: dedup_ranges_def sorted_orders_def range_order_sorted)

lemma finite_duplicated: "wf_tracker t \<Longrightarrow> finite (duplicated t)"
  using finite_subset [OF duplicated_in_dup finite_dom_build_dup] dedup_ranges_sorted by blast

subsection \<open>The copy that is given up\<close>

lemma lowest_pressure_in: "lowest_pressure pr l s pks \<in> insert l (set pks)"
  by (induction pks arbitrary: l s) (auto simp: Let_def)

lemma pickLoser_in: "hs \<noteq> [] \<Longrightarrow> pickLoser pr hs \<in> set hs"
proof -
  assume "hs \<noteq> []"
  then obtain l ls where s: "sort hs = l # ls" by (metis list.exhaust length_0_conv length_sort)
  then have "set hs = insert l (set ls)" by (metis list.simps(15) set_sort)
  then show ?thesis using lowest_pressure_in [of pr l "pr l" ls] by (simp add: pickLoser_def s)
qed

lemma sort_distinct: "distinct xs \<Longrightarrow> sort xs = sorted_list_of_set (set xs)"
  by (simp add: sorted_list_of_set_sort_remdups distinct_remdups_id)

lemma pickLoser_set:
  assumes "distinct hs" and "distinct hs'" and "set hs = set hs'"
  shows "pickLoser pr hs = pickLoser pr hs'"
  using assms by (simp add: pickLoser_def sort_distinct)

text \<open>
  The loser has the lowest pressure, and the least key among the pods with that pressure. A
  provider that answers NaN for some pod is excluded: NaN is never lower than anything.
\<close>

definition least_loaded :: "(string \<Rightarrow> float64) \<Rightarrow> string set \<Rightarrow> string \<Rightarrow> bool" where
  "least_loaded pr H x \<longleftrightarrow>
     x \<in> H \<and> (\<forall>y \<in> H. \<not> f64_less (pr y) (pr x) \<and> (f64_less (pr x) (pr y) \<or> x \<le> y))"

lemma least_loadedD:
  assumes "least_loaded pr H x" and "y \<in> H"
  shows "\<not> f64_less (pr y) (pr x)" and "f64_less (pr x) (pr y) \<or> x \<le> y"
  using assms unfolding least_loaded_def by blast+

lemma least_loaded_insertI:
  assumes "least_loaded pr H x" and "\<not> f64_less (pr z) (pr x)" and "f64_less (pr x) (pr z) \<or> x \<le> z"
  shows "least_loaded pr (insert z H) x"
  using assms unfolding least_loaded_def by blast

lemma lowest_pressure_least:
  assumes "\<forall>x \<in> set pks. l \<le> x" and "sorted pks" and "\<forall>x \<in> insert l (set pks). pr x \<noteq> NaN"
  shows "least_loaded pr (insert l (set pks)) (lowest_pressure pr l (pr l) pks)"
  using assms
proof (induction pks arbitrary: l)
  case Nil
  then show ?case using f64_less_asym by (auto simp: least_loaded_def)
next
  case (Cons pk pks)
  note nonNaN = Cons.prems(3)
  show ?case
  proof (cases "f64_less (pr pk) (pr l)")
    case True
    let ?x = "lowest_pressure pr pk (pr pk) pks"
    have x: "least_loaded pr (insert pk (set pks)) ?x" using Cons by simp
    have nx: "pr ?x \<noteq> NaN" using nonNaN lowest_pressure_in [of pr pk "pr pk" pks] by auto
    have "f64_less (pr ?x) (pr l)"
      using nx nonNaN True least_loadedD(1) [OF x, of pk]
        f64_less_le_trans [of "pr ?x" "pr l" "pr pk"] by simp
    then have "least_loaded pr (insert l (insert pk (set pks))) ?x"
      using f64_less_asym by (intro least_loaded_insertI [OF x]) simp_all
    then show ?thesis using True by simp
  next
    case False
    let ?x = "lowest_pressure pr l (pr l) pks"
    have x: "least_loaded pr (insert l (set pks)) ?x" using Cons by simp
    have "\<not> f64_less (pr pk) (pr ?x)"
      using nonNaN False least_loadedD(1) [OF x, of l]
        f64_not_less_trans [of "pr l" "pr pk" "pr ?x"] by simp
    moreover have "f64_less (pr ?x) (pr pk) \<or> ?x \<le> pk"
    proof (cases "f64_less (pr ?x) (pr l)")
      case True
      have "pr pk \<noteq> NaN" using nonNaN by simp
      then have "f64_less (pr ?x) (pr pk)" using True False by (rule f64_less_not_less_trans)
      then show ?thesis ..
    next
      case False
      then have "?x \<le> l" using least_loadedD(2) [OF x, of l] by simp
      also have "l \<le> pk" using Cons.prems(1) by simp
      finally show ?thesis ..
    qed
    ultimately have "least_loaded pr (insert pk (insert l (set pks))) ?x"
      by (rule least_loaded_insertI [OF x])
    then show ?thesis using False by (simp add: insert_commute)
  qed
qed

lemma pickLoser_least:
  assumes "hs \<noteq> []" and "\<forall>x \<in> set hs. pr x \<noteq> NaN"
  shows "least_loaded pr (set hs) (pickLoser pr hs)"
proof -
  obtain l ls where s: "sort hs = l # ls" using assms(1) by (metis list.exhaust length_0_conv length_sort)
  then have "set hs = insert l (set ls)" by (metis list.simps(15) set_sort)
  moreover have "sorted ls" "\<forall>x \<in> set ls. l \<le> x"
    using sorted_sort [of hs] unfolding s by (auto simp: strict_sorted_iff)
  ultimately show ?thesis using lowest_pressure_least [of ls l pr] assms(2) by (simp add: pickLoser_def s)
qed

subsection \<open>The counters\<close>

lemma count_dups_obs:
  "distinct ms \<Longrightarrow> fst (count_dups grace dup ms obs ripe) m =
    (if m \<in> set ms \<and> 2 \<le> length (holders dup m) then Some (obs_count obs m + 1) else obs m)"
  by (induction ms arbitrary: obs ripe) (auto simp: Let_def obs_count_def not_less)

lemma count_dups_ripe:
  "distinct ms \<Longrightarrow> snd (count_dups grace dup ms obs ripe) =
    ripe @ map (\<lambda>m. (m, holders dup m))
      (filter (\<lambda>m. 2 \<le> length (holders dup m) \<and> grace \<le> obs_count obs m + 1) ms)"
proof (induction ms arbitrary: obs ripe)
  case (Cons x xs)
  have "filter (\<lambda>m. 2 \<le> length (holders dup m) \<and> grace \<le> obs_count (obs(x \<mapsto> c)) m + 1) xs =
      filter (\<lambda>m. 2 \<le> length (holders dup m) \<and> grace \<le> obs_count obs m + 1) xs" for c
    using Cons.prems by (intro filter_cong) (auto simp: obs_count_def)
  with Cons show ?case by (auto simp: Let_def not_less)
qed simp

text \<open>
  The observations after the counting phase, and the models ripe for unloading, as sets: the
  counter of a duplicated model goes up by one, every other model has none.
\<close>

definition next_obs :: "tracker \<Rightarrow> string \<rightharpoonup> int" where
  "next_obs t m = (if m \<in> duplicated t then Some (obs_count (dupObs t) m + 1) else None)"

definition ripe_models :: "tracker \<Rightarrow> string set" where
  "ripe_models t = {m \<in> duplicated t. dedupGracePolls t \<le> obs_count (dupObs t) m + 1}"

definition ripe_list :: "tracker \<Rightarrow> (string \<times> string list) list" where
  "ripe_list t = map (\<lambda>m. (m, sorted_list_of_set (holder_set t m))) (sorted_list_of_set (ripe_models t))"

definition cleared_obs :: "dedup_orders \<Rightarrow> tracker \<Rightarrow> string \<rightharpoonup> int" where
  "cleared_obs ord t =
     delete_keys (resolved_models (build_dup ord t) (ordObs ord (dom (dupObs t)))) (dupObs t)"

lemma cleared_obs_apply:
  assumes "wf_tracker t" and "dedup_ranges ord"
  shows "cleared_obs ord t m = (if m \<in> duplicated t then dupObs t m else None)"
proof -
  have "set (ordObs ord (dom (dupObs t))) = dom (dupObs t)"
    using assms wf_tracker_fin by (auto simp: dedup_ranges_def range_order_def)
  then show ?thesis
    using holders_build_dup(3) [OF assms, of m]
    by (auto simp: cleared_obs_def delete_keys_apply resolved_models_def duplicated_def dom_def)
qed

lemma count_dups_result:
  assumes "wf_tracker t" and "dedup_ranges ord"
  defines "dup \<equiv> build_dup ord t"
  defines "res \<equiv> count_dups (dedupGracePolls t) dup (ordDup ord (dom dup)) (cleared_obs ord t) []"
  shows "fst res = next_obs t"
    and "snd res = map (\<lambda>m. (m, holders dup m)) (filter (\<lambda>m. m \<in> ripe_models t) (ordDup ord (dom dup)))"
proof -
  have ord: "distinct (ordDup ord (dom dup))" "set (ordDup ord (dom dup)) = dom dup"
    using assms finite_dom_build_dup [OF assms(1,2)] by (auto simp: dedup_ranges_def range_order_def)
  have len: "2 \<le> length (holders dup m) \<longleftrightarrow> m \<in> duplicated t" for m
    by (simp add: dup_def holders_build_dup(3) [OF assms(1,2)] duplicated_def)
  have sub: "duplicated t \<subseteq> dom dup" unfolding dup_def by (rule duplicated_in_dup [OF assms(1,2)])
  note cleared = cleared_obs_apply [OF assms(1,2)]
  show "fst res = next_obs t"
    using sub by (auto simp: res_def count_dups_obs [OF ord(1)] ord(2) len next_obs_def cleared
        obs_count_def fun_eq_iff)
  show "snd res = map (\<lambda>m. (m, holders dup m)) (filter (\<lambda>m. m \<in> ripe_models t) (ordDup ord (dom dup)))"
    by (auto simp: res_def count_dups_ripe [OF ord(1)] len ripe_models_def cleared obs_count_def
        intro!: filter_cong arg_cong [where f = "map _"])
qed

subsection \<open>One pass as a function of sets\<close>

lemma insort_key_tagged:
  "insort_key fst (x, h x) (map (\<lambda>m. (m, h m)) ms) = map (\<lambda>m. (m, h m)) (insort x ms)"
  by (induction ms) auto

lemma sort_key_tagged: "sort_key fst (map (\<lambda>m. (m, h m)) ms) = map (\<lambda>m. (m, h m)) (sort ms)"
  by (induction ms) (simp_all add: insort_key_tagged)

lemma unload_ripe_cong:
  "unload_ripe pr unload ipSnap (map (\<lambda>m. (m, h m)) ms) k t lg =
   unload_ripe pr unload ipSnap (map (\<lambda>m. (m, h' m)) ms) k t lg"
  if "\<And>m. m \<in> set ms \<Longrightarrow> pickLoser pr (h m) = pickLoser pr (h' m)"
  using that by (induction ms arbitrary: k t lg) (auto simp: Let_def split: option.split prod.split)

abbreviation empty_log :: dedup_log where
  "empty_log \<equiv> \<lparr>attempts = [], notified = []\<rparr>"

text \<open>The order in which Go visits its maps does not show in the result of a pass.\<close>

lemma resolveDuplicates_eq:
  assumes "wf_tracker t" and "dedup_ranges ord"
  shows "resolveDuplicates ord pr unload t =
    (if hasPressure t \<and> firstPoll t
     then unload_ripe pr unload (podIP t) (ripe_list t) 0 (t\<lparr>dupObs := next_obs t\<rparr>) empty_log
     else (t, empty_log))"
proof (cases "hasPressure t \<and> firstPoll t")
  case True
  let ?dup = "build_dup ord t"
  let ?ms = "filter (\<lambda>m. m \<in> ripe_models t) (ordDup ord (dom ?dup))"
  have ord: "distinct (ordDup ord (dom ?dup))" "set (ordDup ord (dom ?dup)) = dom ?dup"
    using assms finite_dom_build_dup [OF assms] by (auto simp: dedup_ranges_def range_order_def)
  have "set ?ms = ripe_models t"
    using duplicated_in_dup [OF assms] by (auto simp: ord ripe_models_def)
  then have sort: "sort ?ms = sorted_list_of_set (ripe_models t)"
    using ord by (simp add: sort_distinct)
  have ripe_fin: "finite (ripe_models t)"
    using finite_duplicated [OF assms(1)] by (simp add: ripe_models_def)
  let ?res = "count_dups (dedupGracePolls t) ?dup (ordDup ord (dom ?dup)) (cleared_obs ord t) []"
  obtain obs ripe where res: "?res = (obs, ripe)" by fastforce
  then have obs: "obs = next_obs t" and ripe: "ripe = map (\<lambda>m. (m, holders ?dup m)) ?ms"
    using count_dups_result [OF assms] by simp_all
  have "resolveDuplicates ord pr unload t =
      unload_ripe pr unload (podIP t) (sort_key fst ripe) 0 (t\<lparr>dupObs := next_obs t\<rparr>) empty_log"
    using True res obs by (simp add: resolveDuplicates_def Let_def cleared_obs_def)
  also have "sort_key fst ripe = map (\<lambda>m. (m, holders ?dup m)) (sorted_list_of_set (ripe_models t))"
    by (simp add: ripe sort_key_tagged sort)
  also have "unload_ripe pr unload (podIP t) \<dots> 0 (t\<lparr>dupObs := next_obs t\<rparr>) empty_log =
      unload_ripe pr unload (podIP t) (ripe_list t) 0 (t\<lparr>dupObs := next_obs t\<rparr>) empty_log"
    unfolding ripe_list_def
    by (intro unload_ripe_cong pickLoser_set)
      (simp_all add: holders_build_dup [OF assms] finite_holder_set assms)
  finally show ?thesis using True by simp
qed (auto simp: resolveDuplicates_def Let_def)

text \<open>What the loop over the ripe models does: it stops at the first unload that succeeds.\<close>

fun dedup_scan ::
  "(string \<Rightarrow> float64) \<Rightarrow> (string \<Rightarrow> string \<Rightarrow> unload_error option) \<Rightarrow> (string \<rightharpoonup> string) \<Rightarrow>
   (string \<times> string list) list \<Rightarrow> (string \<times> string) list \<times> (string \<times> string) option" where
  "dedup_scan pr unload ips [] = ([], None)"
| "dedup_scan pr unload ips ((m, hs) # rs) =
     (let l = pickLoser pr hs; ip = (case ips l of None \<Rightarrow> [] | Some ip \<Rightarrow> ip)
      in if l = [] \<or> ip = [] then dedup_scan pr unload ips rs
         else if unload ip m = None then ([(ip, m)], Some (l, m))
         else (case dedup_scan pr unload ips rs of (as, c) \<Rightarrow> ((ip, m) # as, c)))"

lemma unload_ripe_full: "unload_ripe pr unload ips rs 1 t lg = (t, lg)"
  by (cases rs) (auto simp: MaxUnloadsPerCycle_def)

definition apply_choice :: "(string \<times> string) option \<Rightarrow> tracker \<Rightarrow> tracker" where
  "apply_choice c t =
     (case c of None \<Rightarrow> t | Some (l, m) \<Rightarrow> forget_obs m (fst (MarkUnloaded l m t)))"

definition choice_note :: "(string \<times> string) option \<Rightarrow> tracker \<Rightarrow> (string \<times> string) list" where
  "choice_note c t =
     (case c of None \<Rightarrow> []
      | Some (l, m) \<Rightarrow> (case snd (MarkUnloaded l m t) of None \<Rightarrow> [] | Some n \<Rightarrow> [n]))"

lemma unload_ripe_scan:
  "unload_ripe pr unload ips rs 0 t lg =
    (case dedup_scan pr unload ips rs of
       (as, c) \<Rightarrow> (apply_choice c t,
         lg\<lparr>attempts := attempts lg @ as, notified := notified lg @ choice_note c t\<rparr>))"
proof (induction rs arbitrary: lg)
  case Nil
  then show ?case by (simp add: apply_choice_def choice_note_def)
next
  case (Cons r rs)
  obtain m hs where r: "r = (m, hs)" by fastforce
  show ?case
  proof (cases "ips (pickLoser pr hs)")
    case None
    with Cons r show ?thesis by (simp add: Let_def MaxUnloadsPerCycle_def)
  next
    case (Some ip)
    then show ?thesis
      using Cons unload_ripe_full
      by (auto simp: r Let_def MaxUnloadsPerCycle_def apply_choice_def choice_note_def
          split: option.splits prod.splits)
  qed
qed

lemma resolveDuplicates_scan:
  assumes "wf_tracker t" and "dedup_ranges ord" and "hasPressure t" and "firstPoll t"
  shows "resolveDuplicates ord pr unload t =
    (case dedup_scan pr unload (podIP t) (ripe_list t) of
       (as, c) \<Rightarrow> (apply_choice c (t\<lparr>dupObs := next_obs t\<rparr>),
         \<lparr>attempts = as, notified = choice_note c (t\<lparr>dupObs := next_obs t\<rparr>)\<rparr>))"
  using assms by (simp add: resolveDuplicates_eq unload_ripe_scan split: prod.split)

lemma dedup_scan_attempts:
  "(ip, m) \<in> set (fst (dedup_scan pr unload ips rs)) \<Longrightarrow>
   \<exists>hs. (m, hs) \<in> set rs \<and> ips (pickLoser pr hs) = Some ip \<and> ip \<noteq> []"
  by (induction rs) (auto simp: Let_def split: prod.splits option.splits if_splits, blast+)

lemma dedup_scan_choice:
  "snd (dedup_scan pr unload ips rs) = Some (l, m) \<Longrightarrow>
   \<exists>hs ip. (m, hs) \<in> set rs \<and> l = pickLoser pr hs \<and> l \<noteq> [] \<and> ips l = Some ip \<and> ip \<noteq> [] \<and>
     unload ip m = None"
  by (induction rs) (auto simp: Let_def split: prod.splits option.splits if_splits, blast+)

lemma dedup_scan_successes:
  "length (filter (\<lambda>(ip, m). unload ip m = None) (fst (dedup_scan pr unload ips rs))) \<le> 1"
  by (induction rs) (auto simp: Let_def split: prod.splits)

subsection \<open>What a pass does to the holders\<close>

lemma holder_set_cong: "pod_set t = pod_set t' \<Longrightarrow> holder_set t m = holder_set t' m"
  by (simp add: holder_set_def)

lemma pod_set_dupObs [simp]: "pod_set (t\<lparr>dupObs := ob\<rparr>) = pod_set t"
  by (simp add: pod_set_def fun_eq_iff)

lemma holder_set_dupObs [simp]:
  "holder_set (t\<lparr>dupObs := ob\<rparr>) m = holder_set t m" "holder_set (forget_obs n t) m = holder_set t m"
  by (simp_all add: holder_set_def forget_obs_def)

lemma wf_dupObs: "wf_tracker t \<Longrightarrow> finite (dom ob) \<Longrightarrow> wf_tracker (t\<lparr>dupObs := ob\<rparr>)"
  by (simp add: wf_tracker_def)

lemma wf_forget_obs: "wf_tracker t \<Longrightarrow> wf_tracker (forget_obs m t)"
  by (simp add: forget_obs_def wf_dupObs wf_tracker_fin finite_dom_upd)

lemma holder_set_MarkUnloaded:
  "wf_tracker t \<Longrightarrow> holder_set (fst (MarkUnloaded l m t)) n =
    (if n = m \<and> l \<noteq> [] \<and> m \<noteq> [] then holder_set t n - {l} else holder_set t n)"
  by (auto simp: holder_set_def pod_set_MarkUnloaded view_unmark_iff)

lemma holder_set_MarkLoaded:
  "wf_tracker t \<Longrightarrow> holder_set (MarkLoaded l m t) n =
    (if n = m \<and> l \<noteq> [] \<and> m \<noteq> [] then insert l (holder_set t n) else holder_set t n)"
  by (auto simp: holder_set_def pod_set_MarkLoaded view_mark_iff)

lemma holder_set_SetLoaded:
  "wf_tracker t \<Longrightarrow> holder_set (SetLoaded p ms t) m =
    (if m \<in> set ms then insert p (holder_set t m) else holder_set t m - {p})"
  by (auto simp: holder_set_def pod_set_SetLoaded)

lemma finite_dom_next_obs: "wf_tracker t \<Longrightarrow> finite (dom (next_obs t))"
  by (rule finite_subset [OF _ finite_duplicated]) (auto simp: next_obs_def split: if_splits)

lemma ripe_listD:
  "(m, hs) \<in> set (ripe_list t) \<Longrightarrow> wf_tracker t \<Longrightarrow>
   m \<in> ripe_models t \<and> hs = sorted_list_of_set (holder_set t m)"
  using finite_subset [OF _ finite_duplicated, of "ripe_models t" t]
  by (auto simp: ripe_list_def ripe_models_def)

lemma duplicated_holders:
  assumes "wf_tracker t" and "m \<in> duplicated t"
  shows "holder_set t m \<noteq> {}" and "sorted_list_of_set (holder_set t m) \<noteq> []"
    and "set (sorted_list_of_set (holder_set t m)) = holder_set t m"
  using assms finite_holder_set [of t m] by (auto simp: duplicated_def)

text \<open>The pod and model of the one successful unload of a pass.\<close>

lemma choice_facts:
  assumes "wf_tracker t" and "snd (dedup_scan pr unload (podIP t) (ripe_list t)) = Some (l, m)"
  shows "m \<in> ripe_models t" and "l \<in> holder_set t m" and "l \<noteq> []"
    and "l = pickLoser pr (sorted_list_of_set (holder_set t m))"
proof -
  from dedup_scan_choice [OF assms(2)] obtain hs where
    hs: "(m, hs) \<in> set (ripe_list t)" "l = pickLoser pr hs" "l \<noteq> []" by blast
  with ripe_listD [OF hs(1) assms(1)] show "m \<in> ripe_models t" "l \<noteq> []"
    "l = pickLoser pr (sorted_list_of_set (holder_set t m))" by auto
  then show "l \<in> holder_set t m"
    using pickLoser_in duplicated_holders [OF assms(1), of m] by (metis ripe_models_def mem_Collect_eq)
qed

lemma attempt_facts:
  assumes "wf_tracker t" and "dedup_ranges ord"
    and "(ip, m) \<in> set (attempts (snd (resolveDuplicates ord pr unload t)))"
  shows "m \<in> ripe_models t" and "hasPressure t" and "firstPoll t"
    and "podIP t (pickLoser pr (sorted_list_of_set (holder_set t m))) = Some ip" and "ip \<noteq> []"
proof -
  show on: "hasPressure t" "firstPoll t"
    using assms by (auto simp: resolveDuplicates_eq split: if_splits)
  have "(ip, m) \<in> set (fst (dedup_scan pr unload (podIP t) (ripe_list t)))"
    using assms(3) by (simp add: resolveDuplicates_scan [OF assms(1,2) on] split: prod.splits)
  from dedup_scan_attempts [OF this] obtain hs where
    "(m, hs) \<in> set (ripe_list t)" "podIP t (pickLoser pr hs) = Some ip" "ip \<noteq> []" by blast
  then show "m \<in> ripe_models t" "ip \<noteq> []"
    "podIP t (pickLoser pr (sorted_list_of_set (holder_set t m))) = Some ip"
    using ripe_listD [OF _ assms(1)] by auto
qed

lemma wf_apply_choice: "wf_tracker t \<Longrightarrow> wf_tracker (apply_choice c t)"
  by (auto simp: apply_choice_def wf_forget_obs wf_MarkUnloaded split: option.splits)

lemma wf_resolveDuplicates:
  assumes "wf_tracker t" and "dedup_ranges ord"
  shows "wf_tracker (fst (resolveDuplicates ord pr unload t))"
  using assms by (auto simp: resolveDuplicates_eq unload_ripe_scan wf_apply_choice wf_dupObs
      finite_dom_next_obs split: prod.split)

lemma holder_set_apply_choice:
  assumes "wf_tracker t"
  shows "holder_set (apply_choice c t) n =
    (case c of None \<Rightarrow> holder_set t n
     | Some (l, m) \<Rightarrow> if n = m \<and> l \<noteq> [] \<and> m \<noteq> [] then holder_set t n - {l} else holder_set t n)"
  using assms by (auto simp: apply_choice_def holder_set_MarkUnloaded split: option.splits)

text \<open>Either a pass changes no holder, or it takes one pod from one model that two pods have.\<close>

lemma resolve_holders:
  fixes pr :: "string \<Rightarrow> float64" and unload :: "string \<Rightarrow> string \<Rightarrow> unload_error option"
  assumes "wf_tracker t" and "dedup_ranges ord"
  defines "t' \<equiv> fst (resolveDuplicates ord pr unload t)"
  shows "(\<forall>n. holder_set t' n = holder_set t n) \<or>
    (\<exists>l m. m \<in> ripe_models t \<and> l \<in> holder_set t m \<and>
       l = pickLoser pr (sorted_list_of_set (holder_set t m)) \<and>
       holder_set t' m = holder_set t m - {l} \<and> (\<forall>n. n \<noteq> m \<longrightarrow> holder_set t' n = holder_set t n))"
proof (cases "hasPressure t \<and> firstPoll t")
  case True
  obtain as c where sc: "dedup_scan pr unload (podIP t) (ripe_list t) = (as, c)" by fastforce
  have t': "t' = apply_choice c (t\<lparr>dupObs := next_obs t\<rparr>)"
    using True by (simp add: t'_def resolveDuplicates_scan [OF assms(1,2)] sc)
  note h = holder_set_apply_choice [OF wf_dupObs [OF assms(1) finite_dom_next_obs [OF assms(1)]],
      of c, folded t', simplified]
  show ?thesis
  proof (cases c)
    case None
    then show ?thesis by (simp add: h)
  next
    case (Some lm)
    obtain l m where lm: "lm = (l, m)" by fastforce
    with Some sc have "snd (dedup_scan pr unload (podIP t) (ripe_list t)) = Some (l, m)" by simp
    note f = choice_facts [OF assms(1) this]
    show ?thesis
    proof (cases "m = []")
      case True
      then show ?thesis by (auto simp: h Some lm)
    next
      case False
      with f show ?thesis by (intro disjI2 exI [of _ l] exI [of _ m]) (auto simp: h Some lm)
    qed
  qed
qed (use assms in \<open>auto simp: resolveDuplicates_eq\<close>)

end
