(* ===== verification/Tracker_Machine.thy ===== *)
theory Tracker_Machine
  imports Tracker_Dedup
begin

section \<open>The poller among other goroutines\<close>

text \<open>
  \<open>pollOnce\<close> and \<open>resolveDuplicates\<close> of \<open>internal/modeltracker/tracker.go\<close> as the goroutine that
  \<open>Start\<close> runs, one atomic action at a time: an exchange with a server, or a critical section of the
  tracker's mutex. Between any two of its actions the requests of the loader may mark models as loaded
  and retract marks. What the servers answer, the pressures, and the order in which Go visits its
  maps are arbitrary at each action.
\<close>

datatype poll_phase =
  Waiting
| Querying "pod list" "string \<rightharpoonup> ref" "string \<rightharpoonup> string"
| Polled
| Counting "string \<rightharpoonup> string list" "string \<rightharpoonup> string"
| Unloading "(string \<times> string list) list" "string \<rightharpoonup> string" int
| Agreed string string "(string \<times> string list) list" "string \<rightharpoonup> string" int
| Forgetting string "(string \<times> string list) list" "string \<rightharpoonup> string" int

text \<open>
  The requests sent to the servers and the poller's calls of the observer are kept in order. The last two
  fields are history, which no action reads: the holders of each model when the current pass took its
  snapshot, and in how many passes in a row the model was found on two pods since it was last unloaded.
\<close>

record pmachine =
  pmT :: tracker
  pmPhase :: poll_phase
  pmSent :: "(string \<times> string) list"
  pmHeard :: "(string \<times> string) list"
  pmHolders :: "string \<Rightarrow> string set"
  pmStreak :: "string \<Rightarrow> int"

definition note_list :: "(string \<times> string) option \<Rightarrow> (string \<times> string) list" where
  "note_list note = (case note of None \<Rightarrow> [] | Some n \<Rightarrow> [n])"

text \<open>The address of the pod that is asked to unload, or the empty string when the entry is skipped.\<close>

definition loser_ip :: "(string \<rightharpoonup> string) \<Rightarrow> string \<Rightarrow> string" where
  "loser_ip ips l = (if l = [] then [] else case ips l of None \<Rightarrow> [] | Some ip \<Rightarrow> ip)"

definition count_pass ::
  "dedup_orders \<Rightarrow> (string \<rightharpoonup> string list) \<Rightarrow> tracker \<Rightarrow> (string \<rightharpoonup> int) \<times> (string \<times> string list) list" where
  "count_pass ord dup t =
     count_dups (dedupGracePolls t) dup (ordDup ord (dom dup))
       (delete_keys (resolved_models dup (ordObs ord (dom (dupObs t)))) (dupObs t)) []"

inductive poller_step :: "pmachine \<Rightarrow> pmachine \<Rightarrow> bool" where
  list_fail: "pmPhase s = Waiting \<Longrightarrow> poller_step s s"
| list_pods: "pmPhase s = Waiting \<Longrightarrow> poller_step s (s\<lparr>pmPhase := Querying pods Map.empty Map.empty\<rparr>)"
| ask_pod: "pmPhase s = Querying (pod # pods) nxt ips \<Longrightarrow> (\<forall>S. ans = Inr S \<longrightarrow> finite S) \<Longrightarrow>
    poll_pod (\<lambda>_. ans) pod (pmT s, nxt, ips) = (t, nxt', ips') \<Longrightarrow>
    poller_step s (s\<lparr>pmT := t, pmPhase := Querying pods nxt' ips'\<rparr>)"
| swap_maps: "pmPhase s = Querying [] nxt ips \<Longrightarrow>
    poller_step s (s\<lparr>pmT := poll_swap nxt ips (pmT s), pmPhase := Polled\<rparr>)"
| no_pass: "pmPhase s = Polled \<Longrightarrow> \<not> hasPressure (pmT s) \<or> \<not> firstPoll (pmT s) \<Longrightarrow>
    poller_step s (s\<lparr>pmPhase := Waiting\<rparr>)"
| take_snapshot: "pmPhase s = Polled \<Longrightarrow> hasPressure (pmT s) \<Longrightarrow> firstPoll (pmT s) \<Longrightarrow> dedup_ranges ord \<Longrightarrow>
    poller_step s (s\<lparr>pmPhase := Counting (build_dup ord (pmT s)) (podIP (pmT s)),
      pmHolders := holder_set (pmT s)\<rparr>)"
| count: "pmPhase s = Counting dup ips \<Longrightarrow> dedup_ranges ord \<Longrightarrow> count_pass ord dup (pmT s) = (obs, ripe) \<Longrightarrow>
    poller_step s (s\<lparr>pmT := (pmT s)\<lparr>dupObs := obs\<rparr>,
      pmPhase := (if ripe = [] then Waiting else Unloading (sort_key fst ripe) ips 0),
      pmStreak := (\<lambda>m. if 2 \<le> card (pmHolders s m) then pmStreak s m + 1 else 0)\<rparr>)"
| pass_ends: "pmPhase s = Unloading rs ips n \<Longrightarrow> rs = [] \<or> MaxUnloadsPerCycle \<le> n \<Longrightarrow>
    poller_step s (s\<lparr>pmPhase := Waiting\<rparr>)"
| skip: "pmPhase s = Unloading ((m, hs) # rs) ips n \<Longrightarrow> n < MaxUnloadsPerCycle \<Longrightarrow>
    loser_ip ips (pickLoser pr hs) = [] \<Longrightarrow> poller_step s (s\<lparr>pmPhase := Unloading rs ips n\<rparr>)"
| refused: "pmPhase s = Unloading ((m, hs) # rs) ips n \<Longrightarrow> n < MaxUnloadsPerCycle \<Longrightarrow>
    loser_ip ips (pickLoser pr hs) = ip \<Longrightarrow> ip \<noteq> [] \<Longrightarrow>
    poller_step s (s\<lparr>pmPhase := Unloading rs ips n, pmSent := pmSent s @ [(ip, m)]\<rparr>)"
| agreed: "pmPhase s = Unloading ((m, hs) # rs) ips n \<Longrightarrow> n < MaxUnloadsPerCycle \<Longrightarrow>
    pickLoser pr hs = l \<Longrightarrow> loser_ip ips l = ip \<Longrightarrow> ip \<noteq> [] \<Longrightarrow>
    poller_step s (s\<lparr>pmPhase := Agreed l m rs ips n, pmSent := pmSent s @ [(ip, m)]\<rparr>)"
| retract: "pmPhase s = Agreed l m rs ips n \<Longrightarrow> MarkUnloaded l m (pmT s) = (t, note) \<Longrightarrow>
    poller_step s (s\<lparr>pmT := t, pmPhase := Forgetting m rs ips n, pmHeard := pmHeard s @ note_list note\<rparr>)"
| forget: "pmPhase s = Forgetting m rs ips n \<Longrightarrow>
    poller_step s (s\<lparr>pmT := forget_obs m (pmT s), pmPhase := Unloading rs ips (n + 1),
      pmStreak := (pmStreak s)(m := 0)\<rparr>)"

text \<open>The requests of the loader.\<close>

inductive other_step :: "pmachine \<Rightarrow> pmachine \<Rightarrow> bool" where
  mark: "other_step s (s\<lparr>pmT := MarkLoaded p m (pmT s)\<rparr>)"
| unmark: "MarkUnloaded p m (pmT s) = (t, note) \<Longrightarrow>
    other_step s (s\<lparr>pmT := t\<rparr>)"

inductive_simps mark_simp: "other_step s s'"

definition pm_start :: "options \<Rightarrow> bool \<Rightarrow> pmachine" where
  "pm_start opts observed =
     \<lparr>pmT = SetUnloadObserver observed (NewTracker opts), pmPhase = Waiting, pmSent = [], pmHeard = [],
      pmHolders = (\<lambda>_. {}), pmStreak = (\<lambda>_. 0)\<rparr>"

inductive preach :: "pmachine \<Rightarrow> bool" where
  init: "preach (pm_start opts observed)"
| poller: "preach s \<Longrightarrow> poller_step s s' \<Longrightarrow> preach s'"
| other: "preach s \<Longrightarrow> other_step s s' \<Longrightarrow> preach s'"

subsection \<open>The invariant\<close>

text \<open>The addresses the tracker keeps are the pods' keys.\<close>

definition own_ips :: "(string \<rightharpoonup> string) \<Rightarrow> bool" where
  "own_ips ips \<longleftrightarrow> (\<forall>p. ips p = None \<or> ips p = Some p)"

text \<open>
  A ripe entry carries the pods that held the model at the snapshot, two of them or more, and its
  model has been duplicated in as many passes in a row as the grace asks for.
\<close>

definition ripe_entry :: "pmachine \<Rightarrow> string \<times> string list \<Rightarrow> bool" where
  "ripe_entry s e \<longleftrightarrow>
     (case e of (m, hs) \<Rightarrow>
        distinct hs \<and> set hs = pmHolders s m \<and> 2 \<le> length hs \<and> dedupGracePolls (pmT s) \<le> pmStreak s m)"

fun phase_ok :: "pmachine \<Rightarrow> poll_phase \<Rightarrow> bool" where
  "phase_ok s Waiting = True"
| "phase_ok s (Querying pods nxt ips) = (poll_inv (pmT s) nxt \<and> own_ips ips)"
| "phase_ok s Polled = True"
| "phase_ok s (Counting dup ips) =
     (own_ips ips \<and> finite (dom dup) \<and>
      (\<forall>m. distinct (holders dup m) \<and> set (holders dup m) = pmHolders s m))"
| "phase_ok s (Unloading rs ips n) =
     (own_ips ips \<and> 0 \<le> n \<and> (n < MaxUnloadsPerCycle \<longrightarrow> (\<forall>e \<in> set rs. ripe_entry s e)))"
| "phase_ok s (Agreed l m rs ips n) = (own_ips ips \<and> n = 0)"
| "phase_ok s (Forgetting m rs ips n) = (own_ips ips \<and> n = 0)"

definition pinv :: "pmachine \<Rightarrow> bool" where
  "pinv s \<longleftrightarrow>
     wf_tracker (pmT s) \<and> own_ips (podIP (pmT s)) \<and> (\<forall>m. obs_count (dupObs (pmT s)) m = pmStreak s m) \<and>
     phase_ok s (pmPhase s)"

lemma MarkLoaded_frame:
  "dupObs (MarkLoaded p m t) = dupObs t" "podIP (MarkLoaded p m t) = podIP t"
  "dedupGracePolls (MarkLoaded p m t) = dedupGracePolls t"
  by (auto simp: MarkLoaded_def link_set_def Let_def split: option.split prod.split)

lemma MarkUnloaded_frame:
  "MarkUnloaded p m t = (t', note) \<Longrightarrow> dupObs t' = dupObs t \<and> podIP t' = podIP t \<and>
     dedupGracePolls t' = dedupGracePolls t \<and> loaded t' = loaded t \<and> nextRef t' = nextRef t"
  by (auto simp: MarkUnloaded_def split: if_splits option.splits)

lemma poll_inv_MarkLoaded:
  assumes "poll_inv t nxt"
  shows "poll_inv (MarkLoaded p m t) nxt"
proof (cases "p = [] \<or> m = []")
  case False
  note wf = poll_inv_wf [OF assms]
  show ?thesis
  proof (cases "loaded t p")
    case (Some r)
    with False assms wf_MarkLoaded [OF wf, of p m] show ?thesis
      by (auto simp: MarkLoaded_known intro!: poll_invI dest: poll_inv_ref poll_inv_set poll_inv_loaded poll_inv_inj
          simp: poll_inv_fin)
  next
    case None
    with False assms wf_MarkLoaded [OF wf, of p m] show ?thesis
      by (auto simp: MarkLoaded_new link_set_def poll_inv_fin intro!: poll_invI
          dest: poll_inv_ref poll_inv_set poll_inv_loaded poll_inv_inj split: if_splits)
  qed
qed (use assms in \<open>simp add: MarkLoaded_noop\<close>)

lemma poll_inv_MarkUnloaded:
  assumes "poll_inv t nxt" and "MarkUnloaded p m t = (t', note)"
  shows "poll_inv t' nxt"
proof (rule poll_invI)
  show "wf_tracker t'" using wf_MarkUnloaded [OF poll_inv_wf [OF assms(1)], of p m] assms(2) by simp
  show "finite (sets t' r)" if "nxt q = Some r" for q r
    using assms that by (auto simp: MarkUnloaded_def split: if_splits option.splits dest: poll_inv_set)
qed (use assms(1) MarkUnloaded_frame [OF assms(2)] in
    \<open>auto simp: poll_inv_fin dest: poll_inv_ref poll_inv_loaded poll_inv_inj\<close>)

lemma ripe_entry_cong:
  "pmHolders s' = pmHolders s \<Longrightarrow> pmStreak s' = pmStreak s \<Longrightarrow>
   dedupGracePolls (pmT s') = dedupGracePolls (pmT s) \<Longrightarrow> ripe_entry s' = ripe_entry s"
  by (auto simp: ripe_entry_def fun_eq_iff)

lemma pinv_start: "pinv (pm_start opts observed)"
  by (simp add: pinv_def pm_start_def wf_tracker_ops own_ips_def)
    (simp add: SetUnloadObserver_def NewTracker_def obs_count_def)

lemma pinv_other:
  assumes "other_step s s'" and "pinv s"
  shows "pinv s'"
  using assms(1)
proof cases
  case (mark p m)
  have "ripe_entry s' = ripe_entry s" by (rule ripe_entry_cong) (simp_all add: mark MarkLoaded_frame)
  with assms(2) show ?thesis
    by (cases "pmPhase s") (simp_all add: pinv_def mark MarkLoaded_frame wf_MarkLoaded poll_inv_MarkLoaded)
next
  case (unmark p m t nt)
  note frame = MarkUnloaded_frame [OF unmark(2)]
  have wf: "wf_tracker t"
    using wf_MarkUnloaded [of "pmT s" p m] assms(2) unmark(2) by (simp add: pinv_def)
  have "ripe_entry s' = ripe_entry s" by (rule ripe_entry_cong) (simp_all add: unmark frame)
  with assms(2) wf show ?thesis
    by (cases "pmPhase s") (simp_all add: pinv_def unmark(1) frame poll_inv_MarkUnloaded [OF _ unmark(2)])
qed

lemma own_ips_upd: "own_ips ips \<Longrightarrow> own_ips (ips(p \<mapsto> p))"
  by (simp add: own_ips_def)

lemma poll_pod_more:
  assumes "poll_pod query pod (t, nxt, ips) = (t', nxt', ips')"
  shows "podIP t' = podIP t" and "own_ips ips \<Longrightarrow> own_ips ips'" and "loaded t' = loaded t"
  using assms own_ips_upd
  by (auto simp: poll_pod_def Let_def split: if_splits sum.splits option.splits)

text \<open>What the counting phase makes of the counters and which entries it passes on.\<close>

lemma count_pass_facts:
  assumes "dedup_ranges ord" and "finite (dom dup)" and "finite (dom (dupObs t))"
    and "count_pass ord dup t = (obs, ripe)"
  shows "obs m = (if 2 \<le> length (holders dup m) then Some (obs_count (dupObs t) m + 1) else None)"
    and "finite (dom obs)"
    and "(m, hs) \<in> set ripe \<Longrightarrow> hs = holders dup m \<and> 2 \<le> length hs \<and>
      dedupGracePolls t \<le> obs_count (dupObs t) m + 1"
proof -
  let ?ms = "ordDup ord (dom dup)"
  let ?obs = "delete_keys (resolved_models dup (ordObs ord (dom (dupObs t)))) (dupObs t)"
  have ord: "distinct ?ms" "set ?ms = dom dup" "set (ordObs ord (dom (dupObs t))) = dom (dupObs t)"
    using assms(1-3) by (auto simp: dedup_ranges_def range_order_def)
  have res: "count_dups (dedupGracePolls t) dup ?ms ?obs [] = (obs, ripe)"
    using assms(4) by (simp add: count_pass_def)
  have dom: "2 \<le> length (holders dup m) \<Longrightarrow> m \<in> dom dup" for m
    by (auto simp: holders_def split: option.splits)
  have cleared: "?obs m = (if 2 \<le> length (holders dup m) then dupObs t m else None)" for m
    using ord(3) by (auto simp: delete_keys_apply resolved_models_def dom_def)
  show obs: "obs m = (if 2 \<le> length (holders dup m) then Some (obs_count (dupObs t) m + 1) else None)" for m
    using count_dups_obs [OF ord(1), of "dedupGracePolls t" dup ?obs "[]" m] res dom [of m] cleared [of m]
    by (auto simp: ord(2) obs_count_def split: if_splits)
  have "dom obs \<subseteq> dom dup"
  proof
    fix x assume "x \<in> dom obs"
    then show "x \<in> dom dup" using dom [of x] obs [of x] by (auto split: if_splits)
  qed
  then show "finite (dom obs)" using assms(2) by (rule finite_subset)
  assume "(m, hs) \<in> set ripe"
  then show "hs = holders dup m \<and> 2 \<le> length hs \<and> dedupGracePolls t \<le> obs_count (dupObs t) m + 1"
    using count_dups_ripe [OF ord(1), of "dedupGracePolls t" dup ?obs "[]"] res cleared [of m]
    by (auto simp: obs_count_def split: if_splits)
qed

lemma pinv_count:
  assumes inv: "pinv s" and ph: "pmPhase s = Counting dup ips" and ord: "dedup_ranges ord"
    and res: "count_pass ord dup (pmT s) = (obs, ripe)"
  shows "pinv (s\<lparr>pmT := (pmT s)\<lparr>dupObs := obs\<rparr>,
    pmPhase := (if ripe = [] then Waiting else Unloading (sort_key fst ripe) ips 0),
    pmStreak := (\<lambda>m. if 2 \<le> card (pmHolders s m) then pmStreak s m + 1 else 0)\<rparr>)" (is "pinv ?s")
proof -
  have wf: "wf_tracker (pmT s)" and streak: "\<And>m. obs_count (dupObs (pmT s)) m = pmStreak s m"
    and dup: "own_ips ips" "finite (dom dup)" "\<And>m. distinct (holders dup m)" "\<And>m. set (holders dup m) = pmHolders s m"
    using inv ph by (simp_all add: pinv_def)
  note c = count_pass_facts [OF ord dup(2) wf_tracker_fin(2) [OF wf] res]
  have card: "length (holders dup m) = card (pmHolders s m)" for m
    using distinct_card [OF dup(3)] by (simp add: dup(4))
  have "ripe_entry ?s e" if "e \<in> set ripe" for e
  proof -
    obtain m hs where e: "e = (m, hs)" by fastforce
    from that have "(m, hs) \<in> set ripe" by (simp add: e)
    from c(3) [OF this] have "hs = holders dup m" "2 \<le> length hs" "dedupGracePolls (pmT s) \<le> pmStreak s m + 1"
      by (auto simp: streak)
    then show ?thesis using dup(3,4) card by (simp add: ripe_entry_def e)
  qed
  then show ?thesis
    using inv wf_dupObs [OF wf c(2)] dup(1)
    by (cases "ripe = []") (auto simp: pinv_def c(1) card obs_count_def [of obs] streak)
qed

lemma pinv_poller:
  assumes "poller_step s s'" and "pinv s"
  shows "pinv s'"
  using assms(1)
proof cases
  case (ask_pod pod pods nxt ips ans t nxt' ips')
  note frame = poll_pod_frame [OF ask_pod(4)] poll_pod_more [OF ask_pod(4)]
  have inv: "poll_inv (pmT s) nxt" using assms(2) ask_pod(2) by (simp add: pinv_def)
  have "poll_inv t nxt'" using poll_inv_pod [OF inv _ ask_pod(4)] ask_pod(3) by simp
  with assms(2) ask_pod(1,2) frame poll_inv_wf [OF this] show ?thesis by (simp add: pinv_def)
next
  case (swap_maps nxt ips)
  with assms(2) wf_poll_swap [of "pmT s" nxt ips] show ?thesis
    by (simp add: pinv_def) (simp add: poll_swap_def)
next
  case (take_snapshot ord)
  with assms(2) holders_build_dup [of "pmT s" ord] finite_dom_build_dup [of "pmT s" ord] show ?thesis
    by (simp add: pinv_def)
next
  case (count dup ips ord obs ripe)
  show ?thesis unfolding count(1) by (rule pinv_count [OF assms(2) count(2-4)])
next
  case (skip m hs rs ips n pr)
  have "ripe_entry s' = ripe_entry s" by (rule ripe_entry_cong) (simp_all add: skip(1))
  with assms(2) skip(1-3) show ?thesis by (simp add: pinv_def)
next
  case (refused m hs rs ips n pr ip)
  have "ripe_entry s' = ripe_entry s" by (rule ripe_entry_cong) (simp_all add: refused(1))
  with assms(2) refused(1-3) show ?thesis by (simp add: pinv_def)
next
  case (agreed m hs rs ips n pr l ip)
  with assms(2) show ?thesis by (simp add: pinv_def MaxUnloadsPerCycle_def)
next
  case (retract l m rs ips n t nt)
  have "wf_tracker t"
    using wf_MarkUnloaded [of "pmT s" l m] assms(2) retract(3) by (simp add: pinv_def)
  with assms(2) retract(1,2) MarkUnloaded_frame [OF retract(3)] show ?thesis by (simp add: pinv_def)
next
  case (forget m rs ips n)
  with assms(2) wf_forget_obs [of "pmT s" m] show ?thesis
    by (simp add: pinv_def MaxUnloadsPerCycle_def) (simp add: forget_obs_def obs_count_def)
qed (use assms(2) in \<open>simp_all add: pinv_def own_ips_def poll_inv_start\<close>)

lemma preach_pinv: "preach s \<Longrightarrow> pinv s"
  by (induction rule: preach.induct) (blast intro: pinv_start pinv_poller pinv_other)+

subsection \<open>What a request to unload is based on\<close>

lemma loser_ip_own: "own_ips ips \<Longrightarrow> loser_ip ips l = ip \<Longrightarrow> ip \<noteq> [] \<Longrightarrow> l = ip"
  by (auto simp: loser_ip_def own_ips_def split: if_splits option.splits) (metis option.distinct(1) option.inject)

lemma request_facts:
  assumes "preach s" and "pmPhase s = Unloading ((m, hs) # rs) ips n" and "n < MaxUnloadsPerCycle"
    and "loser_ip ips (pickLoser pr hs) = ip" and "ip \<noteq> []"
  shows "ip \<in> pmHolders s m \<and> 2 \<le> card (pmHolders s m) \<and> dedupGracePolls (pmT s) \<le> pmStreak s m"
proof -
  have ok: "own_ips ips" "distinct hs" "set hs = pmHolders s m" "2 \<le> length hs"
    "dedupGracePolls (pmT s) \<le> pmStreak s m"
    using preach_pinv [OF assms(1)] assms(2,3) by (simp_all add: pinv_def ripe_entry_def)
  have "pickLoser pr hs = ip" by (rule loser_ip_own [OF ok(1) assms(4,5)])
  moreover have "hs \<noteq> []" using ok(4) by auto
  ultimately have "ip \<in> set hs" using pickLoser_in by metis
  then show ?thesis using ok distinct_card [OF ok(2)] by simp
qed

text \<open>C6: what every request to unload rests on, however the loader's marks and retractions fall between the
  actions of the poller: at the snapshot of the running pass the pod that is asked held the model,
  so did another pod, and the model was found on two pods in at least as many passes in a row as the
  grace asks for. Nothing is read again before the request is sent.\<close>

theorem unload_needs_two_holders:
  assumes "preach s" and "poller_step s s'" and "pmSent s' = pmSent s @ [(ip, m)]"
  shows "ip \<in> pmHolders s m \<and> (\<exists>q \<in> pmHolders s m. q \<noteq> ip) \<and> dedupGracePolls (pmT s) \<le> pmStreak s m"
proof -
  have "ip \<in> pmHolders s m \<and> 2 \<le> card (pmHolders s m) \<and> dedupGracePolls (pmT s) \<le> pmStreak s m"
    using assms(2)
  proof cases
    case (refused m' hs rs ips n pr ip')
    with assms(3) request_facts [OF assms(1) refused(2-5)] show ?thesis by simp
  next
    case (agreed m' hs rs ips n pr l ip')
    with assms(3) request_facts [OF assms(1) agreed(2,3), of pr ip'] show ?thesis by simp
  qed (use assms(3) in simp_all)
  moreover from this have "\<not> pmHolders s m \<subseteq> {ip}" using card_mono [of "{ip}" "pmHolders s m"] by auto
  ultimately show ?thesis by blast
qed

subsection \<open>A poll ends\<close>

text \<open>How much is left of a poll: a stage, and a number of actions within it.\<close>

fun poll_left :: "poll_phase \<Rightarrow> nat \<times> nat" where
  "poll_left Waiting = (0, 0)"
| "poll_left (Querying pods nxt ips) = (4, length pods)"
| "poll_left Polled = (3, 0)"
| "poll_left (Counting dup ips) = (2, 0)"
| "poll_left (Unloading rs ips n) = (1, 3 * length rs)"
| "poll_left (Agreed l m rs ips n) = (1, 3 * length rs + 2)"
| "poll_left (Forgetting m rs ips n) = (1, 3 * length rs + 1)"

definition less_left :: "(poll_phase \<times> poll_phase) set" where
  "less_left = inv_image (less_than <*lex*> less_than) poll_left"

lemma wf_less_left: "wf less_left"
  by (simp add: less_left_def wf_lex_prod)

lemma other_phase: "other_step s s' \<Longrightarrow> pmPhase s' = pmPhase s"
  by (auto simp: mark_simp)

lemma poller_decreases: "poller_step s s' \<Longrightarrow> pmPhase s \<noteq> Waiting \<Longrightarrow> (pmPhase s', pmPhase s) \<in> less_left"
  by (induction rule: poller_step.induct) (auto simp: less_left_def)

lemma poller_enabled: "\<exists>s'. poller_step s s'"
proof (cases "pmPhase s")
  case (Querying pods nxt ips)
  show ?thesis
  proof (cases pods)
    case (Cons pod ps)
    obtain t nxt' ips' where "poll_pod (\<lambda>_. Inl (DoRequest [])) pod (pmT s, nxt, ips) = (t, nxt', ips')"
      by (metis prod_cases3)
    with Cons Querying show ?thesis by (blast intro: ask_pod [of s pod ps nxt ips "Inl (DoRequest [])"])
  qed (use Querying swap_maps in blast)
next
  case (Counting dup ips)
  obtain obs ripe where "count_pass sorted_orders dup (pmT s) = (obs, ripe)" by fastforce
  with count [OF Counting dedup_ranges_sorted] show ?thesis by blast
next
  case (Unloading rs ips n)
  show ?thesis
  proof (cases "rs = [] \<or> MaxUnloadsPerCycle \<le> n")
    case False
    then obtain m hs rs' where rs: "rs = (m, hs) # rs'" "n < MaxUnloadsPerCycle" by (cases rs) auto
    then show ?thesis
      using skip [of s m hs rs' ips n "\<lambda>_. Fin 0"] refused [of s m hs rs' ips n "\<lambda>_. Fin 0"] Unloading by blast
  qed (use Unloading pass_ends in blast)
next
  case (Agreed l m rs ips n)
  then show ?thesis using retract by (metis surj_pair)
qed (use list_fail no_pass take_snapshot dedup_ranges_sorted forget in blast)+

text \<open>C27: a poll always comes to its end. In every run in which the poller acts again and again, however the
  loader's requests interleave, whatever the servers answer and however many models are ripe, it is
  back to waiting for its next tick infinitely often; and it is never stuck.\<close>

theorem poll_ends:
  assumes "\<forall>i. poller_step (f i) (f (Suc i)) \<or> other_step (f i) (f (Suc i))"
    and "\<forall>i. \<exists>j \<ge> i. poller_step (f j) (f (Suc j))"
  shows "(\<exists>j \<ge> i. pmPhase (f j) = Waiting) \<and> (\<exists>s'. poller_step (f i) s')"
proof
  show "\<exists>j \<ge> i. pmPhase (f j) = Waiting"
  proof (induction "pmPhase (f i)" arbitrary: i rule: wf_induct_rule [OF wf_less_left])
    case 1
    define j where "j = (LEAST j. i \<le> j \<and> poller_step (f j) (f (Suc j)))"
    have j: "i \<le> j \<and> poller_step (f j) (f (Suc j))"
      unfolding j_def by (rule LeastI_ex) (use assms(2) in blast)
    have before: "other_step (f k) (f (Suc k))" if "i \<le> k" "k < j" for k
      using assms(1) not_less_Least [of k "\<lambda>j. i \<le> j \<and> poller_step (f j) (f (Suc j))"] that
      unfolding j_def by blast
    have keep: "i \<le> k \<Longrightarrow> k \<le> j \<Longrightarrow> pmPhase (f k) = pmPhase (f i)" for k
      by (induction k rule: dec_induct) (use before other_phase in fastforce)+
    show ?case
    proof (cases "pmPhase (f i) = Waiting")
      case False
      with poller_decreases [of "f j" "f (Suc j)"] j keep [of j]
      have "(pmPhase (f (Suc j)), pmPhase (f i)) \<in> less_left" by simp
      from "1.hyps" [OF this] j show ?thesis by (meson Suc_leD le_trans)
    qed auto
  qed
qed (rule poller_enabled)

subsection \<open>Marks made while a poll is under way\<close>

text \<open>Later states of the same poll, before it exchanges the maps.\<close>

inductive same_poll :: "pmachine \<Rightarrow> pmachine \<Rightarrow> bool" where
  same_here: "same_poll s s"
| same_step: "same_poll s s' \<Longrightarrow> poller_step s' s'' \<or> other_step s' s'' \<Longrightarrow>
    pmPhase s'' = Querying pods nxt ips \<Longrightarrow> same_poll s s''"

text \<open>A pod whose turn is over: what the poll will show of it.\<close>

datatype turn = Unknown | Kept ref | Answered ref "string set"

fun turn_holds :: "turn \<Rightarrow> string \<Rightarrow> tracker \<Rightarrow> (string \<rightharpoonup> ref) \<Rightarrow> bool" where
  "turn_holds Unknown k t nxt = (nxt k = None)"
| "turn_holds (Kept r) k t nxt = (nxt k = Some r \<and> loaded t k = Some r)"
| "turn_holds (Answered r S) k t nxt = (nxt k = Some r \<and> loaded t k \<noteq> Some r \<and> sets t r = S)"

definition turn_over :: "turn \<Rightarrow> string \<Rightarrow> pmachine \<Rightarrow> bool" where
  "turn_over v k s \<longleftrightarrow>
     (\<exists>pods nxt ips. pmPhase s = Querying pods nxt ips \<and> k \<notin> listed_ips pods \<and> turn_holds v k (pmT s) nxt)"

lemma poll_inv_answered:
  assumes "poll_inv t nxt" and "nxt k = Some r" and "loaded t k \<noteq> Some r"
  shows "loaded t q \<noteq> Some r" "r \<noteq> nextRef t"
  using assms poll_inv_loaded [OF assms(1,2), of q] poll_inv_fresh [OF assms(1), of k] by auto

lemma turn_MarkLoaded:
  assumes "poll_inv t nxt" and "turn_holds v k t nxt"
  shows "turn_holds v k (MarkLoaded p m t) nxt"
proof (cases "p = [] \<or> m = []")
  case False
  then show ?thesis
    using assms(2) poll_inv_answered [OF assms(1)] poll_inv_fresh [OF assms(1), of k] poll_inv_fresh [OF assms(1), of p]
    by (cases v; cases "loaded t p") (auto simp: MarkLoaded_known MarkLoaded_new link_set_def)
qed (use assms in \<open>simp add: MarkLoaded_noop\<close>)

lemma turn_MarkUnloaded:
  assumes "poll_inv t nxt" and "turn_holds v k t nxt" and "MarkUnloaded p m t = (t', note)"
  shows "turn_holds v k t' nxt"
  using assms(2,3) poll_inv_answered(1) [OF assms(1)]
  by (cases v) (auto simp: MarkUnloaded_def split: if_splits option.splits)

lemma turn_poll_pod:
  assumes "poll_inv t nxt" and "turn_holds v k t nxt" and "k \<notin> listed_ips (pod # pods)"
    and "poll_pod query pod (t, nxt, ips) = (t', nxt', ips')"
  shows "turn_holds v k t' nxt' \<and> k \<notin> listed_ips pods"
proof -
  have "PodIP pod = [] \<or> PodIP pod \<noteq> k" "k \<notin> listed_ips pods" using assms(3) by (auto simp: listed_ips_def)
  then show ?thesis
    using assms(2,4) poll_inv_fresh [OF assms(1), of k]
    by (cases v) (auto simp: poll_pod_def Let_def split: if_splits sum.splits option.splits)
qed

lemma turn_step:
  assumes "poller_step s s' \<or> other_step s s'" and "pinv s" and "turn_over v k s"
    and "pmPhase s' = Querying pods' nxt' ips'"
  shows "turn_over v k s'"
proof -
  obtain pods nxt ips where q: "pmPhase s = Querying pods nxt ips" "k \<notin> listed_ips pods" "turn_holds v k (pmT s) nxt"
    using assms(3) by (auto simp: turn_over_def)
  have inv: "poll_inv (pmT s) nxt" using assms(2) q(1) by (simp add: pinv_def)
  from assms(1) show ?thesis
  proof
    assume "poller_step s s'"
    then show ?thesis
    proof cases
      case (ask_pod pod ps nxt0 ips0 ans t nxt1 ips1)
      with q turn_poll_pod [OF inv q(3) _ ] show ?thesis by (auto simp: turn_over_def)
    qed (use q(1) assms(4) in \<open>auto split: if_splits\<close>)
  next
    assume "other_step s s'"
    then show ?thesis
      by cases (use q inv turn_MarkLoaded [OF inv q(3)] turn_MarkUnloaded [OF inv q(3)] in
          \<open>auto simp: turn_over_def\<close>)
  qed
qed

lemma turn_same_poll:
  assumes "same_poll s s'" and "preach s" and "turn_over v k s"
  shows "preach s' \<and> turn_over v k s'"
  using assms
proof (induction rule: same_poll.induct)
  case (same_step s s' s'' pods nxt ips)
  then have IH: "preach s'" "turn_over v k s'" by blast+
  then have "preach s''" using same_step.hyps(2) preach.poller preach.other by blast
  with turn_step [OF same_step.hyps(2) preach_pinv [OF IH(1)] IH(2) same_step.hyps(3)] show ?case by blast
qed blast

text \<open>C7: what becomes of marks made while a poll is under way. Once a pod had its turn, a pod that answered will be
  shown with the models it answered then, and a pod that was unknown and silent will be shown with
  none, whatever was marked or retracted on it until the maps are exchanged; only on a pod that was
  known and silent do the marks survive. So a request that marks its pod between the pod's answer and
  the end of the poll is undone by that poll, and the next request finds the pod cold.\<close>

theorem marks_during_poll:
  assumes "preach s" and "pmPhase s = Querying pods nxt ips" and "k \<notin> listed_ips pods"
    and "same_poll s s'" and "pmPhase s' = Querying [] nxt' ips'" and "poller_step s' s''"
  shows "IsLoaded (pmT s'') k m \<longleftrightarrow>
    (case nxt k of
       None \<Rightarrow> False
     | Some r \<Rightarrow> if loaded (pmT s) k = Some r then IsLoaded (pmT s') k m else m \<in> sets (pmT s) r)"
proof -
  define v where "v = (case nxt k of None \<Rightarrow> Unknown
    | Some r \<Rightarrow> if loaded (pmT s) k = Some r then Kept r else Answered r (sets (pmT s) r))"
  have "turn_over v k s" using assms(2,3) by (auto simp: turn_over_def v_def split: option.split)
  from turn_same_poll [OF assms(4,1) this] assms(5)
  have reach: "preach s'" and holds: "turn_holds v k (pmT s') nxt'" by (auto simp: turn_over_def)
  note inv = preach_pinv [OF reach]
  have wf': "wf_tracker (pmT s')" using inv by (simp add: pinv_def)
  have t'': "pmT s'' = poll_swap nxt' ips' (pmT s')"
    using assms(6) by cases (use assms(5) in simp_all)
  have wf'': "wf_tracker (pmT s'')" using inv assms(5) wf_poll_swap by (simp add: pinv_def t'')
  have loaded'': "IsLoaded (pmT s'') k m \<longleftrightarrow> (\<exists>r. nxt' k = Some r \<and> m \<in> sets (pmT s') r)"
    unfolding IsLoaded_view [OF wf''] unfolding t'' pod_set_poll_swap by auto
  show ?thesis
  proof (cases "nxt k")
    case None
    with holds loaded'' show ?thesis by (simp add: v_def)
  next
    case (Some r)
    with holds loaded'' show ?thesis
      by (auto simp: v_def IsLoaded_view [OF wf'] pod_set_apply split: if_splits)
  qed
qed

subsection \<open>Runs of the machine\<close>

definition grace_one :: options where
  "grace_one =
     \<lparr>oNamespace = [], oPodSelector = Map.empty, oPodPort = 8080, oQueryPath = ''/models'', oUnloadPath = [],
      oPollInterval = 0, oPollTimeout = 0, oPressure = True, oDedupGracePolls = 1\<rparr>"

definition demo_server :: "string \<Rightarrow> pod" where
  "demo_server ip =
     \<lparr>PodName = ''llama'' @ ip, PodNamespace = ''llm'', PodLabels = Map.empty, NodeName = ''gpu-1'',
      Containers = [], Phase = PodRunning, PodIP = ip\<rparr>"

lemma demo_server_ip [simp]: "PodIP (demo_server ip) = ip"
  by (simp add: demo_server_def)

abbreviation demo_pm :: pmachine where
  "demo_pm \<equiv> pm_start grace_one True"

text \<open>The pod answers that it has no model, and then a request marks \<open>llama\<close> on it.\<close>

definition demo_answered :: pmachine where
  "demo_answered = demo_pm\<lparr>pmT := add_set {} (pmT demo_pm),
     pmPhase := Querying [] [''10.0.0.1'' \<mapsto> 0] [''10.0.0.1'' \<mapsto> ''10.0.0.1'']\<rparr>"

definition demo_late_mark :: pmachine where
  "demo_late_mark = demo_answered\<lparr>pmT := MarkLoaded ''10.0.0.1'' ''llama'' (pmT demo_answered)\<rparr>"

lemma demo_answered_reach: "preach demo_answered"
proof -
  let ?s = "demo_pm\<lparr>pmPhase := Querying [demo_server ''10.0.0.1''] Map.empty Map.empty\<rparr>"
  have s: "preach ?s"
    by (rule preach.poller [OF preach.init]) (rule list_pods, simp add: pm_start_def)
  have "poller_step ?s demo_answered"
    using ask_pod [of ?s "demo_server ''10.0.0.1''" "[]" Map.empty Map.empty "Inr {}"]
    by (simp add: poll_pod_def demo_answered_def Let_def pm_start_def NewTracker_def SetUnloadObserver_def)
  with s show ?thesis by (rule preach.poller)
qed

theorem marks_during_poll_witness:
  "\<exists>s''. same_poll demo_answered demo_late_mark \<and> poller_step demo_late_mark s'' \<and>
    IsLoaded (pmT demo_late_mark) ''10.0.0.1'' ''llama'' \<and> \<not> IsLoaded (pmT s'') ''10.0.0.1'' ''llama''"
proof -
  let ?q = "Querying [] [''10.0.0.1'' \<mapsto> 0] [''10.0.0.1'' \<mapsto> ''10.0.0.1'']"
  have ph: "pmPhase demo_answered = ?q" "pmPhase demo_late_mark = ?q"
    by (simp_all add: demo_answered_def demo_late_mark_def)
  have late: "same_poll demo_answered demo_late_mark"
    by (rule same_step [OF same_here _ ph(2)]) (simp add: demo_late_mark_def other_step.mark)
  obtain s'' where step: "poller_step demo_late_mark s''" using poller_enabled by blast
  have "loaded (pmT demo_answered) ''10.0.0.1'' = None" "sets (pmT demo_answered) 0 = {}"
    by (simp_all add: demo_answered_def pm_start_def NewTracker_def SetUnloadObserver_def)
  moreover have "IsLoaded (pmT demo_late_mark) ''10.0.0.1'' ''llama''"
    using preach_pinv [OF demo_answered_reach] warm.loaded_mark by (simp add: demo_late_mark_def pinv_def)
  ultimately show ?thesis
    using marks_during_poll [OF demo_answered_reach ph(1) _ late ph(2) step, of "''10.0.0.1''" "''llama''"] late step
    by (auto simp: listed_ips_def)
qed

text \<open>Two pods answer that they have \<open>llama\<close>; with a grace of one pass the first is asked to unload it.\<close>

definition demo_two :: pmachine where
  "demo_two = demo_pm\<lparr>pmT := add_set {''llama''} (add_set {''llama''} (pmT demo_pm)),
     pmPhase := Querying [] [''10.0.0.1'' \<mapsto> 0, ''10.0.0.2'' \<mapsto> 1]
       [''10.0.0.1'' \<mapsto> ''10.0.0.1'', ''10.0.0.2'' \<mapsto> ''10.0.0.2'']\<rparr>"

lemma demo_start_fields:
  "pmT demo_pm = SetUnloadObserver True (NewTracker grace_one)" "nextRef (pmT demo_pm) = 0"
  "loaded (pmT demo_pm) = Map.empty" "dupObs (pmT demo_pm) = Map.empty" "dedupGracePolls (pmT demo_pm) = 1"
  "hasPressure (pmT demo_pm)" "pmSent demo_pm = []" "pmStreak demo_pm = (\<lambda>_. 0)"
  by (simp_all add: pm_start_def NewTracker_def SetUnloadObserver_def grace_one_def or_default_def)

lemma preach_runs: "poller_step\<^sup>*\<^sup>* s s' \<Longrightarrow> preach s \<Longrightarrow> preach s'"
  by (induction rule: rtranclp_induct) (auto intro: preach.poller)

lemma demo_two_run: "poller_step\<^sup>*\<^sup>* demo_pm demo_two"
proof -
  let ?p1 = "demo_server ''10.0.0.1''" and ?p2 = "demo_server ''10.0.0.2''"
  define s1 where "s1 = demo_pm\<lparr>pmPhase := Querying [?p1, ?p2] Map.empty Map.empty\<rparr>"
  define s2 where "s2 = demo_pm\<lparr>pmT := add_set {''llama''} (pmT demo_pm),
    pmPhase := Querying [?p2] [''10.0.0.1'' \<mapsto> 0] [''10.0.0.1'' \<mapsto> ''10.0.0.1'']\<rparr>"
  have "poller_step demo_pm s1" unfolding s1_def by (rule list_pods) (simp add: pm_start_def)
  moreover have "poller_step s1 s2"
    using ask_pod [of s1 ?p1 "[?p2]" Map.empty Map.empty "Inr {''llama''}"]
    by (auto simp: s1_def s2_def poll_pod_def Let_def demo_start_fields(2))
  moreover have "poller_step s2 demo_two"
    using ask_pod [of s2 ?p2 "[]" "[''10.0.0.1'' \<mapsto> 0]" "[''10.0.0.1'' \<mapsto> ''10.0.0.1'']" "Inr {''llama''}"]
    by (auto simp: s2_def demo_two_def poll_pod_def Let_def demo_start_fields(2))
  ultimately show ?thesis by (meson converse_rtranclp_into_rtranclp r_into_rtranclp)
qed

definition demo_asking :: pmachine where
  "demo_asking = demo_two\<lparr>
     pmT := (poll_swap [''10.0.0.1'' \<mapsto> 0, ''10.0.0.2'' \<mapsto> 1]
       [''10.0.0.1'' \<mapsto> ''10.0.0.1'', ''10.0.0.2'' \<mapsto> ''10.0.0.2''] (pmT demo_two))\<lparr>dupObs := [''llama'' \<mapsto> 1]\<rparr>,
     pmPhase := Unloading [(''llama'', [''10.0.0.1'', ''10.0.0.2''])]
       [''10.0.0.1'' \<mapsto> ''10.0.0.1'', ''10.0.0.2'' \<mapsto> ''10.0.0.2''] 0,
     pmHolders := (\<lambda>m. if m = ''llama'' then {''10.0.0.1'', ''10.0.0.2''} else {}),
     pmStreak := (\<lambda>m. if m = ''llama'' then 1 else 0)\<rparr>"

lemma demo_asking_run: "poller_step\<^sup>*\<^sup>* demo_two demo_asking"
proof -
  let ?nxt = "[''10.0.0.1'' \<mapsto> 0, ''10.0.0.2'' \<mapsto> 1]"
  let ?ips = "[''10.0.0.1'' \<mapsto> ''10.0.0.1'', ''10.0.0.2'' \<mapsto> ''10.0.0.2'']"
  let ?dup = "[''llama'' \<mapsto> [''10.0.0.1'', ''10.0.0.2'']]"
  define t where "t = poll_swap ?nxt ?ips (pmT demo_two)"
  define s1 where "s1 = demo_two\<lparr>pmT := t, pmPhase := Polled\<rparr>"
  define s2 where "s2 = s1\<lparr>pmPhase := Counting ?dup ?ips,
    pmHolders := (\<lambda>m. if m = ''llama'' then {''10.0.0.1'', ''10.0.0.2''} else {})\<rparr>"
  have t: "loaded t = ?nxt" "podIP t = ?ips" "firstPoll t" "hasPressure t" "dupObs t = Map.empty"
    "dedupGracePolls t = 1" "sets t 0 = {''llama''}" "sets t (Suc 0) = {''llama''}"
    by (simp_all add: t_def poll_swap_def demo_two_def demo_start_fields(2-))
  have s1: "poller_step demo_two s1"
    unfolding s1_def t_def by (rule swap_maps) (simp add: demo_two_def)
  have dom: "dom ?nxt = {''10.0.0.1'', ''10.0.0.2''}" by auto
  have dup: "build_dup sorted_orders t = ?dup"
    unfolding build_dup_def t(1) dom
    by (simp add: sorted_orders_def add_pod_def t add_holder_def holders_def fun_eq_iff)
  have hold: "holder_set t = (\<lambda>m. if m = ''llama'' then {''10.0.0.1'', ''10.0.0.2''} else {})"
    by (auto simp: holder_set_def pod_set_apply t fun_eq_iff split: option.splits if_splits)
  have s2: "poller_step s1 s2"
    using take_snapshot [of s1 sorted_orders] t dedup_ranges_sorted by (auto simp: s1_def s2_def dup hold)
  have res: "count_pass sorted_orders ?dup t = ([''llama'' \<mapsto> 1], [(''llama'', [''10.0.0.1'', ''10.0.0.2''])])"
    by (simp add: count_pass_def t sorted_orders_def resolved_models_def holders_def obs_count_def Let_def)
  have s2_fields: "pmPhase s2 = Counting ?dup ?ips" "pmT s2 = t" "pmStreak s2 = (\<lambda>_. 0)" "pmSent s2 = []"
    "pmHeard s2 = pmHeard demo_two" "pmHolders s2 = (\<lambda>m. if m = ''llama'' then {''10.0.0.1'', ''10.0.0.2''} else {})"
    by (simp_all add: s2_def s1_def demo_two_def demo_start_fields(2-))
  let ?s = "s2\<lparr>pmT := (pmT s2)\<lparr>dupObs := [''llama'' \<mapsto> 1]\<rparr>,
      pmPhase := (if [(''llama'', [''10.0.0.1'', ''10.0.0.2''])] = [] then Waiting
        else Unloading (sort_key fst [(''llama'', [''10.0.0.1'', ''10.0.0.2''])]) ?ips 0),
      pmStreak := (\<lambda>m. if 2 \<le> card (pmHolders s2 m) then pmStreak s2 m + 1 else 0)\<rparr>"
  have "poller_step s2 ?s"
    by (rule count [OF s2_fields(1) dedup_ranges_sorted]) (simp add: s2_fields res)
  moreover have "demo_asking = ?s"
    by (rule pmachine.equality)
      (simp_all add: s2_fields demo_asking_def t_def demo_two_def demo_start_fields(2-) fun_eq_iff)
  ultimately have "poller_step s2 demo_asking" by simp
  with s1 s2 show ?thesis by (meson converse_rtranclp_into_rtranclp r_into_rtranclp)
qed

lemma demo_asking_reach: "preach demo_asking"
  using preach_runs [OF demo_asking_run preach_runs [OF demo_two_run preach.init]] .

theorem unload_needs_two_holders_witness:
  "\<exists>s'. preach demo_asking \<and> poller_step demo_asking s' \<and>
    pmSent s' = pmSent demo_asking @ [(''10.0.0.1'', ''llama'')] \<and>
    ''10.0.0.1'' \<in> pmHolders demo_asking ''llama'' \<and> dedupGracePolls (pmT demo_asking) \<le> pmStreak demo_asking ''llama''"
proof -
  let ?s = "demo_asking\<lparr>pmPhase := Unloading [] [''10.0.0.1'' \<mapsto> ''10.0.0.1'', ''10.0.0.2'' \<mapsto> ''10.0.0.2''] 0,
    pmSent := pmSent demo_asking @ [(''10.0.0.1'', ''llama'')]\<rparr>"
  have step: "poller_step demo_asking ?s"
    by (rule refused [of _ _ "[''10.0.0.1'', ''10.0.0.2'']" _ _ _ "\<lambda>_. Fin 0"])
      (simp_all add: demo_asking_def MaxUnloadsPerCycle_def pickLoser_def loser_ip_def)
  from unload_needs_two_holders [OF demo_asking_reach step, of "''10.0.0.1''" "''llama''"] step demo_asking_reach
  show ?thesis by (intro exI [of _ ?s]) simp
qed

text \<open>A run with one poll of an empty pool.\<close>

definition demo_run :: "nat \<Rightarrow> pmachine" where
  "demo_run i =
     (let s = pm_start (grace_one\<lparr>oPressure := False\<rparr>) False
      in if i = 0 then s
         else if i = 1 then s\<lparr>pmPhase := Querying [] Map.empty Map.empty\<rparr>
         else s\<lparr>pmT := poll_swap Map.empty Map.empty (pmT s), pmPhase := (if i = 2 then Polled else Waiting)\<rparr>)"

lemma demo_run_steps: "poller_step (demo_run i) (demo_run (Suc i))"
proof -
  let ?s = "pm_start (grace_one\<lparr>oPressure := False\<rparr>) False"
  have p: "pmPhase ?s = Waiting" "\<not> hasPressure (pmT ?s)"
    by (simp_all add: pm_start_def SetUnloadObserver_def NewTracker_def grace_one_def)
  consider "i = 0" | "i = 1" | "i = 2" | "2 < i" by linarith
  then show ?thesis
  proof cases
    case 1
    then show ?thesis using list_pods [OF p(1), of "[]"] by (simp add: demo_run_def Let_def)
  next
    case 2
    then show ?thesis using swap_maps [of "demo_run 1" Map.empty Map.empty] by (simp add: demo_run_def Let_def)
  next
    case 3
    then show ?thesis using no_pass [of "demo_run 2"] p(2) by (simp add: demo_run_def Let_def poll_swap_def)
  next
    case 4
    then show ?thesis using list_fail [of "demo_run i"] by (simp add: demo_run_def Let_def)
  qed
qed

theorem poll_ends_witness: "(\<exists>j \<ge> 1. pmPhase (demo_run j) = Waiting) \<and> pmPhase (demo_run 1) \<noteq> Waiting"
proof -
  have "(\<exists>j \<ge> 1. pmPhase (demo_run j) = Waiting) \<and> (\<exists>s'. poller_step (demo_run 1) s')"
    by (rule poll_ends) (use demo_run_steps in auto)
  then show ?thesis by (simp add: demo_run_def Let_def)
qed

end
