(* ===== verification/System_Machine.thy ===== *)
theory System_Machine
  imports Loader_Machine Tracker_Machine
begin

section \<open>Requests and the poller at once\<close>

text \<open>
  The machine of the loader's requests and the machine of the poller over one tracker. Each of them lets
  the other change the tracker in any way; here each change of the one is a step of the other. The
  poller calls the unload observer after it has released the tracker's mutex, so the notice is an
  action of its own: until the loader has received it the poller does nothing else, and requests go on.
\<close>

record system =
  smL :: mstate
  smP :: pmachine
  smNotice :: "(string \<times> string) option"

definition new_notice :: "pmachine \<Rightarrow> pmachine \<Rightarrow> (string \<times> string) option" where
  "new_notice p p' = (if pmHeard p' = pmHeard p then None else Some (last (pmHeard p')))"

text \<open>
  A step of \<open>mstep\<close> that moves no program counter is one its environment makes; the environment is now the
  poller and the notice.
\<close>

inductive sysstep ::
  "(string \<Rightarrow> model_entry list option) \<Rightarrow> (nat \<Rightarrow> string \<times> string) \<Rightarrow> system \<Rightarrow> system \<Rightarrow> bool"
  for decode job where
  sys_request: "mstep decode job (smL s) l \<Longrightarrow> pcs l \<noteq> pcs (smL s) \<Longrightarrow>
    sysstep decode job s (s\<lparr>smL := l, smP := (smP s)\<lparr>pmT := mTracker l\<rparr>\<rparr>)"
| sys_poller: "smNotice s = None \<Longrightarrow> poller_step (smP s) p \<Longrightarrow>
    sysstep decode job s (s\<lparr>smL := (smL s)\<lparr>mTracker := pmT p\<rparr>, smP := p, smNotice := new_notice (smP s) p\<rparr>)"
| sys_notice: "smNotice s = Some (ip, m) \<Longrightarrow>
    sysstep decode job s
      (s\<lparr>smL := (smL s)\<lparr>mLoader := InvalidateLoadedModel ip m (mLoader (smL s))\<rparr>, smNotice := None\<rparr>)"

definition sys_start :: "string \<Rightarrow> loader_config \<Rightarrow> options \<Rightarrow> system" where
  "sys_start name cfg opts =
     (let p = pm_start opts True in \<lparr>smL = minit name cfg (pmT p), smP = p, smNotice = None\<rparr>)"

inductive sysreach ::
  "(string \<Rightarrow> model_entry list option) \<Rightarrow> (nat \<Rightarrow> string \<times> string) \<Rightarrow> system \<Rightarrow> bool"
  for decode job where
  sys_init: "sysreach decode job (sys_start name cfg opts)"
| sys_next: "sysreach decode job s \<Longrightarrow> sysstep decode job s s' \<Longrightarrow> sysreach decode job s'"

subsection \<open>Every run is a run of each machine\<close>

text \<open>The tracker after a step of the loader's machine: unchanged, or changed by one mark or retraction.\<close>

lemma request_tracker:
  assumes "mstep decode job l l'" and "pcs l' \<noteq> pcs l"
  shows "mTracker l' = mTracker l \<or> (\<exists>p m. mTracker l' = MarkLoaded p m (mTracker l)) \<or>
    (\<exists>p m. mTracker l' = fst (MarkUnloaded p m (mTracker l)))"
  using assms
proof (induction rule: mstep.induct)
  case (retract s g t nt)
  then have "mTracker (goto g c (s\<lparr>mTracker := t\<rparr>)) = fst (MarkUnloaded (fst (job g)) (snd (job g)) (mTracker s))" for c by simp
  then show ?case by blast
qed auto

lemma other_of_request:
  assumes "mstep decode job l l'" and "pcs l' \<noteq> pcs l" and "pmT p = mTracker l"
  shows "p\<lparr>pmT := mTracker l'\<rparr> = p \<or> other_step p (p\<lparr>pmT := mTracker l'\<rparr>)"
  using request_tracker [OF assms(1,2)]
proof (elim disjE exE)
  fix ip m assume "mTracker l' = MarkLoaded ip m (mTracker l)"
  then show ?thesis using other_step.mark [of p ip m] by (simp add: assms(3))
next
  fix ip m assume "mTracker l' = fst (MarkUnloaded ip m (mTracker l))"
  then show ?thesis
    using other_step.unmark [of ip m p "mTracker l'" "snd (MarkUnloaded ip m (mTracker l))"] by (simp add: assms(3))
qed (use assms(3) in simp)

text \<open>The loader and the poller compose. Every state that the two reach together, over one tracker and
  with the notices in between, is a reachable state of each of their machines, with the same tracker
  in both. So whatever is proved of the one under an arbitrary environment, single flight, wake-ups, the
  grounds of an unload, the fate of marks, holds while the other is running.\<close>

theorem machines_compose:
  assumes "sysreach decode job s"
  shows "mreach decode job (smL s) \<and> preach (smP s) \<and> mTracker (smL s) = pmT (smP s)"
  using assms
proof (induction rule: sysreach.induct)
  case (sys_init name cfg opts)
  show ?case by (simp add: sys_start_def Let_def mreach.init preach.init) (simp add: minit_def)
next
  case (sys_next s s')
  from sys_next.hyps(2) show ?case
  proof cases
    case (sys_request l)
    have "preach ((smP s)\<lparr>pmT := mTracker l\<rparr>)"
      using other_of_request [OF sys_request(2,3), of "smP s"] sys_next.IH preach.other by metis
    with sys_request sys_next.IH show ?thesis by (auto intro: mreach.step)
  next
    case (sys_poller p)
    with sys_next.IH show ?thesis by (auto intro: mreach.step mstep.env_tracker preach.poller)
  next
    case (sys_notice ip m)
    with sys_next.IH show ?thesis by (auto intro: mreach.step mstep.env_invalidate)
  qed
qed

subsection \<open>What a notice achieves\<close>

text \<open>A request between the live answer of the server and its write to the cache.\<close>

fun holds_answer :: "pc \<Rightarrow> bool" where
  "holds_answer CacheWarm = True"
| "holds_answer (CacheLoaded r) = True"
| "holds_answer _ = False"

definition answered :: "(nat \<Rightarrow> string \<times> string) \<Rightarrow> string \<Rightarrow> mstate \<Rightarrow> nat set" where
  "answered job k s = {g. job_key job g = k \<and> holds_answer (pcs s g)}"

text \<open>A step in which no request for the key \<open>k\<close> gets a live answer.\<close>

definition quiet_step ::
  "(string \<Rightarrow> model_entry list option) \<Rightarrow> (nat \<Rightarrow> string \<times> string) \<Rightarrow> string \<Rightarrow> system \<Rightarrow> system \<Rightarrow> bool" where
  "quiet_step decode job k s s' \<longleftrightarrow> sysstep decode job s s' \<and> answered job k (smL s') \<subseteq> answered job k (smL s)"

text \<open>An entry of the cache comes from a request with a live answer, and from nothing else.\<close>

lemma entry_needs_answer:
  assumes "mstep decode job s s'" and "loadedModels (mLoader s) k = None" and "answered job k s = {}"
  shows "loadedModels (mLoader s') k = None"
  using assms
proof (induction rule: mstep.induct)
  case (cache_warm s g now)
  then have "job_key job g \<noteq> k" by (auto simp: answered_def)
  with cache_warm show ?case by (simp add: cache_loaded_def)
next
  case (cache_load s g r now)
  then have "job_key job g \<noteq> k" by (auto simp: answered_def)
  with cache_load show ?case by (simp add: cache_loaded_def)
qed (auto simp: beginLoad_cases finishLoad_def InvalidateLoadedModel_def ClearLoadedModelsCache_def)

lemma quiet_keeps_cold:
  assumes "quiet_step decode job k s s'" and "loadedModels (mLoader (smL s)) k = None" and "answered job k (smL s) = {}"
  shows "loadedModels (mLoader (smL s')) k = None \<and> answered job k (smL s') = {}"
proof
  show "answered job k (smL s') = {}" using assms(1,3) by (simp add: quiet_step_def)
  from assms(1) have "sysstep decode job s s'" by (simp add: quiet_step_def)
  then show "loadedModels (mLoader (smL s')) k = None"
    using assms(2,3) by cases (auto dest: entry_needs_answer simp: InvalidateLoadedModel_def)
qed

text \<open>C8: apart from requests that already hold a live answer the notice does what it is for. When the loader gets
  the notice of an unload and no request for the pair is between a live answer and its write to the
  cache, the pair is not in the cache from then on, in any interleaving, until the server tells some
  request for it that the model is live: every request for it in between asks the server or waits.\<close>

theorem notice_keeps_cache_cold:
  assumes "smNotice s = Some (ip, m)" and "ip \<noteq> []" and "m \<noteq> []" and "answered job (loadKey ip m) (smL s) = {}"
    and "sysstep decode job s s1" and "smNotice s1 = None"
    and "(quiet_step decode job (loadKey ip m))\<^sup>*\<^sup>* s1 s'"
  shows "lookup_key (loadKey ip m) (mLoader (smL s')) \<noteq> Loaded"
proof -
  let ?k = "loadKey ip m"
  have "smL s1 = (smL s)\<lparr>mLoader := InvalidateLoadedModel ip m (mLoader (smL s))\<rparr>"
    using assms(5,1,6) by cases auto
  with assms(2-4) have "loadedModels (mLoader (smL s1)) ?k = None" "answered job ?k (smL s1) = {}"
    by (simp_all add: InvalidateLoadedModel_def answered_def)
  with assms(7) have "loadedModels (mLoader (smL s')) ?k = None \<and> answered job ?k (smL s') = {}"
    by (induction rule: rtranclp_induct) (use quiet_keeps_cold in blast)+
  then show ?thesis by (auto simp: lookup_key_def split: option.split)
qed

subsection \<open>A cache entry written too late\<close>

abbreviation sysruns ::
  "(string \<Rightarrow> model_entry list option) \<Rightarrow> (nat \<Rightarrow> string \<times> string) \<Rightarrow> system \<Rightarrow> system \<Rightarrow> bool" where
  "sysruns decode job \<equiv> (sysstep decode job)\<^sup>*\<^sup>*"

lemma sysruns_reach: "sysruns decode job s s' \<Longrightarrow> sysreach decode job s \<Longrightarrow> sysreach decode job s'"
  by (induction rule: rtranclp_induct) (auto intro: sysreach.sys_next)

text \<open>The poller retracts the mark and the loader gets the notice; no request moves.\<close>

lemma unload_completes:
  assumes "smNotice s = None" and "pmPhase (smP s) = Agreed ip m rs ips n"
  shows "\<exists>s'. sysruns decode job s s' \<and> pmPhase (smP s') = Forgetting m rs ips n \<and> smNotice s' = None \<and>
    pcs (smL s') = pcs (smL s)"
proof -
  obtain t nt where mu: "MarkUnloaded ip m (pmT (smP s)) = (t, nt)" by fastforce
  let ?p = "(smP s)\<lparr>pmT := t, pmPhase := Forgetting m rs ips n, pmHeard := pmHeard (smP s) @ note_list nt\<rparr>"
  let ?s = "s\<lparr>smL := (smL s)\<lparr>mTracker := t\<rparr>, smP := ?p, smNotice := new_notice (smP s) ?p\<rparr>"
  have first: "sysstep decode job s ?s"
    using sys_poller [OF assms(1) retract [OF assms(2) mu]] by simp
  show ?thesis
  proof (cases "smNotice ?s")
    case None
    with first show ?thesis by (intro exI [of _ ?s]) auto
  next
    case (Some nn)
    obtain ip' m' where "nn = (ip', m')" by fastforce
    with Some have second: "sysstep decode job ?s
        (?s\<lparr>smL := (smL ?s)\<lparr>mLoader := InvalidateLoadedModel ip' m' (mLoader (smL ?s))\<rparr>, smNotice := None\<rparr>)"
      by (intro sys_notice) simp
    have "sysruns decode job s
        (?s\<lparr>smL := (smL ?s)\<lparr>mLoader := InvalidateLoadedModel ip' m' (mLoader (smL ?s))\<rparr>, smNotice := None\<rparr>)"
      by (rule rtranclp.rtrancl_into_rtrancl [of "sysstep decode job", OF r_into_rtranclp
            [of "sysstep decode job", OF first] second])
    then show ?thesis by (intro exI conjI, assumption) simp_all
  qed
qed

text \<open>A request with a live answer in hand writes the cache and returns.\<close>

lemma request_caches:
  assumes "pcs (smL s) g = CacheWarm \<or> pcs (smL s) g = CacheLoaded r"
  shows "\<exists>s'. sysruns decode job s s' \<and> pmPhase (smP s') = pmPhase (smP s) \<and> smNotice s' = smNotice s \<and>
    pcs (smL s') g = Returned \<and> (\<forall>h. h \<noteq> g \<longrightarrow> pcs (smL s') h = pcs (smL s) h) \<and>
    lookup_key (job_key job g) (mLoader (smL s')) = Loaded"
proof -
  have two: ?thesis
    if one: "mstep decode job (smL s) l" "pcs l \<noteq> pcs (smL s)"
      and second: "mstep decode job l l'" "pcs l' \<noteq> pcs l"
      and "pcs l' g = Returned" "\<forall>h. h \<noteq> g \<longrightarrow> pcs l' h = pcs (smL s) h"
        "lookup_key (job_key job g) (mLoader l') = Loaded" for l l'
  proof -
    let ?s = "s\<lparr>smL := l, smP := (smP s)\<lparr>pmT := mTracker l\<rparr>\<rparr>"
    let ?s' = "?s\<lparr>smL := l', smP := (smP ?s)\<lparr>pmT := mTracker l'\<rparr>\<rparr>"
    have "sysstep decode job ?s ?s'" by (rule sys_request) (use second in simp_all)
    with sys_request [OF one] have "sysruns decode job s ?s'"
      by (meson converse_rtranclp_into_rtranclp r_into_rtranclp)
    with that(5-7) show ?thesis by (intro exI [of _ ?s']) simp
  qed
  from assms show ?thesis
  proof
    assume w: "pcs (smL s) g = CacheWarm"
    note one = cache_warm [OF w, of decode job 0]
    show ?thesis
      by (rule two [OF one _ mark_warm]) (auto simp: w lookup_key_def cache_loaded_def fun_eq_iff)
  next
    assume w: "pcs (smL s) g = CacheLoaded r"
    note one = cache_load [OF w, of decode job 0]
    show ?thesis
      by (rule two [OF one _ finish [of _ g r None]])
        (auto simp: w lookup_key_def cache_loaded_def finishLoad_def fun_eq_iff)
  qed
qed

text \<open>C9: the notice can come too early. Whenever a pod has agreed to unload a model while a request holds a live
  answer of that pod for the model that it has not yet written to the cache, the system can go on so
  that the poller retracts the mark, the loader gets the notice, and then the request writes its
  entry: the cache holds a model that the server has just dropped, and nothing is left to remove it.\<close>

theorem late_entry_survives_unload:
  assumes "sysreach decode job s" and "smNotice s = None" and "pmPhase (smP s) = Agreed ip m rs ips n"
    and "pcs (smL s) g = CacheWarm \<or> pcs (smL s) g = CacheLoaded r" and "job g = (ip, m)"
  shows "\<exists>s'. sysruns decode job s s' \<and> pmPhase (smP s') = Forgetting m rs ips n \<and> smNotice s' = None \<and>
    pcs (smL s') g = Returned \<and> lookup_key (loadKey ip m) (mLoader (smL s')) = Loaded"
proof -
  obtain s1 where s1: "sysruns decode job s s1" "pmPhase (smP s1) = Forgetting m rs ips n" "smNotice s1 = None"
    "pcs (smL s1) = pcs (smL s)" using unload_completes [OF assms(2,3)] by blast
  then have "pcs (smL s1) g = CacheWarm \<or> pcs (smL s1) g = CacheLoaded r" using assms(4) by simp
  from request_caches [OF this] obtain s' where s': "sysruns decode job s1 s'" "pmPhase (smP s') = pmPhase (smP s1)"
    "smNotice s' = smNotice s1" "pcs (smL s') g = Returned" "lookup_key (job_key job g) (mLoader (smL s')) = Loaded"
    by blast
  with rtranclp_trans [OF s1(1) s'(1)] s1 assms(5) show ?thesis by (intro exI [of _ s']) (simp add: job_key_def)
qed

subsection \<open>A cached model is not checked again\<close>

text \<open>
  The two ways in which an entry leaves the cache: the loader receives the poller's notice, or a request
  delivers the notice of its own retraction.
\<close>

definition drops :: "string \<Rightarrow> system \<Rightarrow> system \<Rightarrow> bool" where
  "drops k s s' \<longleftrightarrow>
     (\<exists>ip m. smNotice s = Some (ip, m) \<and> smNotice s' = None \<and> loadKey ip m = k) \<or>
     (\<exists>h ip m. pcs (smL s) h = Notify ip m \<and> pcs (smL s') h = Returned \<and> loadKey ip m = k)"

definition sparing_step ::
  "(string \<Rightarrow> model_entry list option) \<Rightarrow> (nat \<Rightarrow> string \<times> string) \<Rightarrow> string \<Rightarrow> system \<Rightarrow> system \<Rightarrow> bool" where
  "sparing_step decode job k s s' \<longleftrightarrow> sysstep decode job s s' \<and> \<not> drops k s s'"

lemma entry_stays:
  assumes "mstep decode job l l'" and "pcs l' \<noteq> pcs l" and "loadedModels (mLoader l) k \<noteq> None"
    and "\<And>h ip m. pcs l h = Notify ip m \<Longrightarrow> pcs l' h = Returned \<Longrightarrow> loadKey ip m \<noteq> k"
  shows "loadedModels (mLoader l') k \<noteq> None"
  using assms
proof (induction rule: mstep.induct)
  case (notify s g ip m)
  have "pcs (goto g Returned (s\<lparr>mLoader := InvalidateLoadedModel ip m (mLoader s)\<rparr>)) g = Returned" by simp
  with notify have "loadKey ip m \<noteq> k" by blast
  then show ?case using notify.prems(2) by (simp add: InvalidateLoadedModel_def)
qed (auto simp: cache_loaded_def beginLoad_cases finishLoad_def)

lemma sparing_keeps_entry:
  assumes "sparing_step decode job k s s'" and "loadedModels (mLoader (smL s)) k \<noteq> None"
  shows "loadedModels (mLoader (smL s')) k \<noteq> None"
proof -
  have kept: "\<not> drops k s s'" using assms(1) by (simp add: sparing_step_def)
  have "sysstep decode job s s'" using assms(1) by (simp add: sparing_step_def)
  then show ?thesis
  proof cases
    case (sys_request l)
    have "loadKey ip m \<noteq> k" if "pcs (smL s) h = Notify ip m" "pcs l h = Returned" for h ip m
      using kept that sys_request(1) by (auto simp: drops_def)
    from entry_stays [OF sys_request(2,3) assms(2) this] show ?thesis by (simp add: sys_request(1))
  next
    case (sys_notice ip m)
    then have "loadKey ip m \<noteq> k" using kept by (auto simp: drops_def)
    with sys_notice assms(2) show ?thesis by (simp add: InvalidateLoadedModel_def)
  qed (use assms(2) in simp)
qed

text \<open>What a request for a cached pair can do: mark and return.\<close>

abbreviation warm_pcs :: "pc set" where
  "warm_pcs \<equiv> {Lookup, MarkWarm, Returned}"

lemma warm_request_step:
  assumes "mstep decode job l l'" and "loadedModels (mLoader l) (job_key job g) \<noteq> None" and "pcs l g \<in> warm_pcs"
  shows "pcs l' g \<in> warm_pcs"
  using assms by (induction rule: mstep.induct) (auto simp: lookup_key_def split: if_splits option.splits)

lemma warm_request_sysstep:
  assumes "sysstep decode job s s'" and "loadedModels (mLoader (smL s)) (job_key job g) \<noteq> None"
    and "pcs (smL s) g \<in> warm_pcs"
  shows "pcs (smL s') g \<in> warm_pcs"
  using assms(1)
proof cases
  case (sys_request l)
  from warm_request_step [OF sys_request(2) assms(2,3)] show ?thesis by (simp add: sys_request(1))
qed (use assms(3) in simp_all)

lemma warm_return_marks:
  assumes "mstep decode job l l'" and "pcs l g \<in> {Lookup, MarkWarm}" and "pcs l' g = Returned"
  shows "mTracker l' = MarkLoaded (fst (job g)) (snd (job g)) (mTracker l)"
  using assms by (induction rule: mstep.induct) (auto split: if_splits)

lemma warm_return_sysstep:
  assumes "sysstep decode job s s'" and "pcs (smL s) g \<in> {Lookup, MarkWarm}" and "pcs (smL s') g = Returned"
  shows "mTracker (smL s') = MarkLoaded (fst (job g)) (snd (job g)) (mTracker (smL s))"
  using assms(1)
proof cases
  case (sys_request l)
  from warm_return_marks [OF sys_request(2) assms(2)] assms(3) show ?thesis by (simp add: sys_request(1))
qed (use assms(2,3) in auto)

text \<open>It goes on by itself, whatever the others do, to the mark and the return.\<close>

lemma warm_request_returns:
  assumes "lookup_key (job_key job g) (mLoader (smL s)) = Loaded" and "pcs (smL s) g \<in> warm_pcs"
  shows "\<exists>s'. sysruns decode job s s' \<and> pcs (smL s') g = Returned \<and> (\<forall>h. h \<noteq> g \<longrightarrow> pcs (smL s') h = pcs (smL s) h) \<and>
    mLoader (smL s') = mLoader (smL s)"
proof -
  have from_mark: "\<exists>s'. sysruns decode job s s' \<and> pcs (smL s') g = Returned \<and>
      (\<forall>h. h \<noteq> g \<longrightarrow> pcs (smL s') h = pcs (smL s) h) \<and> mLoader (smL s') = mLoader (smL s)"
    if "pcs (smL s) g = MarkWarm" for s
  proof -
    note marked = mark_warm [OF that, of decode job]
    have "sysstep decode job s (s\<lparr>smL := goto g Returned ((smL s)\<lparr>mTracker :=
        MarkLoaded (fst (job g)) (snd (job g)) (mTracker (smL s))\<rparr>), smP := (smP s)\<lparr>pmT :=
        MarkLoaded (fst (job g)) (snd (job g)) (mTracker (smL s))\<rparr>\<rparr>)" (is "sysstep decode job s ?s")
      using sys_request [OF marked] that by (auto simp: fun_eq_iff)
    then show ?thesis by (intro exI [of _ ?s]) auto
  qed
  from assms(2) consider "pcs (smL s) g = Lookup" | "pcs (smL s) g = MarkWarm" | "pcs (smL s) g = Returned" by blast
  then show ?thesis
  proof cases
    case 1
    let ?s = "s\<lparr>smL := goto g MarkWarm (smL s), smP := (smP s)\<lparr>pmT := mTracker (smL s)\<rparr>\<rparr>"
    have "sysstep decode job s ?s"
      using sys_request [OF lookup_warm [OF 1 assms(1)]] 1 by (auto simp: fun_eq_iff)
    then have one: "sysruns decode job s ?s" by blast
    have "pcs (smL ?s) g = MarkWarm" by simp
    from from_mark [OF this] obtain s' where s': "sysruns decode job ?s s'" "pcs (smL s') g = Returned"
      "\<forall>h. h \<noteq> g \<longrightarrow> pcs (smL s') h = pcs (smL ?s) h" "mLoader (smL s') = mLoader (smL ?s)" by blast
    show ?thesis
      by (rule exI [of _ s']) (use s' rtranclp_trans [OF one s'(1)] in simp)
  next
    case 2
    then show ?thesis by (rule from_mark)
  next
    case 3
    then show ?thesis by (intro exI [of _ s]) simp
  qed
qed

text \<open>C10: a cached model is never checked again. Take any request that has not begun while its pod and model
  are in the loader's cache. In any interleaving with other requests and the poller, whatever the server and
  the polls say, as long as nothing delivers the notice of an unload of that pair: the pair stays in the
  cache; the request neither asks the server nor loads the model, nor waits for anybody; by itself it
  comes to its return, without touching the loader; and the step with which it returns marks the model as
  loaded on the pod.\<close>

theorem cached_key_never_loads:
  assumes "sysreach decode job s" and "job g = (ip, m)" and "ip \<noteq> []" and "m \<noteq> []"
    and "lookup_key (loadKey ip m) (mLoader (smL s)) = Loaded" and "pcs (smL s) g = Lookup"
    and "(sparing_step decode job (loadKey ip m))\<^sup>*\<^sup>* s s'"
  shows "lookup_key (loadKey ip m) (mLoader (smL s')) = Loaded \<and>
    pcs (smL s') g \<in> {Lookup, MarkWarm, Returned} \<and>
    (\<exists>s''. sysruns decode job s' s'' \<and> pcs (smL s'') g = Returned \<and>
       (\<forall>h. h \<noteq> g \<longrightarrow> pcs (smL s'') h = pcs (smL s') h) \<and> mLoader (smL s'') = mLoader (smL s')) \<and>
    (\<forall>s''. sysstep decode job s' s'' \<longrightarrow> pcs (smL s') g \<noteq> Returned \<longrightarrow> pcs (smL s'') g = Returned \<longrightarrow>
       IsLoaded (mTracker (smL s'')) ip m)"
proof -
  have key: "job_key job g = loadKey ip m" by (simp add: job_key_def assms(2))
  have cached: "lookup_key k p = Loaded \<longleftrightarrow> loadedModels p k \<noteq> None" for k p
    by (simp add: lookup_key_def split: option.split)
  from assms(7) have run: "loadedModels (mLoader (smL s')) (loadKey ip m) \<noteq> None \<and> pcs (smL s') g \<in> warm_pcs \<and>
      sysreach decode job s'"
  proof (induction rule: rtranclp_induct)
    case base
    then show ?case using assms(1,5,6) by (simp add: cached)
  next
    case (step s1 s2)
    have "sysstep decode job s1 s2" using step.hyps(2) by (simp add: sparing_step_def)
    with step.IH sparing_keeps_entry [OF step.hyps(2)] show ?case
      using warm_request_sysstep [of decode job s1 s2 g] sysreach.sys_next key by metis
  qed
  then have warm: "lookup_key (job_key job g) (mLoader (smL s')) = Loaded" by (simp add: cached key)
  have "preach (smP s')" "mTracker (smL s') = pmT (smP s')" using run machines_compose by blast+
  then have wf: "wf_tracker (mTracker (smL s'))" using preach_pinv by (simp add: pinv_def)
  have "IsLoaded (mTracker (smL s'')) ip m"
    if "sysstep decode job s' s''" "pcs (smL s') g \<noteq> Returned" "pcs (smL s'') g = Returned" for s''
  proof -
    have "mTracker (smL s'') = MarkLoaded ip m (mTracker (smL s'))"
      using warm_return_sysstep [OF that(1) _ that(3)] run that(2) by (simp add: assms(2))
    then show ?thesis using assms(3,4) by (simp add: warm.loaded_mark [OF wf])
  qed
  with warm run warm_request_returns [OF warm, of decode] show ?thesis by (simp add: key)
qed

subsection \<open>A run of both machines\<close>

lemma heard_grows: "poller_step p q \<Longrightarrow> pmHeard q = [] \<Longrightarrow> pmHeard p = []"
  by (cases rule: poller_step.cases) auto

text \<open>A run of the poller in which it notifies nobody is a run of the system in which no request moves.\<close>

lemma lift_poller_run:
  assumes "poller_step\<^sup>*\<^sup>* p q" and "pmHeard q = []" and "smP s = p" "smNotice s = None"
    "mTracker (smL s) = pmT p"
  shows "\<exists>s'. sysruns decode job s s' \<and> smP s' = q \<and> smNotice s' = None \<and> mTracker (smL s') = pmT q \<and>
    pcs (smL s') = pcs (smL s) \<and> mLoader (smL s') = mLoader (smL s)"
  using assms
proof (induction rule: rtranclp_induct)
  case base
  then show ?case by (intro exI [of _ s]) simp
next
  case (step q r)
  have heard: "pmHeard q = []" using heard_grows [OF step.hyps(2) step.prems(1)] .
  with step obtain s' where s': "sysruns decode job s s'" "smP s' = q" "smNotice s' = None"
    "pcs (smL s') = pcs (smL s)" "mLoader (smL s') = mLoader (smL s)" by blast
  let ?s = "s'\<lparr>smL := (smL s')\<lparr>mTracker := pmT r\<rparr>, smP := r, smNotice := new_notice (smP s') r\<rparr>"
  have "sysstep decode job s' ?s" using sys_poller [OF s'(3), of r] step.hyps(2) by (simp add: s'(2))
  with s'(1) have "sysruns decode job s ?s" by (rule rtranclp.rtrancl_into_rtrancl)
  then show ?case
    by (intro exI [of _ ?s]) (simp add: s' new_notice_def heard step.prems(1))
qed

lemma sys_goto:
  assumes "mstep decode job (smL s) (goto g c (smL s))" and "pcs (smL s) g \<noteq> c" and "mTracker (smL s) = pmT (smP s)"
  shows "sysstep decode job s (s\<lparr>smL := goto g c (smL s)\<rparr>)"
  using sys_request [OF assms(1)] assms(2,3) by (auto simp: fun_eq_iff)

text \<open>Two pods hold \<open>llama\<close> and one of them is about to be asked to unload it; no request has run.\<close>

lemma demo_asking_sys:
  "\<exists>s. sysreach demo_decode demo_job s \<and> smP s = demo_asking \<and> smNotice s = None \<and>
    mTracker (smL s) = pmT demo_asking \<and> pcs (smL s) = (\<lambda>_. Lookup) \<and>
    mLoader (smL s) = NewPlugin ''loader'' DefaultConfig"
proof -
  let ?s = "sys_start ''loader'' DefaultConfig grace_one"
  have start: "smP ?s = demo_pm" "smNotice ?s = None" "mTracker (smL ?s) = pmT demo_pm"
    "pcs (smL ?s) = (\<lambda>_. Lookup)" "mLoader (smL ?s) = NewPlugin ''loader'' DefaultConfig"
    by (simp_all add: sys_start_def Let_def minit_def)
  have quiet: "pmHeard demo_asking = []" by (simp add: demo_asking_def demo_two_def pm_start_def)
  from lift_poller_run [OF rtranclp_trans [OF demo_two_run demo_asking_run] quiet start(1-3)] start(4,5)
  show ?thesis by (metis sysruns_reach sys_init)
qed

text \<open>
  Two pods hold \<open>llama\<close> and one of them is about to be asked to unload it. A request asks that pod, gets
  the answer that the model is live, and then the pod agrees to unload.
\<close>

abbreviation demo_ips :: "string \<rightharpoonup> string" where
  "demo_ips \<equiv> [''10.0.0.1'' \<mapsto> ''10.0.0.1'', ''10.0.0.2'' \<mapsto> ''10.0.0.2'']"

lemma demo_race:
  "\<exists>s. sysreach demo_decode demo_job s \<and> smNotice s = None \<and>
    pmPhase (smP s) = Agreed ''10.0.0.1'' ''llama'' [] demo_ips 0 \<and> pcs (smL s) 0 = CacheWarm \<and>
    pcs (smL s) 1 = Lookup"
proof -
  obtain s where s: "sysreach demo_decode demo_job s" "smP s = demo_asking" "smNotice s = None"
    "mTracker (smL s) = pmT demo_asking" "pcs (smL s) = (\<lambda>_. Lookup)"
    "mLoader (smL s) = NewPlugin ''loader'' DefaultConfig" using demo_asking_sys by blast
  have "mstep demo_decode demo_job (smL s) (goto 0 Query (smL s))"
    by (rule mstep.lookup_cold) (simp_all add: s lookup_key_def NewPlugin_def)
  then have one: "sysstep demo_decode demo_job s (s\<lparr>smL := goto 0 Query (smL s)\<rparr>)"
    by (rule sys_goto) (simp_all add: s)
  let ?s1 = "s\<lparr>smL := goto 0 Query (smL s)\<rparr>"
  have "mstep demo_decode demo_job (smL ?s1) (goto 0 CacheWarm (smL ?s1))"
    using mstep.query [of "smL ?s1" 0 demo_decode demo_job "live_net ''loaded''"]
    by (simp add: demo_job_def demo_checks live_status_def)
  then have two: "sysstep demo_decode demo_job ?s1 (?s1\<lparr>smL := goto 0 CacheWarm (smL ?s1)\<rparr>)"
    by (rule sys_goto) (simp_all add: s)
  let ?s2 = "?s1\<lparr>smL := goto 0 CacheWarm (smL ?s1)\<rparr>"
  let ?p = "demo_asking\<lparr>pmPhase := Agreed ''10.0.0.1'' ''llama'' [] demo_ips 0,
    pmSent := pmSent demo_asking @ [(''10.0.0.1'', ''llama'')]\<rparr>"
  have "poller_step demo_asking ?p"
    by (rule agreed [of _ _ "[''10.0.0.1'', ''10.0.0.2'']" _ _ _ "\<lambda>_. Fin 0"])
      (simp_all add: demo_asking_def MaxUnloadsPerCycle_def pickLoser_def loser_ip_def)
  then have three: "sysstep demo_decode demo_job ?s2
      (?s2\<lparr>smL := (smL ?s2)\<lparr>mTracker := pmT ?p\<rparr>, smP := ?p, smNotice := new_notice (smP ?s2) ?p\<rparr>)"
    by (intro sys_poller) (simp_all add: s)
  have "sysreach demo_decode demo_job
      (?s2\<lparr>smL := (smL ?s2)\<lparr>mTracker := pmT ?p\<rparr>, smP := ?p, smNotice := new_notice (smP ?s2) ?p\<rparr>)"
    by (rule sys_next [OF sys_next [OF sys_next [OF s(1) one] two] three])
  then show ?thesis by (intro exI conjI, assumption) (simp_all add: new_notice_def s)
qed

text \<open>The poller has retracted the mark, and the loader has not received the notice.\<close>

lemma demo_noticed:
  "\<exists>s. sysreach demo_decode demo_job s \<and> smNotice s = Some (''10.0.0.1'', ''llama'') \<and> pcs (smL s) = (\<lambda>_. Lookup) \<and>
    mTracker (smL s) = pmT (smP s) \<and> mLoader (smL s) = NewPlugin ''loader'' DefaultConfig"
proof -
  obtain s where s: "sysreach demo_decode demo_job s" "smP s = demo_asking" "smNotice s = None"
    "mTracker (smL s) = pmT demo_asking" "pcs (smL s) = (\<lambda>_. Lookup)"
    "mLoader (smL s) = NewPlugin ''loader'' DefaultConfig" using demo_asking_sys by blast
  let ?p = "demo_asking\<lparr>pmPhase := Agreed ''10.0.0.1'' ''llama'' [] demo_ips 0,
    pmSent := pmSent demo_asking @ [(''10.0.0.1'', ''llama'')]\<rparr>"
  have "poller_step demo_asking ?p"
    by (rule agreed [of _ _ "[''10.0.0.1'', ''10.0.0.2'']" _ _ _ "\<lambda>_. Fin 0"])
      (simp_all add: demo_asking_def MaxUnloadsPerCycle_def pickLoser_def loser_ip_def)
  then have one: "sysstep demo_decode demo_job s
      (s\<lparr>smL := (smL s)\<lparr>mTracker := pmT ?p\<rparr>, smP := ?p, smNotice := new_notice (smP s) ?p\<rparr>)"
    by (intro sys_poller [OF s(3)]) (simp add: s(2))
  let ?s1 = "s\<lparr>smL := (smL s)\<lparr>mTracker := pmT ?p\<rparr>, smP := ?p, smNotice := new_notice (smP s) ?p\<rparr>"
  have heard: "pmHeard demo_asking = []" by (simp add: demo_asking_def demo_two_def pm_start_def)
  obtain t where mu: "MarkUnloaded ''10.0.0.1'' ''llama'' (pmT demo_asking) = (t, Some (''10.0.0.1'', ''llama''))"
    by (simp add: MarkUnloaded_def demo_asking_def poll_swap_def demo_two_def demo_start_fields(1) SetUnloadObserver_def)
  let ?q = "?p\<lparr>pmT := t, pmPhase := Forgetting ''llama'' [] demo_ips 0, pmHeard := [(''10.0.0.1'', ''llama'')]\<rparr>"
  have "poller_step ?p ?q"
    using retract [of ?p "''10.0.0.1''" "''llama''" "[]" demo_ips 0 t "Some (''10.0.0.1'', ''llama'')"] mu heard
    by (simp add: note_list_def)
  then have two: "sysstep demo_decode demo_job ?s1
      (?s1\<lparr>smL := (smL ?s1)\<lparr>mTracker := pmT ?q\<rparr>, smP := ?q, smNotice := new_notice (smP ?s1) ?q\<rparr>)"
    by (intro sys_poller) (simp_all add: new_notice_def s(2) heard)
  have "sysreach demo_decode demo_job
      (?s1\<lparr>smL := (smL ?s1)\<lparr>mTracker := pmT ?q\<rparr>, smP := ?q, smNotice := new_notice (smP ?s1) ?q\<rparr>)"
    by (rule sys_next [OF sys_next [OF s(1) one] two])
  then show ?thesis by (intro exI conjI, assumption) (simp_all add: new_notice_def s heard)
qed

theorem notice_keeps_cache_cold_witness:
  "\<exists>s s1 s'. sysreach demo_decode demo_job s \<and> smNotice s = Some (''10.0.0.1'', ''llama'') \<and>
    sysstep demo_decode demo_job s s1 \<and> sysstep demo_decode demo_job s1 s' \<and> pcs (smL s') 0 = Query \<and>
    lookup_key (loadKey ''10.0.0.1'' ''llama'') (mLoader (smL s')) \<noteq> Loaded"
proof -
  obtain s where s: "sysreach demo_decode demo_job s" "smNotice s = Some (''10.0.0.1'', ''llama'')"
    "pcs (smL s) = (\<lambda>_. Lookup)" "mTracker (smL s) = pmT (smP s)"
    "mLoader (smL s) = NewPlugin ''loader'' DefaultConfig" using demo_noticed by blast
  let ?s1 = "s\<lparr>smL := (smL s)\<lparr>mLoader := InvalidateLoadedModel ''10.0.0.1'' ''llama'' (mLoader (smL s))\<rparr>, smNotice := None\<rparr>"
  let ?s2 = "?s1\<lparr>smL := goto 0 Query (smL ?s1)\<rparr>"
  have one: "sysstep demo_decode demo_job s ?s1" by (rule sys_notice [OF s(2)])
  have "mstep demo_decode demo_job (smL ?s1) (goto 0 Query (smL ?s1))"
    by (rule mstep.lookup_cold) (simp_all add: s InvalidateLoadedModel_def lookup_key_def NewPlugin_def)
  then have two: "sysstep demo_decode demo_job ?s1 ?s2"
    by (rule sys_goto) (simp_all add: s)
  have "quiet_step demo_decode demo_job (loadKey ''10.0.0.1'' ''llama'') ?s1 ?s2"
    using two by (auto simp: quiet_step_def answered_def)
  then have "lookup_key (loadKey ''10.0.0.1'' ''llama'') (mLoader (smL ?s2)) \<noteq> Loaded"
    by (intro notice_keeps_cache_cold [OF s(2) _ _ _ one]) (auto simp: answered_def s(3))
  with s(1,2) one two show ?thesis by (intro exI [of _ s] exI [of _ ?s1] exI [of _ ?s2]) simp
qed

theorem machines_compose_witness:
  "\<exists>s. sysreach demo_decode demo_job s \<and> pcs (smL s) 0 = CacheWarm \<and> mreach demo_decode demo_job (smL s) \<and>
    preach (smP s) \<and> mTracker (smL s) = pmT (smP s)"
  using demo_race machines_compose by blast

theorem late_entry_survives_unload_witness:
  "\<exists>s s'. sysreach demo_decode demo_job s \<and> sysruns demo_decode demo_job s s' \<and>
    pmPhase (smP s') = Forgetting ''llama'' [] demo_ips 0 \<and> smNotice s' = None \<and> pcs (smL s') 0 = Returned \<and>
    lookup_key (loadKey ''10.0.0.1'' ''llama'') (mLoader (smL s')) = Loaded"
proof -
  obtain s where s: "sysreach demo_decode demo_job s" "smNotice s = None"
    "pmPhase (smP s) = Agreed ''10.0.0.1'' ''llama'' [] demo_ips 0" "pcs (smL s) 0 = CacheWarm"
    using demo_race by blast
  from late_entry_survives_unload [OF s(1-3) disjI1 [OF s(4)]] s(1) show ?thesis
    by (auto simp: demo_job_def)
qed

text \<open>The entry written after the unload of the model: the next request takes it for granted.\<close>

theorem cached_key_never_loads_witness:
  "\<exists>s s'. sysreach demo_decode demo_job s \<and> pmPhase (smP s) = Forgetting ''llama'' [] demo_ips 0 \<and>
    pcs (smL s) 1 = Lookup \<and> sysruns demo_decode demo_job s s' \<and> pcs (smL s') 1 = Returned \<and>
    lookup_key (loadKey ''10.0.0.1'' ''llama'') (mLoader (smL s)) = Loaded \<and> mLoader (smL s') = mLoader (smL s)"
proof -
  obtain s0 where s0: "sysreach demo_decode demo_job s0" "smNotice s0 = None"
    "pmPhase (smP s0) = Agreed ''10.0.0.1'' ''llama'' [] demo_ips 0" "pcs (smL s0) 0 = CacheWarm" "pcs (smL s0) 1 = Lookup"
    using demo_race by blast
  obtain s1 where s1: "sysruns demo_decode demo_job s0 s1" "pmPhase (smP s1) = Forgetting ''llama'' [] demo_ips 0"
    "smNotice s1 = None" "pcs (smL s1) = pcs (smL s0)" using unload_completes [OF s0(2,3)] by blast
  have "pcs (smL s1) 0 = CacheWarm \<or> pcs (smL s1) 0 = CacheLoaded 0" by (simp add: s1(4) s0(4))
  from request_caches [OF this] obtain s where s: "sysruns demo_decode demo_job s1 s" "pmPhase (smP s) = pmPhase (smP s1)"
    "\<forall>h. h \<noteq> 0 \<longrightarrow> pcs (smL s) h = pcs (smL s1) h" "lookup_key (job_key demo_job 0) (mLoader (smL s)) = Loaded" by blast
  have reach: "sysreach demo_decode demo_job s" by (rule sysruns_reach [OF rtranclp_trans [OF s1(1) s(1)] s0(1)])
  have begin_: "pcs (smL s) 1 = Lookup" using s(3) by (simp add: s1(4) s0(5) del: One_nat_def)
  have cached: "lookup_key (loadKey ''10.0.0.1'' ''llama'') (mLoader (smL s)) = Loaded"
    using s(4) by (simp add: job_key_def demo_job_def)
  have "demo_job 1 = (''10.0.0.1'', ''llama'')" by (simp add: demo_job_def)
  from cached_key_never_loads [OF reach this _ _ cached begin_ rtranclp.rtrancl_refl]
  obtain s' where "sysruns demo_decode demo_job s s'" "pcs (smL s') 1 = Returned" "mLoader (smL s') = mLoader (smL s)"
    by auto
  with reach begin_ cached show ?thesis by (intro exI [of _ s] exI [of _ s']) (simp add: s(2) s1(2))
qed

end
