(* ===== verification/Loader_Refinement.thy ===== *)
theory Loader_Refinement
  imports Loader_Machine
begin

section \<open>The sequential request is a run of the machine\<close>

text \<open>
  \<open>PreRequest\<close> of \<open>Model_Loader\<close> translates the method with one request running;
  \<open>Loader_Machine\<close> cuts it into atomic actions. Here the first is shown to be a run of the second in
  which only that request moves: the actions are the right ones, in the right order, on every branch.
\<close>

text \<open>The outcomes of the waits are those the store holds, or a cancelled context.\<close>

definition awaits_store :: "(nat \<Rightarrow> wait_outcome) \<Rightarrow> loader \<Rightarrow> bool" where
  "awaits_store await p \<longleftrightarrow>
     (\<forall>r e. await r = Published e \<longrightarrow> lrDone (results p r) \<and> lrErr (results p r) = e)"

text \<open>The state in which request \<open>g\<close> is at \<open>c\<close>, with the given loader and tracker.\<close>

definition place :: "nat \<Rightarrow> mstate \<Rightarrow> pc \<Rightarrow> loader \<Rightarrow> tracker \<Rightarrow> mstate" where
  "place g s c p t = s\<lparr>mLoader := p, mTracker := t, pcs := (pcs s)(g := c)\<rparr>"

lemma place_simps [simp]:
  "mLoader (place g s c p t) = p" "mTracker (place g s c p t) = t" "pcs (place g s c p t) g = c"
  by (simp_all add: place_def)

lemma goto_place [simp]: "goto g c' (place g s c p t) = place g s c' p t"
  by (simp add: place_def goto_def)

lemma place_upd [simp]:
  "(place g s c p t)\<lparr>mLoader := q\<rparr> = place g s c q t" "(place g s c p t)\<lparr>mTracker := u\<rparr> = place g s c p u"
  by (simp_all add: place_def)

abbreviation own_steps ::
  "(string \<Rightarrow> model_entry list option) \<Rightarrow> (nat \<Rightarrow> string \<times> string) \<Rightarrow> nat \<Rightarrow> mstate \<Rightarrow> mstate \<Rightarrow> bool" where
  "own_steps decode job g \<equiv> (own_step decode job g)\<^sup>*\<^sup>*"

lemma own_place:
  "mstep decode job (place g s c p t) (place g s c' q u) \<Longrightarrow> c' \<noteq> c \<Longrightarrow>
   own_step decode job g (place g s c p t) (place g s c' q u)"
  by (simp add: own_step_def place_def)

text \<open>
  One action of the request after another: each lemma is the rest of the request from one of its
  program counters.
\<close>

lemma then_leads: "own_step decode job g s s1 \<Longrightarrow> own_steps decode job g s1 s2 \<Longrightarrow> own_steps decode job g s s2"
  by (rule converse_rtranclp_into_rtranclp)

lemma two_steps: "own_step decode job g s s1 \<Longrightarrow> own_step decode job g s1 s2 \<Longrightarrow> own_steps decode job g s s2"
  by (blast intro: then_leads)

lemma one_act:
  "mstep decode job (place g s c p t) (place g s c' q u) \<Longrightarrow> c' \<noteq> c \<Longrightarrow>
   own_steps decode job g (place g s c p t) (place g s c' q u)"
  by (rule r_into_rtranclp) (rule own_place)

lemma retract_run:
  assumes "job g = (ip, m)" and "ip \<noteq> []" and "markTrackerUnloaded ip m (p, Some t) = (p', Some t')"
  shows "own_steps decode job g (place g s Retract p t) (place g s Returned p' t')"
proof -
  obtain u nt where mu: "MarkUnloaded ip m t = (u, nt)" by fastforce
  show ?thesis
  proof (cases nt)
    case None
    with assms mu show ?thesis
      using mstep.retract [of "place g s Retract p t" g job u nt decode]
      by (auto simp: markTrackerUnloaded_def intro!: one_act)
  next
    case (Some n)
    obtain ip' m' where n: "n = (ip', m')" by fastforce
    have "own_step decode job g (place g s Retract p t) (place g s (Notify ip' m') p u)"
      using mstep.retract [of "place g s Retract p t" g job u nt decode] assms(1) mu by (intro own_place) (simp_all add: Some n)
    moreover have "own_step decode job g (place g s (Notify ip' m') p u)
        (place g s Returned (InvalidateLoadedModel ip' m' p) u)"
      using mstep.notify [of "place g s (Notify ip' m') p u" g ip' m' decode job] by (intro own_place) simp_all
    ultimately show ?thesis
      using assms mu Some n by (auto simp: markTrackerUnloaded_def intro: then_leads)
  qed
qed

text \<open>\<open>loadModel\<close> is the run from \<open>Begin\<close> to the return, or to the retraction when it failed.\<close>

lemma finish_run:
  "own_steps decode job g (place g s (Finish r err) p t)
    (place g s (if err = None then Returned else Retract) (finishLoad (job_key job g) r err p) t)"
  using mstep.finish [of "place g s (Finish r err) p t" g r err decode job] by (auto intro!: one_act)

lemma join_run:
  assumes job: "job g = (ip, m)" and "awaits_store await p" and some: "loadingModels p (loadKey ip m) = Some r"
    and load: "loadModel decode await env ip m p = Some (err, p')"
  shows "own_steps decode job g (place g s Begin p t) (place g s (if err = None then Returned else Retract) p' t)"
proof -
  have b: "beginLoad (loadKey ip m) p = (Some r, p)" using some by (simp add: beginLoad_def)
  have join: "own_step decode job g (place g s Begin p t) (place g s (AwaitLoad r) p t)"
    using mstep.begin_join [of "place g s Begin p t" g job r p decode] b job
    by (intro own_place) (simp_all add: job_key_def)
  show ?thesis
  proof (cases "await r")
    case (Published e)
    then have pub: "lrDone (results p r)" "lrErr (results p r) = e"
      using assms(2) by (simp_all add: awaits_store_def)
    with load b Published have "p' = p" "err = None \<longleftrightarrow> e = None"
      by (auto simp: loadModel_def split: option.splits)
    moreover have "own_step decode job g (place g s (AwaitLoad r) p t)
        (place g s (if e = None then Returned else Retract) p t)"
      using mstep.await_load [of "place g s (AwaitLoad r) p t" g r decode job] pub
      by (intro own_place) (simp_all split: if_split)
    ultimately show ?thesis using two_steps [OF join] by auto
  next
    case Cancelled
    with load b have "p' = p" "err \<noteq> None" by (auto simp: loadModel_def)
    moreover have "own_step decode job g (place g s (AwaitLoad r) p t) (place g s Retract p t)"
      using mstep.await_load_cancelled [of "place g s (AwaitLoad r) p t" g r decode job]
      by (intro own_place) simp_all
    ultimately show ?thesis using two_steps [OF join] by auto
  qed
qed

lemma primary_run:
  assumes job: "job g = (ip, m)" and none: "loadingModels p (loadKey ip m) = None"
    and load: "loadModel decode await env ip m p = Some (err, p')"
  shows "own_steps decode job g (place g s Begin p t) (place g s (if err = None then Returned else Retract) p' t)"
proof -
  let ?k = "loadKey ip m" and ?r = "nextResult p"
  have k: "job_key job g = ?k" by (simp add: job_key_def job)
  define q where "q = snd (beginLoad ?k p)"
  have b: "beginLoad ?k p = (None, q)" and cfg: "ldConfig q = ldConfig p"
    using none by (simp_all add: q_def beginLoad_def)
  obtain err' where prim: "primaryLoad decode env (ldConfig p) ip m = Some err'"
    "err = err'" "p' = finishLoad ?k ?r err' (if err' = None then cache_loaded (envNow env) ?k q else q)"
    using load b by (auto simp: loadModel_def Let_def split: option.splits)
  have start: "own_step decode job g (place g s Begin p t) (place g s (Load ?r) q t)"
    using mstep.begin_primary [of "place g s Begin p t" g job q decode] b by (intro own_place) (simp_all add: k)
  have finished: "own_step decode job g (place g s (Load ?r) q t)
      (place g s (if err' = None then CacheLoaded ?r else Finish ?r err') q t)"
    using mstep.load_end [of "place g s (Load ?r) q t" g ?r decode env job err'] prim(1)
    by (intro own_place) (simp_all add: job cfg)
  show ?thesis
  proof (cases err')
    case None
    have "own_step decode job g (place g s (CacheLoaded ?r) q t)
        (place g s (Finish ?r None) (cache_loaded (envNow env) ?k q) t)"
      using mstep.cache_load [of "place g s (CacheLoaded ?r) q t" g ?r decode job "envNow env"]
      by (intro own_place) (simp_all add: k)
    from then_leads [OF this finish_run] finished None show ?thesis
      by (auto simp: prim(2,3) k intro: then_leads [OF start then_leads])
  next
    case (Some e)
    with finished finish_run [of decode job g s ?r err' q t] show ?thesis
      by (auto simp: prim(2,3) k intro: then_leads [OF start then_leads])
  qed
qed

lemma load_run:
  assumes "job g = (ip, m)" and "awaits_store await p" and "loadModel decode await env ip m p = Some (err, p')"
  shows "own_steps decode job g (place g s Begin p t) (place g s (if err = None then Returned else Retract) p' t)"
  using join_run [where job = job, OF assms(1,2) _ assms(3)] primary_run [where job = job, OF assms(1) _ assms(3)]
  by (cases "loadingModels p (loadKey ip m)") blast+

text \<open>The part of a request after the maps had nothing to say, or a load it waited for had failed.\<close>

lemma query_run:
  assumes job: "job g = (ip, m)" and ip: "ip \<noteq> []" and await: "awaits_store await p"
    and run: "(if isModelLoaded decode (envQuery env) (ldConfig p) ip m
       then Some (cache_loaded (envNow env) (loadKey ip m) p, Some (MarkLoaded ip m t))
       else case loadModel decode await env ip m p of
         None \<Rightarrow> None
       | Some (None, q) \<Rightarrow> Some (q, Some (MarkLoaded ip m t))
       | Some (Some e, q) \<Rightarrow> Some (markTrackerUnloaded ip m (q, Some (MarkLoaded ip m t)))) = Some (p', Some t')"
  shows "own_steps decode job g (place g s Query p t) (place g s Returned p' t')"
proof -
  let ?t = "MarkLoaded ip m t"
  have k: "job_key job g = loadKey ip m" by (simp add: job_key_def job)
  have asked: "own_step decode job g (place g s Query p t)
      (place g s (if isModelLoaded decode (envQuery env) (ldConfig p) ip m then CacheWarm else MarkCold) p t)"
    using mstep.query [of "place g s Query p t" g decode job "envQuery env"] by (intro own_place) (simp_all add: job)
  show ?thesis
  proof (cases "isModelLoaded decode (envQuery env) (ldConfig p) ip m")
    case True
    let ?p = "cache_loaded (envNow env) (loadKey ip m) p"
    have "own_step decode job g (place g s CacheWarm p t) (place g s MarkWarm ?p t)"
      using mstep.cache_warm [of "place g s CacheWarm p t" g decode job "envNow env"] by (intro own_place) (simp_all add: k)
    moreover have "own_step decode job g (place g s MarkWarm ?p t) (place g s Returned ?p ?t)"
      using mstep.mark_warm [of "place g s MarkWarm ?p t" g decode job] by (intro own_place) (simp_all add: job)
    ultimately show ?thesis
      using asked run True by (auto intro: then_leads)
  next
    case False
    have marked: "own_step decode job g (place g s MarkCold p t) (place g s Begin p ?t)"
      using mstep.mark_cold [of "place g s MarkCold p t" g decode job] by (intro own_place) (simp_all add: job)
    obtain err q where load: "loadModel decode await env ip m p = Some (err, q)"
      using run False by (auto split: option.splits)
    have "own_steps decode job g (place g s (if err = None then Returned else Retract) q ?t) (place g s Returned p' t')"
      using run False load retract_run [where job = job and g = g and ip = ip and m = m and p = q and t = ?t, OF job ip] by (auto split: option.splits)
    with load_run [where job = job and g = g and ip = ip and m = m and s = s and t = ?t, OF job await load] have "own_steps decode job g (place g s Begin p ?t) (place g s Returned p' t')"
      by (rule rtranclp_trans)
    with asked marked False show ?thesis by (auto intro: then_leads)
  qed
qed

text \<open>A request that finds a load in progress and waits for it.\<close>

lemma wait_run:
  assumes "lookup_key (job_key job g) p = Loading r" and "awaits_store await p"
  shows "own_steps decode job g (place g s Lookup p t)
    (place g s (case await r of Published (Some e) \<Rightarrow> Query | _ \<Rightarrow> Returned) p t)"
proof -
  have wait: "own_step decode job g (place g s Lookup p t) (place g s (AwaitFirst r) p t)"
    using mstep.lookup_wait [of "place g s Lookup p t" g job r decode] assms(1) by (intro own_place) simp_all
  show ?thesis
  proof (cases "await r")
    case (Published e)
    then have "lrDone (results p r)" "lrErr (results p r) = e"
      using assms(2) by (simp_all add: awaits_store_def)
    then have "own_step decode job g (place g s (AwaitFirst r) p t) (place g s (if e = None then Returned else Query) p t)"
      using mstep.await_first [of "place g s (AwaitFirst r) p t" g r decode job] by (intro own_place) simp_all
    from two_steps [OF wait this] show ?thesis by (cases e) (simp_all add: Published)
  next
    case Cancelled
    have "own_step decode job g (place g s (AwaitFirst r) p t) (place g s Returned p t)"
      using mstep.await_first_cancelled [of "place g s (AwaitFirst r) p t" g r decode job] by (intro own_place) simp_all
    from two_steps [OF wait this] show ?thesis by (simp add: Cancelled)
  qed
qed

text \<open>The sequential \<open>PreRequest\<close> is a run of the machine of concurrent requests. Whatever the environment
  answers, when the waits end as the store of results says or by a cancelled context, the loader and
  the tracker it returns are those the machine has after actions of that request alone.\<close>

lemma PreRequest_is_a_run:
  assumes "validateAndExtractPreRequestInfo request result = (m, ip, podKey)" and "m \<noteq> []"
    and "job g = (ip, m)" and "awaits_store await p"
    and "PreRequest decode await env request result (p, Some t) = Some (p', Some t')"
  shows "own_steps decode job g (place g s Lookup p t) (place g s Returned p' t')"
proof -
  have ip: "ip \<noteq> []" using validate_nonempty [OF assms(1)] assms(2) by simp
  have k: "job_key job g = loadKey ip m" by (simp add: job_key_def assms(3))
  note query = query_run [where job = job and g = g and ip = ip and m = m and p = p and t = t and s = s, OF assms(3) ip assms(4)]
  have marks: "markTrackerLoaded ip m (q, Some t) = (q, Some (MarkLoaded ip m t))" for q
    using ip by (rule markTrackerLoaded_some)
  have rest: "own_steps decode job g (place g s Query p t) (place g s Returned p' t')"
    if "handleAlreadyLoadedOrLoading await (loadKey ip m) m ip (p, Some t) = (False, (p, Some t))"
    by (rule query)
      (use assms(2,5) ip that in \<open>auto simp: PreRequest_def assms(1) Let_def marks split: if_splits option.splits\<close>)
  have returned: "(q, u) = (p', Some t')"
    if "handleAlreadyLoadedOrLoading await (loadKey ip m) m ip (p, Some t) = (True, (q, u))" for q u
    using assms(2,5) ip that by (simp add: PreRequest_def assms(1) Let_def)
  note handle = handleAlreadyLoadedOrLoading_def
  show ?thesis
  proof (cases "lookup_key (loadKey ip m) p")
    case Loaded
    have "own_step decode job g (place g s Lookup p t) (place g s MarkWarm p t)"
      using mstep.lookup_warm [of "place g s Lookup p t" g job decode] Loaded by (intro own_place) (simp_all add: k)
    moreover have "own_step decode job g (place g s MarkWarm p t) (place g s Returned p (MarkLoaded ip m t))"
      using mstep.mark_warm [of "place g s MarkWarm p t" g decode job] by (intro own_place) (simp_all add: assms(3))
    ultimately show ?thesis
      using returned [of p "Some (MarkLoaded ip m t)"] Loaded by (auto simp: handle marks intro: two_steps)
  next
    case (Loading r)
    have wait: "own_steps decode job g (place g s Lookup p t)
        (place g s (case await r of Published (Some e) \<Rightarrow> Query | _ \<Rightarrow> Returned) p t)"
      by (rule wait_run [where job = job, OF _ assms(4)]) (simp add: k Loading)
    show ?thesis
    proof (cases "\<exists>e. await r = Published (Some e)")
      case True
      with wait rest Loading show ?thesis by (auto simp: handle intro: rtranclp_trans)
    next
      case False
      with wait returned [of p "Some t"] Loading show ?thesis
        by (auto simp: handle split: wait_outcome.splits option.splits)
    qed
  next
    case Cold
    have "own_step decode job g (place g s Lookup p t) (place g s Query p t)"
      using mstep.lookup_cold [of "place g s Lookup p t" g job decode] Cold by (intro own_place) (simp_all add: k)
    then show ?thesis using rest Cold by (auto simp: handle intro: then_leads)
  qed
qed

text \<open>A request that loads \<open>llama\<close> from the start of the machine.\<close>

lemma demo_request_run:
  "\<exists>p' t'. PreRequest demo_decode (\<lambda>r. Cancelled) demo_env (Some demo_request) (Some demo_schedule)
      (mLoader demo_start, Some (mTracker demo_start)) = Some (p', Some t') \<and>
    own_steps demo_decode demo_job 0 demo_start (place 0 demo_start Returned p' t')"
proof -
  let ?p = "NewPlugin ''loader'' DefaultConfig"
  have start: "mLoader demo_start = ?p" "mTracker demo_start = demo_world_tracker"
    "place 0 demo_start Lookup ?p demo_world_tracker = demo_start"
    by (simp_all add: demo_start_def minit_def place_def fun_upd_idem)
  have cold: "lookup_key k ?p = Cold" for k by (simp add: lookup_key_def NewPlugin_def)
  obtain p' t' where run: "PreRequest demo_decode (\<lambda>r. Cancelled) demo_env (Some demo_request) (Some demo_schedule)
      (?p, Some demo_world_tracker) = Some (p', Some t')"
    using cold_outcome [OF demo_validate _ demo_world(1) cold demo_not_loaded, of "\<lambda>r. Cancelled"] demo_primary
    by fastforce
  have "own_steps demo_decode demo_job 0 (place 0 demo_start Lookup ?p demo_world_tracker) (place 0 demo_start Returned p' t')"
    by (rule PreRequest_is_a_run [OF demo_validate _ _ _ run]) (simp_all add: demo_job_def awaits_store_def)
  with run start show ?thesis by auto
qed

end
