(* ===== verification/Poll_Refinement.thy ===== *)
theory Poll_Refinement
  imports Tracker_Machine
begin

section \<open>The poller alone is the sequential poll\<close>

text \<open>
  \<open>pollOnce\<close> of \<open>Tracker_Dedup\<close> is one run of the machine: the one in which nothing comes between the
  actions of the poller. What \<open>Tracker_Correct\<close> proves of \<open>pollOnce\<close> is therefore about these runs.
\<close>

abbreviation poller_runs :: "pmachine \<Rightarrow> pmachine \<Rightarrow> bool" where
  "poller_runs \<equiv> poller_step\<^sup>*\<^sup>*"

lemma run_pods:
  assumes "\<And>ip S. query ip = Inr S \<Longrightarrow> finite S"
  shows "pmPhase s = Querying pods nxt ips \<Longrightarrow> fold (poll_pod query) pods (pmT s, nxt, ips) = (t, nxt', ips') \<Longrightarrow>
    poller_runs s (s\<lparr>pmT := t, pmPhase := Querying [] nxt' ips'\<rparr>)"
proof (induction pods arbitrary: s nxt ips)
  case Nil
  then have "s\<lparr>pmT := t, pmPhase := Querying [] nxt' ips'\<rparr> = s" by simp
  then show ?case by simp
next
  case (Cons pod pods)
  obtain t1 nxt1 ips1 where one: "poll_pod query pod (pmT s, nxt, ips) = (t1, nxt1, ips1)" by (metis prod_cases3)
  have "poll_pod (\<lambda>_. query (PodIP pod)) pod (pmT s, nxt, ips) = (t1, nxt1, ips1)"
    using one by (simp add: poll_pod_def)
  with Cons.prems(1) assms have step: "poller_step s (s\<lparr>pmT := t1, pmPhase := Querying pods nxt1 ips1\<rparr>)"
    by (blast intro: ask_pod)
  show ?case
    using converse_rtranclp_into_rtranclp [OF step Cons.IH] Cons.prems(2) one by simp
qed

text \<open>A request that the server carries out, with what follows it.\<close>

lemma run_success:
  assumes ph: "pmPhase s = Unloading ((m, hs) # rs) ips n" and "n < MaxUnloadsPerCycle"
    and "loser_ip ips (pickLoser pr hs) = ip" and "ip \<noteq> []" and "MarkUnloaded (pickLoser pr hs) m (pmT s) = (t1, nt)"
  shows "\<exists>s'. poller_runs s s' \<and> pmPhase s' = Unloading rs ips (n + 1) \<and> pmT s' = forget_obs m t1 \<and>
    pmSent s' = pmSent s @ [(ip, m)] \<and> pmHeard s' = pmHeard s @ note_list nt"
proof -
  let ?l = "pickLoser pr hs"
  define s1 where "s1 = s\<lparr>pmPhase := Agreed ?l m rs ips n, pmSent := pmSent s @ [(ip, m)]\<rparr>"
  define s2 where "s2 = s1\<lparr>pmT := t1, pmPhase := Forgetting m rs ips n, pmHeard := pmHeard s1 @ note_list nt\<rparr>"
  define s3 where "s3 = s2\<lparr>pmT := forget_obs m (pmT s2), pmPhase := Unloading rs ips (n + 1),
    pmStreak := (pmStreak s2)(m := 0)\<rparr>"
  have "poller_step s s1" unfolding s1_def by (rule agreed [OF ph assms(2) refl assms(3,4)])
  moreover have "poller_step s1 s2"
    unfolding s2_def by (rule retract [of _ ?l m rs ips n]) (simp_all add: s1_def assms(5))
  moreover have "poller_step s2 s3" unfolding s3_def by (rule forget) (simp add: s2_def)
  ultimately have "poller_runs s s3" by (meson converse_rtranclp_into_rtranclp r_into_rtranclp)
  then show ?thesis by (intro exI [of _ s3]) (simp add: s3_def s2_def s1_def)
qed

text \<open>The log of the machine continues the one it had.\<close>

lemma run_unloads:
  "pmPhase s = Unloading rs ips n \<Longrightarrow>
   unload_ripe pr unload ips rs n (pmT s) \<lparr>attempts = pmSent s, notified = pmHeard s\<rparr> = (t, lg) \<Longrightarrow>
   \<exists>s'. poller_runs s s' \<and> pmPhase s' = Waiting \<and> pmT s' = t \<and> pmSent s' = attempts lg \<and> pmHeard s' = notified lg"
proof (induction rs arbitrary: s n)
  case Nil
  then show ?case
    using pass_ends [of s "[]" ips n] by (intro exI [of _ "s\<lparr>pmPhase := Waiting\<rparr>"]) auto
next
  case (Cons e rs)
  obtain m hs where e: "e = (m, hs)" by fastforce
  have first: "\<exists>s'. poller_runs s s' \<and> pmPhase s' = Waiting \<and> pmT s' = t \<and> pmSent s' = attempts lg \<and> pmHeard s' = notified lg"
    if step: "poller_runs s s1" and ph: "pmPhase s1 = Unloading rs ips n1"
      and rest: "unload_ripe pr unload ips rs n1 (pmT s1) \<lparr>attempts = pmSent s1, notified = pmHeard s1\<rparr> = (t, lg)" for s1 n1
    using Cons.IH [OF ph rest] rtranclp_trans [OF step] by blast
  let ?l = "pickLoser pr hs"
  let ?ip = "loser_ip ips ?l"
  show ?case
  proof (cases "n < MaxUnloadsPerCycle")
    case False
    with Cons.prems pass_ends [of s "e # rs" ips n] show ?thesis
      by (intro exI [of _ "s\<lparr>pmPhase := Waiting\<rparr>"]) (auto simp: e)
  next
    case n: True
    note ph = Cons.prems(1) [unfolded e]
    note run = Cons.prems(2) [unfolded e]
    show ?thesis
    proof (cases "?ip = []")
      case True
      from skip [OF ph n True] have "poller_runs s (s\<lparr>pmPhase := Unloading rs ips n\<rparr>)" by blast
      moreover have "unload_ripe pr unload ips rs n (pmT s) \<lparr>attempts = pmSent s, notified = pmHeard s\<rparr> = (t, lg)"
        using run n True by (auto simp: Let_def loser_ip_def split: if_splits option.splits)
      ultimately show ?thesis by (intro first [of "s\<lparr>pmPhase := Unloading rs ips n\<rparr>" n]) auto
    next
      case ip: False
      then have l: "?l \<noteq> []" "ips ?l = Some ?ip" by (auto simp: loser_ip_def split: if_splits option.splits)
      show ?thesis
      proof (cases "unload ?ip m")
        case (Some err)
        let ?s1 = "s\<lparr>pmPhase := Unloading rs ips n, pmSent := pmSent s @ [(?ip, m)]\<rparr>"
        from refused [OF ph n refl ip] have "poller_runs s ?s1" by blast
        moreover have "unload_ripe pr unload ips rs n (pmT s)
            \<lparr>attempts = pmSent s @ [(?ip, m)], notified = pmHeard s\<rparr> = (t, lg)"
          using run n l ip Some by (simp add: Let_def)
        ultimately show ?thesis by (intro first [of ?s1 n]) auto
      next
        case None
        obtain t1 nt where mu: "MarkUnloaded ?l m (pmT s) = (t1, nt)" by fastforce
        from run_success [OF ph n refl ip mu] obtain s3 where s3: "poller_runs s s3"
          "pmPhase s3 = Unloading rs ips (n + 1)" "pmT s3 = forget_obs m t1"
          "pmSent s3 = pmSent s @ [(?ip, m)]" "pmHeard s3 = pmHeard s @ note_list nt" by blast
        have "unload_ripe pr unload ips rs (n + 1) (pmT s3)
            \<lparr>attempts = pmSent s3, notified = pmHeard s3\<rparr> = (t, lg)"
          using run n l ip None mu by (simp add: Let_def s3 note_list_def)
        with s3(1,2) show ?thesis by (rule first)
      qed
    qed
  qed
qed

lemma unload_ripe_log:
  "unload_ripe pr unload ips rs 0 t \<lparr>attempts = as, notified = ns\<rparr> =
    (case unload_ripe pr unload ips rs 0 t empty_log of
       (t', lg) \<Rightarrow> (t', \<lparr>attempts = as @ attempts lg, notified = ns @ notified lg\<rparr>))"
  by (simp add: unload_ripe_scan split: prod.split)

lemma run_pass:
  assumes ph: "pmPhase s = Polled" and ord: "dedup_ranges ord"
    and run: "resolveDuplicates ord pr unload (pmT s) = (t, lg)"
  shows "\<exists>s'. poller_runs s s' \<and> pmPhase s' = Waiting \<and> pmT s' = t \<and>
    pmSent s' = pmSent s @ attempts lg \<and> pmHeard s' = pmHeard s @ notified lg"
proof (cases "hasPressure (pmT s) \<and> firstPoll (pmT s)")
  case False
  with no_pass [OF ph] run show ?thesis
    by (intro exI [of _ "s\<lparr>pmPhase := Waiting\<rparr>"]) (auto simp: resolveDuplicates_def Let_def split: if_splits)
next
  case True
  let ?dup = "build_dup ord (pmT s)"
  obtain obs ripe where res: "count_pass ord ?dup (pmT s) = (obs, ripe)" by fastforce
  define s1 where "s1 = s\<lparr>pmPhase := Counting ?dup (podIP (pmT s)), pmHolders := holder_set (pmT s)\<rparr>"
  define s2 where "s2 = s1\<lparr>pmT := (pmT s1)\<lparr>dupObs := obs\<rparr>,
    pmPhase := (if ripe = [] then Waiting else Unloading (sort_key fst ripe) (podIP (pmT s)) 0),
    pmStreak := (\<lambda>m. if 2 \<le> card (pmHolders s1 m) then pmStreak s1 m + 1 else 0)\<rparr>"
  have "poller_step s s1" unfolding s1_def by (rule take_snapshot) (use ph True ord in auto)
  moreover have "poller_step s1 s2"
    unfolding s2_def by (rule count [of _ ?dup _ ord]) (simp_all add: s1_def res ord)
  ultimately have start: "poller_runs s s2" by (meson converse_rtranclp_into_rtranclp r_into_rtranclp)
  have logs: "pmSent s2 = pmSent s" "pmHeard s2 = pmHeard s" "pmT s2 = (pmT s)\<lparr>dupObs := obs\<rparr>"
    by (simp_all add: s2_def s1_def)
  have rd: "(if ripe = [] then (pmT s2, empty_log)
      else unload_ripe pr unload (podIP (pmT s)) (sort_key fst ripe) 0 (pmT s2) empty_log) = (t, lg)"
    using run res True by (cases "ripe = []") (simp_all add: resolveDuplicates_def count_pass_def Let_def logs)
  show ?thesis
  proof (cases "ripe = []")
    case True
    with rd start logs show ?thesis by (intro exI [of _ s2]) (auto simp: s2_def)
  next
    case False
    then have ph2: "pmPhase s2 = Unloading (sort_key fst ripe) (podIP (pmT s)) 0" by (simp add: s2_def)
    have "unload_ripe pr unload (podIP (pmT s)) (sort_key fst ripe) 0 (pmT s2)
        \<lparr>attempts = pmSent s2, notified = pmHeard s2\<rparr> =
        (t, \<lparr>attempts = pmSent s @ attempts lg, notified = pmHeard s @ notified lg\<rparr>)"
      using rd False by (subst unload_ripe_log) (simp add: logs)
    from run_unloads [OF ph2 this] rtranclp_trans [OF start] show ?thesis by auto
  qed
qed

lemma poll_run:
  assumes "pmPhase s = Waiting" and "dedup_ranges ord" and "\<forall>ip S. query ip = Inr S \<longrightarrow> finite S"
    and "pollOnce ord client query pr unload (pmT s) = (t, lg)"
  shows "\<exists>s'. poller_step\<^sup>*\<^sup>* s s' \<and> pmPhase s' = Waiting \<and> pmT s' = t \<and>
    pmSent s' = pmSent s @ attempts lg \<and> pmHeard s' = pmHeard s @ notified lg"
proof (cases "listPods client (pmT s)")
  case (Inl e)
  with assms(1,4) show ?thesis by (intro exI [of _ s]) (auto simp: pollOnce_def)
next
  case (Inr pods)
  obtain t1 nxt ips where f: "fold (poll_pod query) pods (pmT s, Map.empty, Map.empty) = (t1, nxt, ips)"
    by (metis prod_cases3)
  define s1 where "s1 = s\<lparr>pmPhase := Querying pods Map.empty Map.empty\<rparr>"
  define s2 where "s2 = s1\<lparr>pmT := t1, pmPhase := Querying [] nxt ips\<rparr>"
  define s3 where "s3 = s2\<lparr>pmT := poll_swap nxt ips (pmT s2), pmPhase := Polled\<rparr>"
  have "poller_step s s1" unfolding s1_def by (rule list_pods [OF assms(1)])
  moreover have "poller_runs s1 s2"
    unfolding s2_def by (rule run_pods [of query]) (use assms(3) f in \<open>auto simp: s1_def\<close>)
  moreover have "poller_step s2 s3" unfolding s3_def by (rule swap_maps) (simp add: s2_def)
  ultimately have start: "poller_runs s s3"
    by (meson converse_rtranclp_into_rtranclp rtranclp.rtrancl_into_rtrancl)
  have "pmT s3 = poll_update query pods (pmT s)" by (simp add: s3_def s2_def poll_update_def f)
  then have "resolveDuplicates ord pr unload (pmT s3) = (t, lg)" using assms(4) Inr by (simp add: pollOnce_def)
  from run_pass [OF _ assms(2) this] rtranclp_trans [OF start] show ?thesis
    by (auto simp: s3_def s2_def s1_def)
qed

text \<open>The sequential poll refines the machine. Whatever the API server lists, the pods answer, the pressures
  are and the unload requests return, what \<open>pollOnce\<close> computes is the outcome of a run of the poller
  from one wait to the next with nothing in between: the same tracker, the same requests sent and the
  same notices to the observer, in the same order.\<close>

theorem pollOnce_is_a_run:
  assumes "pmPhase s = Waiting" and "dedup_ranges ord" and "\<forall>ip S. query ip = Inr S \<longrightarrow> finite S"
    and "pollOnce ord client query pr unload (pmT s) = (t, lg)"
  shows "\<exists>s'. poller_step\<^sup>*\<^sup>* s s' \<and> pmPhase s' = Waiting \<and> pmT s' = t \<and>
    pmSent s' = pmSent s @ attempts lg \<and> pmHeard s' = pmHeard s @ notified lg"
  using assms by (rule poll_run)

theorem pollOnce_is_a_run_witness:
  "\<exists>s'. poller_step\<^sup>*\<^sup>* (pm_start grace_one True) s' \<and> pmPhase s' = Waiting \<and>
    IsLoaded (pmT s') ''10.0.0.1'' ''llama'' \<and> pmSent s' = []"
proof -
  let ?s = "pm_start grace_one True"
  let ?query = "\<lambda>ip. Inr {''llama''} :: query_error + string set"
  let ?client = "\<lambda>opts. Inr [demo_server ''10.0.0.1''] :: string + pod list"
  obtain t lg where p: "pollOnce sorted_orders ?client ?query (\<lambda>_. Fin 0) (\<lambda>ip m. None) (pmT ?s) = (t, lg)"
    by fastforce
  have wf: "wf_tracker (pmT ?s)" using pinv_start by (simp add: pinv_def)
  let ?t = "poll_update ?query [demo_server ''10.0.0.1''] (pmT ?s)"
  have fin: "?query ip = Inr S \<Longrightarrow> finite S" for ip S by auto
  note u = poll_update_correct [OF wf, of ?query "[demo_server ''10.0.0.1'']", OF fin]
  have H: "holder_set ?t m = (if m = ''llama'' then {''10.0.0.1''} else {})" for m
    using u(2) by (auto simp: holder_set_def view_poll_def listed_ips_def split: if_splits)
  have rd: "resolveDuplicates sorted_orders (\<lambda>_. Fin 0) (\<lambda>ip m. None) ?t = (t, lg)"
    using p by (simp add: pollOnce_def listPods_def)
  have "ripe_models ?t = {}" by (simp add: ripe_models_def duplicated_def H)
  then have ripe: "ripe_list ?t = []" by (simp add: ripe_list_def)
  have t: "pod_set t = pod_set ?t \<and> wf_tracker t \<and> lg = empty_log"
  proof (cases "hasPressure ?t \<and> firstPoll ?t")
    case True
    with rd ripe have "t = ?t\<lparr>dupObs := next_obs ?t\<rparr>" "lg = empty_log"
      by (simp_all add: resolveDuplicates_eq [OF u(1) dedup_ranges_sorted])
    then show ?thesis using wf_dupObs [OF u(1) finite_dom_next_obs [OF u(1)]] by simp
  next
    case False
    with rd u(1) show ?thesis by (auto simp: resolveDuplicates_eq [OF u(1) dedup_ranges_sorted])
  qed
  have "''10.0.0.1'' \<in> holder_set t ''llama''" using t H [of "''llama''"] holder_set_cong [of t ?t] by simp
  then have loaded: "IsLoaded t ''10.0.0.1'' ''llama''" "attempts lg = []"
    using t by (simp_all add: IsLoaded_view holder_set_def)
  have "pmPhase ?s = Waiting" "pmSent ?s = []" by (simp_all add: pm_start_def)
  with pollOnce_is_a_run [OF _ dedup_ranges_sorted _ p] loaded show ?thesis by auto
qed

end
