(* ===== verification/Pod_State.thy ===== *)
theory Pod_State
  imports Go_Float
begin

section \<open>The pod-state cache\<close>

text \<open>
  \<open>internal/podstate/cache.go\<close>: the last load signal of each pod, written by the
  loaded-model filter and read by the model tracker to choose which copy of a duplicated model to
  give up. A \<open>*Cache\<close> that may be nil is an option. Each method holds the mutex for its
  whole body, so each is one atomic function of the cache.
\<close>

record snapshot =
  PodKey :: string
  RunningRequestsSize :: int64
  WaitingQueueSize :: int64
  KVCacheUsagePercent :: float64
  UpdateTime :: gotime

type_synonym cache = "string \<rightharpoonup> snapshot"

definition NewCache :: cache where
  "NewCache = Map.empty"

definition cache_Update :: "gotime \<Rightarrow> cache option \<Rightarrow> snapshot \<Rightarrow> cache option" where
  "cache_Update now c s =
     (case c of None \<Rightarrow> None
      | Some d \<Rightarrow> if PodKey s = [] then c else Some (d(PodKey s \<mapsto> s\<lparr>UpdateTime := now\<rparr>)))"

text \<open>The two counters are added as 64-bit integers before the sum becomes a \<open>float64\<close>.\<close>

definition cache_Pressure :: "cache option \<Rightarrow> string \<Rightarrow> float64" where
  "cache_Pressure c podKey =
     (case c of None \<Rightarrow> Fin 0
      | Some d \<Rightarrow>
          if podKey = [] then Fin 0
          else case d podKey of None \<Rightarrow> Fin 0
               | Some s \<Rightarrow> f64_of_int (RunningRequestsSize s + WaitingQueueSize s))"

definition cache_Get :: "cache option \<Rightarrow> string \<Rightarrow> snapshot option" where
  "cache_Get c podKey = (case c of None \<Rightarrow> None | Some d \<Rightarrow> d podKey)"

subsection \<open>The store of last signals as an interface\<close>

text \<open>
  What the filter and the tracker rely on: writing a pod's signal makes it the one read back,
  leaves every other pod's signal alone, and fixes the pressure of a pod by its signal only.
\<close>

locale pressure_store =
  fixes update :: "'c \<Rightarrow> snapshot \<Rightarrow> 'c"
    and get :: "'c \<Rightarrow> string \<Rightarrow> snapshot option"
    and pressure :: "'c \<Rightarrow> string \<Rightarrow> float64"
    and valid :: "'c \<Rightarrow> bool"
    and stamp :: "snapshot \<Rightarrow> snapshot"
    and load :: "snapshot \<Rightarrow> float64"
  assumes valid_update: "valid c \<Longrightarrow> valid (update c s)"
    and get_update: "valid c \<Longrightarrow> PodKey s \<noteq> [] \<Longrightarrow>
      get (update c s) k = (if k = PodKey s then Some (stamp s) else get c k)"
    and update_unkeyed: "PodKey s = [] \<Longrightarrow> update c s = c"
    and pressure_get: "valid c \<Longrightarrow> k \<noteq> [] \<Longrightarrow>
      pressure c k = (case get c k of None \<Rightarrow> Fin 0 | Some s \<Rightarrow> load s)"
    and load_stamp: "load (stamp s) = load s"
begin

lemma pressure_update:
  assumes "valid c" and "k \<noteq> []" and "PodKey s \<noteq> []"
  shows "pressure (update c s) k = (if k = PodKey s then load s else pressure c k)"
  using assms by (simp add: pressure_get valid_update get_update load_stamp)

text \<open>A run of updates: the last one for a pod decides its pressure.\<close>

lemma valid_fold_update: "valid c \<Longrightarrow> valid (fold (\<lambda>s c. update c s) ss c)"
  by (induction ss arbitrary: c) (simp_all add: valid_update)

lemma pressure_fold_update_other:
  assumes "valid c" and "k \<noteq> []" and "k \<notin> PodKey ` set ss"
  shows "pressure (fold (\<lambda>s c. update c s) ss c) k = pressure c k"
  using assms
proof (induction ss arbitrary: c)
  case (Cons s ss)
  have "pressure (fold (\<lambda>s c. update c s) (s # ss) c) k = pressure (update c s) k"
    using Cons.IH [of "update c s"] Cons.prems by (simp add: valid_update)
  also have "\<dots> = pressure c k"
    using Cons.prems by (cases "PodKey s = []") (simp_all add: update_unkeyed pressure_update)
  finally show ?case .
qed simp

lemma last_write_wins:
  assumes "valid c" and "PodKey s \<noteq> []" and "PodKey s \<notin> PodKey ` set later"
  shows "pressure (fold (\<lambda>s c. update c s) (earlier @ s # later) c) (PodKey s) = load s"
  using assms
  by (simp add: pressure_fold_update_other valid_update valid_fold_update pressure_update)

end

definition snapshot_load :: "snapshot \<Rightarrow> float64" where
  "snapshot_load s = f64_of_int (RunningRequestsSize s + WaitingQueueSize s)"

interpretation podstate: pressure_store
  "cache_Update now" cache_Get cache_Pressure "\<lambda>c. c \<noteq> None"
  "\<lambda>s. s\<lparr>UpdateTime := now\<rparr>" snapshot_load
  for now
  by unfold_locales
    (auto simp: cache_Update_def cache_Get_def cache_Pressure_def snapshot_load_def
      split: option.splits)

end
