(* ===== verification/Tracker_Correct.thy ===== *)
theory Tracker_Correct
  imports Tracker_Dedup Pod_State
begin

section \<open>Correctness of the model tracker\<close>

text \<open>
  The tracker's properties: its operations refine the abstract view of warm models, a poll shows
  what the pods answered, and a pass over the duplicates is deterministic, patient, throttled and
  never gives up the last copy the tracker knows of.
\<close>

subsection \<open>A history of passes\<close>

text \<open>
  The states in which successive passes start, the latest first. Between two passes the tracker may
  be polled and marked in any way: only the counters are handed from one pass to the next.
\<close>

inductive dedup_history :: "tracker list \<Rightarrow> bool" where
  first: "wf_tracker t \<Longrightarrow> dupObs t = Map.empty \<Longrightarrow> dedup_history [t]"
| pass: "dedup_history (t # ts) \<Longrightarrow> dedup_ranges ord \<Longrightarrow> wf_tracker t' \<Longrightarrow>
    dupObs t' = dupObs (fst (resolveDuplicates ord pr unload t)) \<Longrightarrow> dedup_history (t' # t # ts)"

lemma dedup_history_wf: "dedup_history (t # ts) \<Longrightarrow> wf_tracker t"
  by (erule dedup_history.cases) simp_all

lemma dupObs_MarkUnloaded [simp]: "dupObs (fst (MarkUnloaded l m t)) = dupObs t"
  by (auto simp: MarkUnloaded_def split: option.splits)

lemma dupObs_apply_choice:
  "dupObs (apply_choice c t) =
    (case c of None \<Rightarrow> dupObs t | Some (l, m) \<Rightarrow> (dupObs t)(m := None))"
  by (auto simp: apply_choice_def forget_obs_def split: option.split)

text \<open>A counter that is still there after a pass went up by one, or the pass did nothing.\<close>

lemma dupObs_resolve:
  assumes "wf_tracker t" and "dedup_ranges ord"
    and "dupObs (fst (resolveDuplicates ord pr unload t)) m = Some c"
  shows "dupObs t m = Some c \<and> \<not> (hasPressure t \<and> firstPoll t) \<or>
    m \<in> duplicated t \<and> c = obs_count (dupObs t) m + 1"
proof (cases "hasPressure t \<and> firstPoll t")
  case True
  then have "next_obs t m = Some c"
    using assms(3)
    by (auto simp: resolveDuplicates_scan [OF assms(1,2)] dupObs_apply_choice
        split: prod.splits option.splits if_splits)
  then show ?thesis by (simp add: next_obs_def split: if_splits)
next
  case False
  then show ?thesis using assms by (auto simp: resolveDuplicates_eq)
qed

text \<open>Passes that did something: dedup is enabled and the tracker has been polled.\<close>

definition active :: "tracker \<Rightarrow> bool" where
  "active t \<longleftrightarrow> hasPressure t \<and> firstPoll t"

lemma counter_history:
  assumes "dedup_history (t # ts)" and "dupObs t m = Some c"
  shows "1 \<le> c \<and> nat c \<le> length (filter active ts) \<and>
    (\<forall>s \<in> set (take (nat c) (filter active ts)). m \<in> duplicated s)"
  using assms
proof (induction "t # ts" arbitrary: t ts c rule: dedup_history.induct)
  case (first t)
  then show ?case by simp
next
  case (pass t ts ord t' pr unload)
  have wf: "wf_tracker t" using pass.hyps(1) by (rule dedup_history_wf)
  have "dupObs (fst (resolveDuplicates ord pr unload t)) m = Some c" using pass by simp
  from dupObs_resolve [OF wf pass.hyps(3) this] show ?case
  proof
    assume "dupObs t m = Some c \<and> \<not> (hasPressure t \<and> firstPoll t)"
    then have "\<not> active t" "dupObs t m = Some c" by (simp_all add: active_def)
    then show ?thesis using pass.hyps(2) [of c] by simp
  next
    assume c: "m \<in> duplicated t \<and> c = obs_count (dupObs t) m + 1"
    show ?thesis
    proof (cases "active t")
      case False
      then have "dupObs t m = Some c"
        using pass by (auto simp: resolveDuplicates_eq [OF wf] active_def)
      then show ?thesis using pass.hyps(2) [of c] False by simp
    next
      case True
      show ?thesis
      proof (cases "dupObs t m")
        case None
        then show ?thesis using c True by (simp add: obs_count_def)
      next
        case (Some d)
        with pass.hyps(2) [OF Some] c True show ?thesis
          by (simp add: obs_count_def nat_add_distrib)
      qed
    qed
  qed
qed


lemma ripe_history:
  assumes "dedup_history (t # ts)" and "m \<in> ripe_models t"
  shows "m \<in> duplicated t \<and> nat (dedupGracePolls t - 1) \<le> length (filter active ts) \<and>
    (\<forall>s \<in> set (take (nat (dedupGracePolls t - 1)) (filter active ts)). m \<in> duplicated s)"
proof -
  have d: "m \<in> duplicated t" and g: "dedupGracePolls t - 1 \<le> obs_count (dupObs t) m"
    using assms(2) by (simp_all add: ripe_models_def)
  show ?thesis
  proof (cases "dupObs t m")
    case None
    with d g show ?thesis by (simp add: obs_count_def)
  next
    case (Some c)
    from counter_history [OF assms(1) Some] have
      c: "nat c \<le> length (filter active ts)"
        "\<forall>s \<in> set (take (nat c) (filter active ts)). m \<in> duplicated s" by blast+
    have "nat (dedupGracePolls t - 1) \<le> nat c" using g Some by (simp add: obs_count_def)
    then show ?thesis using c d set_take_subset_set_take by fastforce
  qed
qed

lemma attempts_nil: "\<not> (hasPressure t \<and> firstPoll t) \<Longrightarrow> wf_tracker t \<Longrightarrow> dedup_ranges ord \<Longrightarrow>
    resolveDuplicates ord pr unload t = (t, empty_log)"
  by (auto simp: resolveDuplicates_eq)

text \<open>When every request fails, the loop goes through all the ripe models and chooses none.\<close>

lemma dedup_scan_all_fail:
  assumes "unload = (\<lambda>ip m. Some (err ip m))"
  shows "snd (dedup_scan pr unload ips rs) = None"
    and "(m, hs) \<in> set rs \<Longrightarrow> pickLoser pr hs \<noteq> [] \<Longrightarrow> ips (pickLoser pr hs) = Some ip \<Longrightarrow> ip \<noteq> [] \<Longrightarrow>
      (ip, m) \<in> set (fst (dedup_scan pr unload ips rs))"
  by (induction rs) (auto simp: assms Let_def split: prod.splits option.splits)

lemma cache_Pressure_not_NaN: "cache_Pressure c k \<noteq> NaN"
  by (auto simp: cache_Pressure_def f64_of_int_not_NaN split: option.splits)

lemma ripe_list_member:
  assumes "wf_tracker t" and "m \<in> ripe_models t"
  shows "(m, sorted_list_of_set (holder_set t m)) \<in> set (ripe_list t)"
proof -
  have "finite (ripe_models t)"
    using finite_subset [OF _ finite_duplicated [OF assms(1)], of "ripe_models t"]
    by (auto simp: ripe_models_def)
  then show ?thesis using assms(2) by (auto simp: ripe_list_def)
qed

subsection \<open>A concrete tracker\<close>

text \<open>
  Two pods hold the model \<open>llama\<close>, which was seen on both in the eleven passes before: with the
  default grace of twelve passes it is ripe. The witnesses below evaluate the code on it.
\<close>

definition demo_options :: options where
  "demo_options =
     \<lparr>oNamespace = ''default'', oPodSelector = [''app'' \<mapsto> ''llama''], oPodPort = 0, oQueryPath = [],
      oUnloadPath = [], oPollInterval = 0, oPollTimeout = 0, oPressure = True, oDedupGracePolls = 0\<rparr>"

definition demo_loaded :: tracker where
  "demo_loaded =
     SetPodIP ''10.0.0.2'' ''10.0.0.2'' (SetPodIP ''10.0.0.1'' ''10.0.0.1''
       (SetLoaded ''10.0.0.2'' [''llama''] (SetLoaded ''10.0.0.1'' [''llama'', ''qwen'']
         (SetUnloadObserver True (NewTracker demo_options)))))"

definition demo_tracker :: tracker where
  "demo_tracker = demo_loaded\<lparr>dupObs := [''llama'' \<mapsto> 11]\<rparr>"

lemma wf_demo: "wf_tracker demo_loaded" "wf_tracker demo_tracker"
  by (simp_all add: demo_tracker_def demo_loaded_def wf_tracker_ops wf_dupObs)

lemma holder_set_podIP [simp]: "holder_set (SetPodIP p ip t) m = holder_set t m"
  by (simp add: holder_set_def pod_set_def SetPodIP_def)

lemma holder_set_new: "holder_set (SetUnloadObserver b (NewTracker opts)) m = {}"
  by (simp add: holder_set_def pod_set_def SetUnloadObserver_def NewTracker_def)

lemma holder_set_demo:
  "holder_set demo_loaded m =
    (if m = ''llama'' then {''10.0.0.1'', ''10.0.0.2''} else if m = ''qwen'' then {''10.0.0.1''} else {})"
  "holder_set demo_tracker m = holder_set demo_loaded m"
  by (auto simp: demo_tracker_def demo_loaded_def holder_set_SetLoaded wf_tracker_ops holder_set_new)

lemma demo_fields:
  "hasPressure demo_tracker" "firstPoll demo_tracker" "dedupGracePolls demo_tracker = 12"
  "hasObserver demo_tracker" "dupObs demo_tracker = [''llama'' \<mapsto> 11]"
  "podIP demo_tracker = [''10.0.0.1'' \<mapsto> ''10.0.0.1'', ''10.0.0.2'' \<mapsto> ''10.0.0.2'']"
  "firstPoll demo_loaded" "dupObs demo_loaded = Map.empty"
  by (simp_all add: demo_tracker_def demo_loaded_def SetPodIP_def SetLoaded_def link_set_def
      SetUnloadObserver_def NewTracker_def or_default_def demo_options_def DefaultDedupGracePolls_def)

lemma demo_duplicated: "duplicated demo_tracker = {''llama''}" "duplicated demo_loaded = {''llama''}"
  by (auto simp: duplicated_def holder_set_demo)

lemma demo_ripe: "ripe_models demo_tracker = {''llama''}"
  by (auto simp: ripe_models_def demo_duplicated demo_fields obs_count_def)

lemma demo_ripe_list: "ripe_list demo_tracker = [(''llama'', [''10.0.0.1'', ''10.0.0.2''])]"
  by (simp add: ripe_list_def demo_ripe holder_set_demo)

text \<open>The busier pod keeps the model: the other copy is unloaded, if the pod agrees.\<close>

definition demo_cache :: "cache option" where
  "demo_cache = cache_Update 5 (Some NewCache)
     \<lparr>PodKey = ''10.0.0.1'', RunningRequestsSize = 3, WaitingQueueSize = 1,
      KVCacheUsagePercent = Fin 0, UpdateTime = 0\<rparr>"

lemma demo_pressure:
  "cache_Pressure demo_cache ''10.0.0.1'' = Fin 4" "cache_Pressure demo_cache ''10.0.0.2'' = Fin 0"
  by (simp_all add: demo_cache_def cache_Update_def cache_Pressure_def NewCache_def) code_simp

lemma demo_pick: "pickLoser (cache_Pressure demo_cache) [''10.0.0.1'', ''10.0.0.2''] = ''10.0.0.2''"
  by (simp add: pickLoser_def demo_pressure)


text \<open>
  The pass asks the idle pod to unload the model, and forgets its copy once it agrees.
\<close>

lemma demo_scan:
  "dedup_scan (cache_Pressure demo_cache) (\<lambda>ip m. None) (podIP demo_tracker) (ripe_list demo_tracker) =
    ([(''10.0.0.2'', ''llama'')], Some (''10.0.0.2'', ''llama''))"
  by (simp add: demo_ripe_list demo_pick demo_fields Let_def)

lemma demo_attempts:
  "attempts (snd (resolveDuplicates sorted_orders (cache_Pressure demo_cache) (\<lambda>ip m. None) demo_tracker)) =
    [(''10.0.0.2'', ''llama'')]"
  by (simp add: resolveDuplicates_scan [OF wf_demo(2) dedup_ranges_sorted] demo_fields(1,2) demo_scan)

text \<open>The same two pods with a grace of two passes: the first pass counts, the second one asks.\<close>

definition demo_short :: tracker where
  "demo_short = demo_loaded\<lparr>dedupGracePolls := 2\<rparr>"

definition demo_counted :: tracker where
  "demo_counted = demo_short\<lparr>dupObs := [''llama'' \<mapsto> 1]\<rparr>"

lemma holder_set_demo_short:
  "holder_set demo_short m = holder_set demo_loaded m" "holder_set demo_counted m = holder_set demo_loaded m"
  by (simp_all add: demo_counted_def demo_short_def holder_set_def pod_set_def)

lemma wf_demo_short: "wf_tracker demo_short" "wf_tracker demo_counted"
  using wf_demo(1) by (simp_all add: demo_counted_def demo_short_def wf_tracker_def)

lemma demo_short_fields:
  "hasPressure demo_short" "firstPoll demo_short" "dupObs demo_short = Map.empty"
  "dedupGracePolls demo_short = 2" "hasPressure demo_counted" "firstPoll demo_counted"
  "dupObs demo_counted = [''llama'' \<mapsto> 1]" "dedupGracePolls demo_counted = 2"
  "podIP demo_counted = podIP demo_tracker"
  using demo_fields by (simp_all add: demo_counted_def demo_short_def demo_tracker_def)

lemma demo_short_duplicated: "duplicated demo_short = {''llama''}" "duplicated demo_counted = {''llama''}"
  using demo_duplicated by (simp_all add: duplicated_def holder_set_demo_short)

lemma demo_short_ripe: "ripe_models demo_short = {}" "ripe_models demo_counted = {''llama''}"
  by (auto simp: ripe_models_def demo_short_duplicated demo_short_fields obs_count_def)

lemma demo_counted_pass:
  "fst (resolveDuplicates sorted_orders pr unload demo_short) = demo_counted"
proof -
  have "next_obs demo_short = [''llama'' \<mapsto> 1]"
    by (simp add: next_obs_def demo_short_duplicated demo_short_fields obs_count_def fun_eq_iff)
  then show ?thesis
    by (simp add: resolveDuplicates_eq [OF wf_demo_short(1) dedup_ranges_sorted] demo_short_fields(1,2)
        ripe_list_def demo_short_ripe demo_counted_def)
qed

lemma demo_history: "dedup_history [demo_counted, demo_short]"
  by (rule dedup_history.pass [OF dedup_history.first dedup_ranges_sorted])
    (simp_all add: wf_demo_short demo_short_fields(3) demo_counted_pass)

lemma demo_counted_attempts:
  "attempts (snd (resolveDuplicates sorted_orders (cache_Pressure demo_cache) (\<lambda>ip m. None) demo_counted)) =
    [(''10.0.0.2'', ''llama'')]"
proof -
  have "ripe_list demo_counted = ripe_list demo_tracker"
    by (simp add: ripe_list_def demo_short_ripe demo_ripe holder_set_demo_short holder_set_demo)
  then show ?thesis
    by (simp add: resolveDuplicates_scan [OF wf_demo_short(2) dedup_ranges_sorted]
        demo_short_fields(5,6,9) demo_scan)
qed

subsection \<open>Properties of the tracker\<close>

text \<open>A pass over the duplicates never takes the last known copy of a model away: whatever the
  pressures and the pods' answers, a model held by some pod before the pass is held by some pod
  after it, and of every model at most one pod lost its copy.\<close>

theorem dedup_keeps_a_copy:
  assumes "wf_tracker t" and "dedup_ranges ord" and "holder_set t m \<noteq> {}"
  shows "holder_set (fst (resolveDuplicates ord pr unload t)) m \<noteq> {} \<and>
    holder_set (fst (resolveDuplicates ord pr unload t)) m \<subseteq> holder_set t m \<and>
    card (holder_set t m) \<le> card (holder_set (fst (resolveDuplicates ord pr unload t)) m) + 1"
proof -
  let ?H = "holder_set (fst (resolveDuplicates ord pr unload t))"
  note fin = finite_holder_set [OF assms(1), of m]
  from resolve_holders [OF assms(1,2), of pr unload] show ?thesis
  proof (elim disjE exE conjE)
    fix l n
    assume n: "n \<in> ripe_models t" and l: "l \<in> holder_set t n"
      and less: "?H n = holder_set t n - {l}" and others: "\<forall>k. k \<noteq> n \<longrightarrow> ?H k = holder_set t k"
    show ?thesis
    proof (cases "m = n")
      case True
      have "2 \<le> card (holder_set t m)" using n True by (simp add: ripe_models_def duplicated_def)
      then have "holder_set t m - {l} \<noteq> {}"
        using card_mono [of "{l}" "holder_set t m"] by auto
      with True l less fin show ?thesis by auto
    qed (use others assms(3) in simp)
  qed (use assms(3) in auto)
qed

theorem dedup_keeps_a_copy_witness:
  "holder_set (fst (resolveDuplicates sorted_orders (cache_Pressure demo_cache) (\<lambda>ip m. None) demo_tracker))
     ''llama'' \<noteq> {}"
  using dedup_keeps_a_copy [OF wf_demo(2) dedup_ranges_sorted, of "''llama''"
      "cache_Pressure demo_cache" "\<lambda>ip m. None"]
  by (simp add: holder_set_demo)

text \<open>Patience: a pass asks a pod to unload a model only when the model is duplicated now and was
  duplicated in each of the previous \<open>dedupGracePolls - 1\<close> passes that did anything; a single
  pass without the duplicate starts the count afresh.\<close>

theorem dedup_grace:
  assumes "dedup_history (t # ts)" and "dedup_ranges ord"
    and "(ip, m) \<in> set (attempts (snd (resolveDuplicates ord pr unload t)))"
  shows "m \<in> duplicated t \<and> nat (dedupGracePolls t - 1) \<le> length (filter active ts) \<and>
    (\<forall>s \<in> set (take (nat (dedupGracePolls t - 1)) (filter active ts)). m \<in> duplicated s)"
  using ripe_history [OF assms(1)] attempt_facts(1) [OF dedup_history_wf [OF assms(1)] assms(2,3)]
  by simp

theorem dedup_grace_witness:
  "''llama'' \<in> duplicated demo_counted \<and> ''llama'' \<in> duplicated demo_short"
  using dedup_grace [OF demo_history dedup_ranges_sorted, of "''10.0.0.2''" "''llama''"
      "cache_Pressure demo_cache" "\<lambda>ip m. None"]
  by (simp add: demo_counted_attempts demo_short_fields active_def)

text \<open>A pass sends any number of requests, but at most one of them succeeds, and the pass calls
  the observer at most once.\<close>

theorem dedup_throttle:
  assumes "wf_tracker t" and "dedup_ranges ord"
  shows "length (filter (\<lambda>(ip, m). unload ip m = None)
      (attempts (snd (resolveDuplicates ord pr unload t)))) \<le> nat MaxUnloadsPerCycle \<and>
    length (notified (snd (resolveDuplicates ord pr unload t))) \<le> nat MaxUnloadsPerCycle"
proof (cases "hasPressure t \<and> firstPoll t")
  case True
  then show ?thesis
    using dedup_scan_successes [of unload pr "podIP t" "ripe_list t"]
    by (auto simp: resolveDuplicates_scan [OF assms] MaxUnloadsPerCycle_def choice_note_def
        split: prod.splits option.splits)
qed (simp add: attempts_nil assms)

theorem dedup_throttle_witness:
  "length (notified (snd (resolveDuplicates sorted_orders (cache_Pressure demo_cache) (\<lambda>ip m. None)
     demo_tracker))) \<le> 1"
  using dedup_throttle [OF wf_demo(2) dedup_ranges_sorted, where unload = "\<lambda>ip m. None"
      and pr = "cache_Pressure demo_cache"]
  by (simp add: MaxUnloadsPerCycle_def)

text \<open>C25: the result of a pass does not depend on the order in which Go ranges over its maps: the
  unload decisions, the counters and the observer's calls are a function of the tracker's state.\<close>

theorem dedup_deterministic:
  assumes "wf_tracker t" and "dedup_ranges ord" and "dedup_ranges ord'"
  shows "resolveDuplicates ord pr unload t = resolveDuplicates ord' pr unload t"
  using assms by (simp add: resolveDuplicates_eq)

definition reversed_orders :: dedup_orders where
  "reversed_orders =
     \<lparr>ordLoaded = (\<lambda>K. rev (sorted_list_of_set K)), ordModels = (\<lambda>_ K. rev (sorted_list_of_set K)),
      ordObs = (\<lambda>K. rev (sorted_list_of_set K)), ordDup = (\<lambda>K. rev (sorted_list_of_set K))\<rparr>"

lemma dedup_ranges_reversed: "dedup_ranges reversed_orders"
  by (simp add: dedup_ranges_def reversed_orders_def range_order_def)

theorem dedup_deterministic_witness:
  "attempts (snd (resolveDuplicates reversed_orders (cache_Pressure demo_cache) (\<lambda>ip m. None) demo_tracker)) =
    [(''10.0.0.2'', ''llama'')]"
  using demo_attempts
    dedup_deterministic [OF wf_demo(2) dedup_ranges_reversed dedup_ranges_sorted,
      of "cache_Pressure demo_cache" "\<lambda>ip m. None"]
  by simp

text \<open>C24: the pod asked to unload a duplicated model is, by the load signals in the pod-state cache,
  the least loaded of the pods that have it, the alphabetically first one on a tie; the request goes
  to that pod's IP.\<close>

theorem dedup_loser_least_loaded:
  assumes "wf_tracker t" and "dedup_ranges ord"
    and "(ip, m) \<in> set (attempts (snd (resolveDuplicates ord (cache_Pressure c) unload t)))"
  shows "\<exists>p. least_loaded (cache_Pressure c) (holder_set t m) p \<and> podIP t p = Some ip \<and> ip \<noteq> []"
proof -
  note f = attempt_facts [OF assms]
  have "m \<in> duplicated t" using f(1) by (simp add: ripe_models_def)
  note h = duplicated_holders [OF assms(1) this]
  have "least_loaded (cache_Pressure c) (holder_set t m)
      (pickLoser (cache_Pressure c) (sorted_list_of_set (holder_set t m)))"
    using pickLoser_least [OF h(2), of "cache_Pressure c"] h(3) cache_Pressure_not_NaN by simp
  with f(4,5) show ?thesis by blast
qed

theorem dedup_loser_least_loaded_witness:
  "\<exists>p. least_loaded (cache_Pressure demo_cache) (holder_set demo_tracker ''llama'') p \<and>
    podIP demo_tracker p = Some ''10.0.0.2'' \<and> ''10.0.0.2'' \<noteq> []"
  using dedup_loser_least_loaded [OF wf_demo(2) dedup_ranges_sorted, of "''10.0.0.2''" "''llama''"
      demo_cache "\<lambda>ip m. None"]
  by (simp add: demo_attempts)

text \<open>The observation counters after a pass: a model that is duplicated now has its counter one
  higher, unless its unload succeeded, in which case the counter is gone; every other model has no
  counter. A tracker without a pressure provider, or not yet polled, is left as it is.\<close>

theorem dedup_counters:
  assumes "wf_tracker t" and "dedup_ranges ord"
  shows "dupObs (fst (resolveDuplicates ord pr unload t)) =
    (if \<not> (hasPressure t \<and> firstPoll t) then dupObs t
     else case snd (dedup_scan pr unload (podIP t) (ripe_list t)) of
       None \<Rightarrow> next_obs t
     | Some (l, m) \<Rightarrow> (next_obs t)(m := None))"
  by (auto simp: resolveDuplicates_scan [OF assms] attempts_nil [OF _ assms] dupObs_apply_choice
      split: prod.split option.split)

theorem dedup_counters_witness:
  "dupObs (fst (resolveDuplicates sorted_orders (cache_Pressure demo_cache) (\<lambda>ip m. None) demo_tracker))
     ''llama'' = None"
  using dedup_counters [OF wf_demo(2) dedup_ranges_sorted, of "cache_Pressure demo_cache" "\<lambda>ip m. None"]
  by (simp add: demo_scan demo_fields(1,2))

text \<open>When every unload request fails, a pass keeps every copy in the tracker and tells the
  observer nothing, but it does not stop at the first failure: each ripe model whose chosen pod is
  routable is tried, so the number of requests of a pass is not bounded by
  \<open>MaxUnloadsPerCycle\<close>.\<close>

theorem dedup_all_fail:
  fixes err :: "string \<Rightarrow> string \<Rightarrow> unload_error" and pr :: "string \<Rightarrow> float64"
  assumes "wf_tracker t" and "dedup_ranges ord" and "hasPressure t" and "firstPoll t"
  defines "res \<equiv> resolveDuplicates ord pr (\<lambda>ip m. Some (err ip m)) t"
  shows "pod_set (fst res) = pod_set t \<and> notified (snd res) = [] \<and>
    (\<forall>m \<in> ripe_models t. \<forall>ip.
       (let l = pickLoser pr (sorted_list_of_set (holder_set t m))
        in l \<noteq> [] \<and> podIP t l = Some ip \<and> ip \<noteq> [] \<longrightarrow> (ip, m) \<in> set (attempts (snd res))))"
proof -
  obtain as c where sc: "dedup_scan pr (\<lambda>ip m. Some (err ip m)) (podIP t) (ripe_list t) = (as, c)"
    by fastforce
  then have c: "c = None" using dedup_scan_all_fail(1) [OF refl] by (metis snd_conv)
  have res: "res = (t\<lparr>dupObs := next_obs t\<rparr>, \<lparr>attempts = as, notified = []\<rparr>)"
    using assms(3,4) sc c
    by (simp add: res_def resolveDuplicates_scan [OF assms(1,2)] apply_choice_def choice_note_def)
  have "(ip, m) \<in> set as"
    if "m \<in> ripe_models t" "pickLoser pr (sorted_list_of_set (holder_set t m)) \<noteq> []"
      "podIP t (pickLoser pr (sorted_list_of_set (holder_set t m))) = Some ip" "ip \<noteq> []" for ip m
    using dedup_scan_all_fail(2) [where unload = "\<lambda>ip m. Some (err ip m)" and pr = pr and
        ips = "podIP t", OF refl ripe_list_member [OF assms(1) that(1)] that(2-4)] sc
    by simp
  with res show ?thesis by (simp add: Let_def)
qed

theorem dedup_all_fail_witness:
  "(''10.0.0.2'', ''llama'') \<in> set (attempts (snd (resolveDuplicates sorted_orders
     (cache_Pressure demo_cache) (\<lambda>ip m. Some (UnloadDo ''refused'')) demo_tracker)))"
  using dedup_all_fail [OF wf_demo(2) dedup_ranges_sorted demo_fields(1,2),
      where err = "\<lambda>ip m. UnloadDo ''refused''" and pr = "cache_Pressure demo_cache"]
  by (simp add: demo_ripe holder_set_demo demo_pick demo_fields Let_def)

text \<open>C26: the tracker's operations, on its shared sets behind references, do to the view of warm
  models what their abstract counterparts do, and keep the state well formed; the queries read the
  view, and \<open>AnyPodHasLoaded\<close> asks it of all pods.\<close>

theorem tracker_refines_view:
  assumes "wf_tracker t"
  shows "wf_tracker (MarkLoaded p m t) \<and> pod_set (MarkLoaded p m t) = view_mark p m (pod_set t) \<and>
    wf_tracker (fst (MarkUnloaded p m t)) \<and>
    pod_set (fst (MarkUnloaded p m t)) = view_unmark p m (pod_set t) \<and>
    wf_tracker (SetLoaded p ms t) \<and> pod_set (SetLoaded p ms t) = (pod_set t)(p \<mapsto> set ms) \<and>
    (IsLoaded t p m \<longleftrightarrow> p \<in> holder_set t m)"
  using assms by (simp add: wf_tracker_ops tracker_view) (simp add: holder_set_def)

theorem tracker_refines_view_witness:
  "pod_set (MarkLoaded ''10.0.0.2'' ''qwen'' demo_tracker) ''10.0.0.2'' = Some {''llama'', ''qwen''}"
proof -
  have "pod_set demo_tracker ''10.0.0.2'' = Some {''llama''}"
    by (simp add: demo_tracker_def demo_loaded_def pod_set_def SetPodIP_def SetLoaded_def link_set_def)
  then show ?thesis
    using tracker_refines_view [OF wf_demo(2), of "''10.0.0.2''" "''qwen''"]
    by (simp add: view_mark_def insert_commute)
qed

fun tracker_event :: "mark_event \<Rightarrow> tracker \<Rightarrow> tracker" where
  "tracker_event (Mark p m) t = MarkLoaded p m t"
| "tracker_event (Unmark p m) t = fst (MarkUnloaded p m t)"

lemma warm_apply_event: "warm.apply_event = tracker_event"
proof (intro ext)
  show "warm.apply_event e t = tracker_event e t" for e t
    by (cases e) (simp_all add: warm.apply_event_def)
qed

text \<open>Between polls the last word counts: after any sequence of marks and retractions, a model is
  warm on a pod just when the last event about that pod and model was a mark, or, when there was
  none, when it was warm before.\<close>

theorem marks_last_event_decides:
  assumes "wf_tracker t" and "p \<noteq> []" and "m \<noteq> []"
  shows "IsLoaded (fold tracker_event es t) p m \<longleftrightarrow>
    (case filter (\<lambda>e. event_target e = (p, m)) es of
       [] \<Rightarrow> IsLoaded t p m
     | e # rest \<Rightarrow> is_mark (last (e # rest)))"
  using warm.last_event_decides [OF assms, of es]
  by (cases "filter (\<lambda>e. event_target e = (p, m)) es") (simp_all add: warm_apply_event)

theorem marks_last_event_decides_witness:
  "\<not> IsLoaded (fst (MarkUnloaded ''10.0.0.1'' ''llama''
      (MarkLoaded ''10.0.0.2'' ''qwen'' (MarkLoaded ''10.0.0.1'' ''llama'' demo_tracker))))
    ''10.0.0.1'' ''llama''"
  using marks_last_event_decides [OF wf_demo(2), of "''10.0.0.1''" "''llama''"
      "[Mark ''10.0.0.1'' ''llama'', Mark ''10.0.0.2'' ''qwen'', Unmark ''10.0.0.1'' ''llama'']"]
  by simp

text \<open>A pod answers when the exchange for its \<open>/models\<close> path brings the status 200 and a readable list.\<close>

definition answers :: "transport \<Rightarrow> (string \<Rightarrow> model_entry list option) \<Rightarrow> string \<Rightarrow> model_entry list \<Rightarrow> bool" where
  "answers net decode url es \<longleftrightarrow>
     urlOk net url \<and> (\<exists>resp body. doReq net (GET url) = Inr resp \<and> StatusCode resp = 200 \<and>
       Body resp = Some body \<and> decode body = Some es)"

lemma queryPod_answers:
  "queryPod net decode t p = Inr S \<longleftrightarrow>
    (\<exists>es. answers net decode (http_url p (podPort t) (queryPath t)) es \<and>
       S = {ID e | e. e \<in> set es \<and> StatusValue e \<in> {''loaded'', ''running'', []}})"
  by (auto simp: queryPod_def answers_def Let_def live_models_set live_status_def StatusOK_def
      split: sum.splits option.splits)

text \<open>C19: a poll, up to the pass over the duplicates. When the pods cannot be listed nothing changes. Otherwise
  a listed pod that answered has exactly the models that its answer shows as loaded, running or without a
  status; a listed pod that did not answer keeps what was known of it; every pod that is not listed is
  forgotten; and the pass over the duplicates starts from there.\<close>

theorem poll_shows_answers:
  assumes "wf_tracker t"
  shows "case listPods client t of
      Inl e \<Rightarrow> pollOnce ord client (queryPod net decode t) pr unload t = (t, empty_log)
    | Inr pods \<Rightarrow>
        (let t' = poll_update (queryPod net decode t) pods t
         in pollOnce ord client (queryPod net decode t) pr unload t = resolveDuplicates ord pr unload t' \<and>
            wf_tracker t' \<and> firstPoll t' \<and>
            (\<forall>p. if p \<in> listed_ips pods
               then (\<forall>es. answers net decode (http_url p (podPort t) (queryPath t)) es \<longrightarrow>
                       pod_set t' p = Some {ID e | e. e \<in> set es \<and> StatusValue e \<in> {''loaded'', ''running'', []}}) \<and>
                    ((\<nexists>es. answers net decode (http_url p (podPort t) (queryPath t)) es) \<longrightarrow>
                       pod_set t' p = pod_set t p)
               else pod_set t' p = None))"
proof (cases "listPods client t")
  case (Inr pods)
  let ?q = "queryPod net decode t" and ?url = "\<lambda>p. http_url p (podPort t) (queryPath t)"
  note c = poll_update_correct [OF assms, of ?q pods, OF queryPod_finite]
  have answered: "pod_set (poll_update ?q pods t) p =
      Some {ID e | e. e \<in> set es \<and> StatusValue e \<in> {''loaded'', ''running'', []}}"
    if "p \<in> listed_ips pods" "answers net decode (?url p) es" for p es
  proof -
    have "?q p = Inr {ID e | e. e \<in> set es \<and> StatusValue e \<in> {''loaded'', ''running'', []}}"
      using that(2) queryPod_answers by blast
    then show ?thesis using that(1) by (simp add: c(2) view_poll_def)
  qed
  have silent: "pod_set (poll_update ?q pods t) p = pod_set t p"
    if "p \<in> listed_ips pods" "\<nexists>es. answers net decode (?url p) es" for p
  proof -
    have "?q p \<noteq> Inr S" for S using that(2) queryPod_answers by blast
    then obtain e where "?q p = Inl e" by (cases "?q p") auto
    then show ?thesis using that(1) by (simp add: c(2) view_poll_def)
  qed
  have "pod_set (poll_update ?q pods t) p = None" if "p \<notin> listed_ips pods" for p
    using that by (simp add: c(2) view_poll_def)
  with answered silent c(1,4) show ?thesis by (simp add: Inr Let_def pollOnce_def)
qed (simp add: pollOnce_def)

lemma listed_ips_simps [simp]:
  "listed_ips [] = {}"
  "listed_ips (p # ps) = (if PodIP p = [] then listed_ips ps else insert (PodIP p) (listed_ips ps))"
  by (auto simp: listed_ips_def)

text \<open>The first pod answers that one of its two models is unloaded, the second one does not answer.\<close>

definition half_net :: transport where
  "half_net =
     \<lparr>urlOk = (\<lambda>u. True),
      doReq = (\<lambda>q. if reqURL q = http_url ''10.0.0.1'' (podPort demo_tracker) (queryPath demo_tracker)
        then Inr \<lparr>StatusCode = 200, Body = Some []\<rparr> else Inl ''connection refused'')\<rparr>"

definition half_list :: "string \<Rightarrow> model_entry list option" where
  "half_list body = Some [\<lparr>ID = ''llama'', StatusValue = ''loaded''\<rparr>, \<lparr>ID = ''qwen'', StatusValue = ''unloaded''\<rparr>]"

theorem poll_shows_answers_witness:
  "let p = \<lambda>ip. \<lparr>PodName = ''llama'', PodNamespace = ''default'', PodLabels = Map.empty, NodeName = ''n1'',
        Containers = [], Phase = PodRunning, PodIP = ip\<rparr>;
       t' = poll_update (queryPod half_net half_list demo_tracker) [p ''10.0.0.1'', p ''10.0.0.2''] demo_tracker
   in pod_set t' ''10.0.0.1'' = Some {''llama''} \<and> pod_set t' ''10.0.0.2'' = pod_set demo_tracker ''10.0.0.2'' \<and>
      pod_set t' ''10.0.0.3'' = None"
proof -
  define p :: "string \<Rightarrow> pod" where "p = (\<lambda>ip. \<lparr>PodName = ''llama'', PodNamespace = ''default'', PodLabels = Map.empty,
    NodeName = ''n1'', Containers = [], Phase = PodRunning, PodIP = ip\<rparr>)"
  let ?pods = "[p ''10.0.0.1'', p ''10.0.0.2'']"
  let ?url = "\<lambda>ip. http_url ip (podPort demo_tracker) (queryPath demo_tracker)"
  let ?t = "poll_update (queryPod half_net half_list demo_tracker) ?pods demo_tracker"
  have "?url ''10.0.0.2'' \<noteq> ?url ''10.0.0.1''" by (simp add: http_url_def join_host_port_def)
  then have silent: "\<nexists>es. answers half_net half_list (?url ''10.0.0.2'') es"
    by (simp add: answers_def half_net_def GET_def)
  have answer: "answers half_net half_list (?url ''10.0.0.1'')
      [\<lparr>ID = ''llama'', StatusValue = ''loaded''\<rparr>, \<lparr>ID = ''qwen'', StatusValue = ''unloaded''\<rparr>]"
    by (simp add: answers_def half_net_def GET_def half_list_def)
  have list: "listPods (\<lambda>opts. Inr ?pods) demo_tracker = Inr ?pods" by (simp add: listPods_def)
  have ips: "''10.0.0.1'' \<in> listed_ips ?pods" "''10.0.0.2'' \<in> listed_ips ?pods" "''10.0.0.3'' \<notin> listed_ips ?pods"
    by (simp_all add: p_def)
  note poll = poll_shows_answers [OF wf_demo(2), where client = "\<lambda>opts. Inr ?pods" and net = half_net and
      decode = half_list, unfolded list Let_def sum.case]
  have each: "\<forall>q. if q \<in> listed_ips ?pods
      then (\<forall>es. answers half_net half_list (?url q) es \<longrightarrow>
             pod_set ?t q = Some {ID e | e. e \<in> set es \<and> StatusValue e \<in> {''loaded'', ''running'', []}}) \<and>
           ((\<nexists>es. answers half_net half_list (?url q) es) \<longrightarrow> pod_set ?t q = pod_set demo_tracker q)
      else pod_set ?t q = None"
    using poll by blast
  have "{ID e | e. e \<in> set [\<lparr>ID = ''llama'', StatusValue = ''loaded''\<rparr>, \<lparr>ID = ''qwen'', StatusValue = ''unloaded''\<rparr>] \<and>
      StatusValue e \<in> {''loaded'', ''running'', []}} = {''llama''}"
    by (auto intro!: exI [of _ "\<lparr>ID = ''llama'', StatusValue = ''loaded''\<rparr>"])
  with spec [OF each, of "''10.0.0.1''", unfolded if_P [OF ips(1)], THEN conjunct1, THEN spec, THEN mp, OF answer]
  have "pod_set ?t ''10.0.0.1'' = Some {''llama''}" by (simp only:)
  moreover have "pod_set ?t ''10.0.0.2'' = pod_set demo_tracker ''10.0.0.2''"
    by (rule spec [OF each, of "''10.0.0.2''", unfolded if_P [OF ips(2)], THEN conjunct2, THEN mp, OF silent])
  moreover have "pod_set ?t ''10.0.0.3'' = None" by (rule spec [OF each, of "''10.0.0.3''", unfolded if_not_P [OF ips(3)]])
  ultimately show ?thesis by (simp add: Let_def p_def)
qed

subsection \<open>A silent pod counts as a holder\<close>

definition demo_pod :: "string \<Rightarrow> string \<Rightarrow> pod" where
  "demo_pod name ip =
     \<lparr>PodName = name, PodNamespace = ''default'', PodLabels = [''app'' \<mapsto> ''llama''], NodeName = ''n1'',
      Containers = [], Phase = PodRunning, PodIP = ip\<rparr>"

lemma PodIP_demo_pod [simp]: "PodIP (demo_pod name ip) = ip"
  by (simp add: demo_pod_def)

text \<open>The first pod does not answer the poll any more; the second one has the model.\<close>

definition demo_query :: "string \<Rightarrow> query_error + string set" where
  "demo_query ip = (if ip = ''10.0.0.2'' then Inr {''llama''} else Inl (DoRequest ''timeout''))"

definition demo_polled :: tracker where
  "demo_polled = poll_update demo_query [demo_pod ''a'' ''10.0.0.1'', demo_pod ''b'' ''10.0.0.2''] demo_tracker"

lemma demo_query_finite: "demo_query ip = Inr S \<Longrightarrow> finite S"
  by (auto simp: demo_query_def split: if_splits)

lemma demo_pod_set:
  "pod_set demo_tracker =
    [''10.0.0.1'' \<mapsto> {''llama'', ''qwen''}, ''10.0.0.2'' \<mapsto> {''llama''}]"
  by (simp add: demo_tracker_def demo_loaded_def pod_set_def SetPodIP_def SetLoaded_def link_set_def
      fun_eq_iff SetUnloadObserver_def NewTracker_def)

lemma demo_polled_view:
  "wf_tracker demo_polled" "pod_set demo_polled = pod_set demo_tracker"
  "podIP demo_polled = podIP demo_tracker" "hasPressure demo_polled" "firstPoll demo_polled"
  "dupObs demo_polled = dupObs demo_tracker" "dedupGracePolls demo_polled = 12"
proof -
  let ?pods = "[demo_pod ''a'' ''10.0.0.1'', demo_pod ''b'' ''10.0.0.2'']"
  have c1: "wf_tracker demo_polled" "firstPoll demo_polled"
    unfolding demo_polled_def
    by (rule poll_update_correct [OF wf_demo(2)], erule demo_query_finite)+
  have c2: "pod_set demo_polled = view_poll demo_query (listed_ips ?pods) (pod_set demo_tracker)"
    unfolding demo_polled_def
    by (rule poll_update_correct [OF wf_demo(2)]) (rule demo_query_finite)
  have c3: "podIP demo_polled = (\<lambda>p. if p \<in> listed_ips ?pods then Some p else None)"
    unfolding demo_polled_def
    by (rule poll_update_correct [OF wf_demo(2)]) (rule demo_query_finite)
  note f = poll_update_frame [of demo_query _ demo_tracker]
  have ips: "listed_ips [demo_pod ''a'' ''10.0.0.1'', demo_pod ''b'' ''10.0.0.2''] =
      {''10.0.0.1'', ''10.0.0.2''}"
    by simp
  show "wf_tracker demo_polled" "firstPoll demo_polled" using c1 by simp_all
  show "hasPressure demo_polled" "dupObs demo_polled = dupObs demo_tracker"
    "dedupGracePolls demo_polled = 12"
    unfolding demo_polled_def using f demo_fields by simp_all
  show "pod_set demo_polled = pod_set demo_tracker"
    by (rule ext) (simp add: c2 demo_pod_set view_poll_def demo_query_def)
  show "podIP demo_polled = podIP demo_tracker"
    by (rule ext) (simp add: c3 demo_fields)
qed

lemma demo_polled_scan:
  "dedup_scan (cache_Pressure demo_cache) (\<lambda>ip m. None) (podIP demo_polled) (ripe_list demo_polled) =
    ([(''10.0.0.2'', ''llama'')], Some (''10.0.0.2'', ''llama''))"
proof -
  have h: "holder_set demo_polled m = holder_set demo_tracker m" for m
    by (rule holder_set_cong) (rule demo_polled_view)
  then have "duplicated demo_polled = duplicated demo_tracker" by (simp add: duplicated_def)
  then have "ripe_list demo_polled = ripe_list demo_tracker"
    by (simp add: ripe_list_def ripe_models_def h demo_polled_view demo_fields(3))
  then show ?thesis using demo_scan demo_polled_view(3) by simp
qed

text \<open>The guard that some other pod still has the model counts what the tracker remembers of a
  pod that no longer answers. Here one pod stopped answering and the other one reported the model in
  the same poll; the pass that follows makes the answering pod, the only one known to serve, unload
  it, and the tracker is left with the silent pod's copy.\<close>

theorem dedup_unloads_only_answering_copy:
  "(let client = (\<lambda>opts. Inr [demo_pod ''a'' ''10.0.0.1'', demo_pod ''b'' ''10.0.0.2'']);
        res = pollOnce sorted_orders client demo_query (cache_Pressure demo_cache) (\<lambda>ip m. None)
          demo_tracker
    in attempts (snd res) = [(''10.0.0.2'', ''llama'')] \<and>
       notified (snd res) = [(''10.0.0.2'', ''llama'')] \<and>
       holder_set (fst res) ''llama'' = {''10.0.0.1''})"
proof -
  let ?t = "demo_polled\<lparr>dupObs := next_obs demo_polled\<rparr>"
  have wf: "wf_tracker ?t" by (simp add: wf_dupObs demo_polled_view finite_dom_next_obs)
  have pass: "resolveDuplicates sorted_orders (cache_Pressure demo_cache) (\<lambda>ip m. None) demo_polled =
      (apply_choice (Some (''10.0.0.2'', ''llama'')) ?t,
       \<lparr>attempts = [(''10.0.0.2'', ''llama'')], notified = choice_note (Some (''10.0.0.2'', ''llama'')) ?t\<rparr>)"
    by (simp add: resolveDuplicates_scan [OF demo_polled_view(1) dedup_ranges_sorted]
        demo_polled_view(4,5) demo_polled_scan)
  have "holder_set demo_polled ''llama'' = {''10.0.0.1'', ''10.0.0.2''}"
    using holder_set_cong [OF demo_polled_view(2)] by (simp add: holder_set_demo)
  then have h: "holder_set (apply_choice (Some (''10.0.0.2'', ''llama'')) ?t) ''llama'' = {''10.0.0.1''}"
    by (auto simp: holder_set_apply_choice [OF wf])
  have "hasObserver demo_polled" unfolding demo_polled_def using poll_update_frame demo_fields by simp
  moreover have "loaded demo_polled ''10.0.0.2'' \<noteq> None"
    using fun_cong [OF demo_polled_view(2), of "''10.0.0.2''"] by (auto simp: demo_pod_set pod_set_def)
  ultimately have n: "choice_note (Some (''10.0.0.2'', ''llama'')) ?t = [(''10.0.0.2'', ''llama'')]"
    by (auto simp: choice_note_def MarkUnloaded_def demo_polled_view(3) demo_fields(6))
  show ?thesis
    using pass h n by (simp add: pollOnce_def listPods_def Let_def flip: demo_polled_def)
qed

end
