(* ===== verification/Loaded_Filter.thy ===== *)
theory Loaded_Filter
  imports Scheduling Pod_State Model_Tracker
begin

section \<open>The loaded-model filter\<close>

text \<open>
  \<open>internal/plugins/filter/loaded_model.go\<close>: the filter keeps the pods that have the requested
  model loaded, or all pods when none has, and writes each pod's load signal into the pod-state
  cache on the way. The plugin points to a tracker and a cache that other components share; a call
  sees their contents, so the model's plugin holds both values (\<open>None\<close> for nil) and a call
  returns it updated. \<open>now\<close> is the time at which the cache stamps the writes.
\<close>

datatype filter_error = FilterDepsNotSet

record filter_deps =
  depTracker :: "tracker option"
  depPodState :: "cache option"

record loaded_filter =
  lfTypedName :: typed_name
  lfTracker :: "tracker option"
  lfPodState :: "cache option"

definition LoadedModelFilterType :: string where
  "LoadedModelFilterType = ''loaded-model-filter''"

definition NewLoadedModelFilter :: "tracker option \<Rightarrow> loaded_filter" where
  "NewLoadedModelFilter t =
     \<lparr>lfTypedName = \<lparr>PluginType = LoadedModelFilterType, PluginName = []\<rparr>,
      lfTracker = t, lfPodState = None\<rparr>"

definition WithPodState :: "cache option \<Rightarrow> loaded_filter \<Rightarrow> loaded_filter" where
  "WithPodState c f = f\<lparr>lfPodState := c\<rparr>"

definition filter_WithName :: "string \<Rightarrow> loaded_filter \<Rightarrow> loaded_filter" where
  "filter_WithName name f = f\<lparr>lfTypedName := (lfTypedName f)\<lparr>PluginName := name\<rparr>\<rparr>"

definition filter_TypedName :: "loaded_filter \<Rightarrow> typed_name" where
  "filter_TypedName f = lfTypedName f"

definition LoadedModelFilterFactory ::
  "filter_deps option \<Rightarrow> string \<Rightarrow> filter_error + loaded_filter" where
  "LoadedModelFilterFactory filterDeps name =
     (case filterDeps of
        None \<Rightarrow> Inl FilterDepsNotSet
      | Some deps \<Rightarrow>
          Inr (filter_WithName name (WithPodState (depPodState deps)
            (NewLoadedModelFilter (depTracker deps)))))"

subsection \<open>The filter\<close>

definition pod_signal :: "string \<Rightarrow> pod_metrics \<Rightarrow> snapshot" where
  "pod_signal key m =
     \<lparr>PodKey = key, RunningRequestsSize = mRunningRequestsSize m,
      WaitingQueueSize = mWaitingQueueSize m, KVCacheUsagePercent = mKVCacheUsagePercent m,
      UpdateTime = 0\<rparr>"

fun filter_pods ::
  "gotime \<Rightarrow> tracker \<Rightarrow> string \<Rightarrow> sched_pod list \<Rightarrow> cache option \<Rightarrow> sched_pod list \<Rightarrow>
   sched_pod list \<times> cache option" where
  "filter_pods now t model [] c warm = (warm, c)"
| "filter_pods now t model (pod # pods) c warm =
     (case GetPod pod of
        None \<Rightarrow> filter_pods now t model pods c warm
      | Some info \<Rightarrow>
          (let key = Address info;
               c' = (if c \<noteq> None
                     then case GetMetrics pod of
                       Some m \<Rightarrow> cache_Update now c (pod_signal key m)
                     | None \<Rightarrow> c
                     else c)
           in filter_pods now t model pods c'
                (if IsLoaded t key model then warm @ [pod] else warm)))"

definition filter_Filter ::
  "gotime \<Rightarrow> loaded_filter \<Rightarrow> llm_request option \<Rightarrow> sched_pod list \<Rightarrow>
   sched_pod list \<times> loaded_filter" where
  "filter_Filter now f request pods =
     (case request of
        None \<Rightarrow> (pods, f)
      | Some req \<Rightarrow>
          if TargetModel req = [] then (pods, f)
          else case lfTracker f of
            None \<Rightarrow> (pods, f)
          | Some t \<Rightarrow>
              (case filter_pods now t (TargetModel req) pods (lfPodState f) [] of
                 (warm, c) \<Rightarrow>
                   (if warm = [] then pods else warm, f\<lparr>lfPodState := c\<rparr>)))"

subsection \<open>What it computes\<close>

definition is_warm :: "tracker \<Rightarrow> string \<Rightarrow> sched_pod \<Rightarrow> bool" where
  "is_warm t model pod \<longleftrightarrow> (\<exists>info. GetPod pod = Some info \<and> IsLoaded t (Address info) model)"

lemma is_warm_simps:
  "GetPod pod = None \<Longrightarrow> \<not> is_warm t model pod"
  "GetPod pod = Some info \<Longrightarrow> is_warm t model pod \<longleftrightarrow> IsLoaded t (Address info) model"
  by (simp_all add: is_warm_def)

text \<open>The signals a call writes, in order: one for each pod with information and metrics.\<close>

fun pod_signals :: "sched_pod list \<Rightarrow> snapshot list" where
  "pod_signals [] = []"
| "pod_signals (pod # pods) =
     (case (GetPod pod, GetMetrics pod) of
        (Some info, Some m) \<Rightarrow> pod_signal (Address info) m # pod_signals pods
      | _ \<Rightarrow> pod_signals pods)"

lemma cache_Update_nil [simp]: "cache_Update now None s = None"
  by (simp add: cache_Update_def)

lemma fold_cache_Update_nil [simp]: "fold (\<lambda>s c. cache_Update now c s) ss None = None"
  by (induction ss) simp_all

lemma filter_pods_result:
  "filter_pods now t model pods c warm =
    (warm @ filter (is_warm t model) pods, fold (\<lambda>s c. cache_Update now c s) (pod_signals pods) c)"
  by (induction pods arbitrary: c warm) (simp_all add: is_warm_simps Let_def split: option.split)

lemma pod_signals_append: "pod_signals (ps @ qs) = pod_signals ps @ pod_signals qs"
  by (induction ps) (simp_all split: option.split)

lemma pod_signals_keys: "PodKey ` set (pod_signals ps) \<subseteq> sched_addr ` set ps"
  by (induction ps) (auto simp: pod_signal_def sched_addr_def split: option.splits)

lemma filter_Filter_active:
  assumes "lfTracker f = Some t" and "TargetModel req \<noteq> []"
  shows "filter_Filter now f (Some req) pods =
    (let warm = filter (is_warm t (TargetModel req)) pods
     in (if warm = [] then pods else warm,
         f\<lparr>lfPodState := fold (\<lambda>s c. cache_Update now c s) (pod_signals pods) (lfPodState f)\<rparr>))"
  using assms by (simp add: filter_Filter_def filter_pods_result Let_def)

lemma is_warm_mark:
  assumes "wf_tracker t" and "m \<noteq> []" and "sched_addr pod \<noteq> []"
  shows "is_warm (MarkLoaded (sched_addr pod) m t) m pod"
  using assms by (auto simp: is_warm_def sched_addr_def warm.loaded_mark split: option.splits)

lemma is_warm_other:
  assumes "wf_tracker t" and "q \<noteq> sched_addr pod \<or> n \<noteq> m"
  shows "is_warm (MarkLoaded q n t) m pod = is_warm t m pod"
  using assms by (auto simp: is_warm_def sched_addr_def warm.loaded_mark split: option.splits)

subsection \<open>Properties of the filter\<close>

definition demo_sched :: "string \<Rightarrow> int64 \<Rightarrow> sched_pod" where
  "demo_sched ip q =
     \<lparr>GetPod = Some \<lparr>NamespacedName = \<lparr>NnNamespace = ''default'', NnName = ''pod''\<rparr>, Address = ip\<rparr>,
      GetMetrics = Some \<lparr>mRunningRequestsSize = 1, mWaitingQueueSize = q, mKVCacheUsagePercent = Fin 0\<rparr>\<rparr>"

definition demo_warm_tracker :: tracker where
  "demo_warm_tracker = MarkLoaded ''10.0.0.2'' ''llama'' (NewTracker
     \<lparr>oNamespace = [], oPodSelector = Map.empty, oPodPort = 0, oQueryPath = [], oUnloadPath = [],
      oPollInterval = 0, oPollTimeout = 0, oPressure = False, oDedupGracePolls = 0\<rparr>)"

definition demo_filter :: loaded_filter where
  "demo_filter = filter_WithName ''warm'' (WithPodState (Some NewCache)
     (NewLoadedModelFilter (Some demo_warm_tracker)))"

lemma IsLoaded_new: "\<not> IsLoaded (NewTracker opts) p m"
  by (simp add: IsLoaded_def NewTracker_def)

lemma demo_filter_fields:
  "lfTracker demo_filter = Some demo_warm_tracker" "lfPodState demo_filter = Some NewCache"
  "wf_tracker demo_warm_tracker"
  by (simp_all add: demo_filter_def filter_WithName_def WithPodState_def NewLoadedModelFilter_def
      demo_warm_tracker_def wf_tracker_ops)

text \<open>C20: the filter drops a pod only when another one is warm. The pods it returns are pods it was
  given, in their order; for a request that names a model, with a tracker at hand, they are exactly
  the pods that have the model loaded when there is one, and otherwise all of them. So the scheduler
  never runs out of candidates because of this filter.\<close>

theorem filter_warm_or_all:
  "fst (filter_Filter now f request pods) =
    (case (request, lfTracker f) of
       (Some req, Some t) \<Rightarrow>
         if TargetModel req = [] \<or> \<not> (\<exists>p \<in> set pods. is_warm t (TargetModel req) p) then pods
         else filter (is_warm t (TargetModel req)) pods
     | _ \<Rightarrow> pods) \<and>
   (pods \<noteq> [] \<longrightarrow> fst (filter_Filter now f request pods) \<noteq> [])"
  by (auto simp: filter_Filter_def filter_pods_result filter_empty_conv split: option.splits)

theorem filter_warm_or_all_witness:
  "fst (filter_Filter 5 demo_filter (Some \<lparr>TargetModel = ''llama''\<rparr>)
     [demo_sched ''10.0.0.1'' 0, demo_sched ''10.0.0.2'' 4]) = [demo_sched ''10.0.0.2'' 4]"
proof -
  have "is_warm demo_warm_tracker ''llama'' (demo_sched ''10.0.0.2'' 4)"
    "\<not> is_warm demo_warm_tracker ''llama'' (demo_sched ''10.0.0.1'' 0)"
    by (simp_all add: is_warm_def demo_sched_def demo_warm_tracker_def warm.loaded_mark wf_NewTracker
        IsLoaded_new)
  then show ?thesis
    using filter_warm_or_all [of 5 demo_filter "Some \<lparr>TargetModel = ''llama''\<rparr>"
        "[demo_sched ''10.0.0.1'' 0, demo_sched ''10.0.0.2'' 4]"]
    by (simp add: demo_filter_fields)
qed

text \<open>The signals the filter writes are the ones the tracker reads back to choose a loser. After a
  call, the pressure of a pod whose address no later candidate shares is its number of running and
  waiting requests in the framework's metrics, and the pressure of an address that is not among the
  candidates is what it was.\<close>

theorem filter_feeds_pressure:
  fixes now :: gotime
  assumes "lfTracker f = Some t" and "lfPodState f = Some d" and "TargetModel req \<noteq> []"
    and "GetPod pod = Some info" and "GetMetrics pod = Some m" and "Address info \<noteq> []"
    and "\<forall>p \<in> set later. sched_addr p \<noteq> Address info"
    and "k \<noteq> []" and "\<forall>p \<in> set (earlier @ pod # later). sched_addr p \<noteq> k"
  defines "c \<equiv> lfPodState (snd (filter_Filter now f (Some req) (earlier @ pod # later)))"
  shows "cache_Pressure c (Address info) =
      f64_of_int (mRunningRequestsSize m + mWaitingQueueSize m) \<and>
    cache_Pressure c k = cache_Pressure (lfPodState f) k"
proof -
  let ?s = "pod_signal (Address info) m"
  let ?ss = "pod_signals earlier @ ?s # pod_signals later"
  have ss: "pod_signals (earlier @ pod # later) = ?ss"
    using assms(4,5) by (simp add: pod_signals_append)
  have c: "c = fold (\<lambda>s c. cache_Update now c s) ?ss (Some d)"
    unfolding c_def filter_Filter_active [OF assms(1,3)] ss by (simp add: assms(2) Let_def)
  have key: "PodKey ?s = Address info" by (simp add: pod_signal_def)
  have "PodKey ?s \<notin> PodKey ` set (pod_signals later)"
    using pod_signals_keys [of later] assms(7) key by auto
  then have "cache_Pressure c (PodKey ?s) = snapshot_load ?s"
    unfolding c using assms(6) key by (intro podstate.last_write_wins) simp_all
  moreover have "snapshot_load ?s = f64_of_int (mRunningRequestsSize m + mWaitingQueueSize m)"
    by (simp add: snapshot_load_def pod_signal_def)
  moreover have "k \<notin> PodKey ` set ?ss"
    using subsetD [OF pod_signals_keys [of "earlier @ pod # later", unfolded ss], of k] assms(9)
    by (metis imageE)
  then have "cache_Pressure c k = cache_Pressure (Some d) k"
    unfolding c using assms(8) by (intro podstate.pressure_fold_update_other) simp_all
  ultimately show ?thesis using key assms(2) by simp
qed

theorem filter_feeds_pressure_witness:
  "cache_Pressure (lfPodState (snd (filter_Filter 5 demo_filter (Some \<lparr>TargetModel = ''llama''\<rparr>)
     [demo_sched ''10.0.0.1'' 0, demo_sched ''10.0.0.2'' 4]))) ''10.0.0.2'' = f64_of_int 5"
  using filter_feeds_pressure [OF demo_filter_fields(1,2), of "\<lparr>TargetModel = ''llama''\<rparr>"
      "demo_sched ''10.0.0.2'' 4" "\<lparr>NamespacedName = \<lparr>NnNamespace = ''default'', NnName = ''pod''\<rparr>, Address = ''10.0.0.2''\<rparr>"
      "\<lparr>mRunningRequestsSize = 1, mWaitingQueueSize = 4, mKVCacheUsagePercent = Fin 0\<rparr>"
      "[]" "''10.0.0.3''" "[demo_sched ''10.0.0.1'' 0]" 5]
  by (simp add: demo_sched_def sched_addr_def)

text \<open>Once the loader has marked a model loaded on a candidate, in whatever state the tracker was,
  the filter returns that candidate for the model, and only warm ones: the next request for the model
  is not sent to a cold pod while the load is under way.\<close>

theorem filter_after_mark:
  fixes f :: loaded_filter
  assumes "wf_tracker t" and "TargetModel req \<noteq> []" and "pod \<in> set pods" and "sched_addr pod \<noteq> []"
  defines "f' \<equiv> f\<lparr>lfTracker := Some (MarkLoaded (sched_addr pod) (TargetModel req) t)\<rparr>"
  shows "pod \<in> set (fst (filter_Filter now f' (Some req) pods)) \<and>
    (\<forall>p \<in> set (fst (filter_Filter now f' (Some req) pods)).
       sched_addr p = sched_addr pod \<or> is_warm t (TargetModel req) p)"
proof -
  let ?t = "MarkLoaded (sched_addr pod) (TargetModel req) t"
  have f': "lfTracker f' = Some ?t" by (simp add: f'_def)
  have w: "is_warm ?t (TargetModel req) pod" using assms is_warm_mark by simp
  then have "filter (is_warm ?t (TargetModel req)) pods \<noteq> []"
    using assms(3) by (auto simp: filter_empty_conv)
  then have "fst (filter_Filter now f' (Some req) pods) = filter (is_warm ?t (TargetModel req)) pods"
    by (simp add: filter_Filter_active [OF f' assms(2)] Let_def)
  moreover have "sched_addr p = sched_addr pod \<or> is_warm t (TargetModel req) p"
    if "is_warm ?t (TargetModel req) p" for p
    using that is_warm_other [OF assms(1), of "sched_addr pod" p] by (metis (no_types))
  ultimately show ?thesis using w assms(3) by simp
qed

theorem filter_after_mark_witness:
  "demo_sched ''10.0.0.1'' 0 \<in> set (fst (filter_Filter 5
     (demo_filter\<lparr>lfTracker := Some (MarkLoaded ''10.0.0.1'' ''qwen'' demo_warm_tracker)\<rparr>)
     (Some \<lparr>TargetModel = ''qwen''\<rparr>) [demo_sched ''10.0.0.1'' 0, demo_sched ''10.0.0.2'' 4]))"
  using filter_after_mark [OF demo_filter_fields(3), of "\<lparr>TargetModel = ''qwen''\<rparr>"
      "demo_sched ''10.0.0.1'' 0" "[demo_sched ''10.0.0.1'' 0, demo_sched ''10.0.0.2'' 4]" 5 demo_filter]
  by (simp add: sched_addr_def demo_sched_def)

end
