(* ===== verification/Vram_Types.thy ===== *)
theory Vram_Types
  imports K8s Go_Float
begin

section \<open>VRAM metrics: types, scrapers and discovery as interfaces\<close>

text \<open>
  \<open>internal/vram/types.go\<close>. A node's metrics are 64-bit byte counts; an endpoint is where they
  are fetched. \<open>MetricsScraper\<close> and \<open>NodeDiscovery\<close> are Go interfaces: here each is a locale
  that states what the tracker relies on, interpreted by every implementation the package has.
\<close>

record metrics =
  TotalVRAM :: int64
  UsedVRAM :: int64
  AvailableVRAM :: int64
  LastUpdate :: gotime

record metrics_endpoint =
  EpNodeName :: string
  EpAddress :: string
  EpPort :: int32

datatype vram_error =
  ErrClientNil
| ErrNoNodes
| ErrNoSuitableNode
| ErrNoMetrics string
| ErrUnexpectedStatus int
| ErrNoRunningExporterPod string
| ErrNoTCPPortInExporterPod string string
| ErrListPods string
| ErrListNodes string
| ErrCreateRequest string
| ErrFetchMetrics string
| ErrParseMetrics

definition DefaultScrapeInterval :: int where "DefaultScrapeInterval = 30 * 1000000000"
definition BytesPerGB :: int64 where "BytesPerGB = 1024 * 1024 * 1024"
definition DefaultTotalVRAMGB :: int64 where "DefaultTotalVRAMGB = 32"

text \<open>\<open>&Metrics{...}\<close> with the fields of another one: a copy.\<close>

definition copy_metrics :: "metrics \<Rightarrow> metrics" where
  "copy_metrics m =
     \<lparr>TotalVRAM = TotalVRAM m, UsedVRAM = UsedVRAM m, AvailableVRAM = AvailableVRAM m,
      LastUpdate = LastUpdate m\<rparr>"

lemma copy_metrics_id [simp]: "copy_metrics m = m"
  by (simp add: copy_metrics_def)

text \<open>What every scraper must give: a metrics value that does not claim negative free memory.\<close>

definition metrics_ok :: "metrics \<Rightarrow> bool" where
  "metrics_ok m \<longleftrightarrow> 0 \<le> sint (AvailableVRAM m)"

locale metrics_scraper =
  fixes scrape :: "'env \<Rightarrow> 's \<Rightarrow> metrics_endpoint \<Rightarrow> vram_error + metrics"
    and scraper_ok :: "'s \<Rightarrow> bool"
  assumes scrape_ok: "scraper_ok s \<Longrightarrow> scrape env s ep = Inr m \<Longrightarrow> metrics_ok m"
begin

text \<open>The loop over endpoints: what a successful scrape stores, and what every stored value satisfies.\<close>

fun store_all :: "'s \<Rightarrow> ('env \<times> metrics_endpoint) list \<Rightarrow> (string \<rightharpoonup> metrics) \<Rightarrow> (string \<rightharpoonup> metrics)" where
  "store_all s [] ms = ms"
| "store_all s ((env, ep) # eps) ms =
     (case scrape env s ep of
        Inl e \<Rightarrow> store_all s eps ms
      | Inr m \<Rightarrow> store_all s eps (ms(EpNodeName ep \<mapsto> m)))"

lemma store_all_ok:
  "scraper_ok s \<Longrightarrow> (\<And>n m. ms n = Some m \<Longrightarrow> metrics_ok m) \<Longrightarrow>
   store_all s eps ms n = Some m \<Longrightarrow> metrics_ok m"
proof (induction s eps ms arbitrary: n m rule: store_all.induct)
  case (2 s env ep eps ms)
  show ?case
  proof (cases "scrape env s ep")
    case (Inl e)
    then show ?thesis using 2 by simp
  next
    case (Inr v)
    show ?thesis
    proof (rule "2.IH"(2) [OF Inr "2.prems"(1)])
      show "metrics_ok m'" if "(ms(EpNodeName ep \<mapsto> v)) n' = Some m'" for n' m'
        using that "2.prems"(2) scrape_ok [OF "2.prems"(1) Inr] by (auto split: if_splits)
      show "store_all s eps (ms(EpNodeName ep \<mapsto> v)) n = Some m" using "2.prems"(3) Inr by simp
    qed
  qed
qed simp

lemma store_all_other:
  "n \<notin> (EpNodeName \<circ> snd) ` set eps \<Longrightarrow> store_all s eps ms n = ms n"
  by (induction s eps ms rule: store_all.induct) (auto split: sum.splits)

lemma store_all_finite: "finite (dom ms) \<Longrightarrow> finite (dom (store_all s eps ms))"
  by (induction s eps ms rule: store_all.induct) (auto split: sum.splits)

text \<open>With one endpoint per node, every node whose scrape succeeds shows that scrape.\<close>

lemma store_all_unique:
  "distinct (map (EpNodeName \<circ> snd) eps) \<Longrightarrow> (env, ep) \<in> set eps \<Longrightarrow>
   store_all s eps ms (EpNodeName ep) =
     (case scrape env s ep of Inl e \<Rightarrow> ms (EpNodeName ep) | Inr m \<Rightarrow> Some m)"
proof (induction s eps ms rule: store_all.induct)
  case (2 s env' ep' eps ms)
  show ?case
  proof (cases "(env, ep) = (env', ep')")
    case True
    then have "EpNodeName ep \<notin> (EpNodeName \<circ> snd) ` set eps" using "2.prems"(1) by auto
    with True show ?thesis by (simp add: store_all_other split: sum.split)
  next
    case False
    then have mem: "(env, ep) \<in> set eps" using "2.prems"(2) by auto
    then have "EpNodeName ep \<noteq> EpNodeName ep'" using "2.prems"(1) by force
    with "2.IH" "2.prems"(1) mem show ?thesis
      by (cases "scrape env' s ep'"; cases "scrape env s ep") (simp_all add: fun_upd_def)
  qed
qed simp

end

text \<open>What a discovery must give: at most one endpoint for each node.\<close>

locale node_discovery =
  fixes discover :: "'env \<Rightarrow> 'd \<Rightarrow> vram_error + metrics_endpoint list"
    and discovery_ok :: "'env \<Rightarrow> 'd \<Rightarrow> bool"
  assumes one_per_node: "discovery_ok env d \<Longrightarrow> discover env d = Inr eps \<Longrightarrow> distinct (map EpNodeName eps)"

subsection \<open>Conversion of a float64 to int64\<close>

text \<open>
  Go truncates towards zero; a value that does not fit, and NaN, converts to something that depends
  on the processor, the argument \<open>hw\<close>.
\<close>

definition trunc_rat :: "rat \<Rightarrow> int" where
  "trunc_rat q = (if 0 \<le> q then \<lfloor>q\<rfloor> else \<lceil>q\<rceil>)"

definition int64_of_f64 :: "(float64 \<Rightarrow> int64) \<Rightarrow> float64 \<Rightarrow> int64" where
  "int64_of_f64 hw x =
     (case x of
        Fin q \<Rightarrow> if - (2 ^ 63) \<le> trunc_rat q \<and> trunc_rat q < 2 ^ 63 then word_of_int (trunc_rat q) else hw x
      | _ \<Rightarrow> hw x)"

lemma int64_of_f64_exact:
  "- (2 ^ 63) \<le> i \<Longrightarrow> i < 2 ^ 63 \<Longrightarrow> sint (int64_of_f64 hw (Fin (of_int i))) = i"
  by (simp add: int64_of_f64_def trunc_rat_def sint64_of_int)

end
