(* ===== verification/Vram_Scraper.thy ===== *)
theory Vram_Scraper
  imports Vram_Types
begin

section \<open>Scraping VRAM metrics\<close>

text \<open>
  \<open>internal/vram/scraper.go\<close>. The text parser of the Prometheus library is the argument
  \<open>parse\<close>: it gives the metric families of a body by name, each a list of metrics. A metric holds
  a gauge, a counter or an untyped value. \<open>env\<close> is the network and the current time.
\<close>

record prom_metric =
  Gauge :: "float64 option"
  Counter :: "float64 option"
  Untyped :: "float64 option"

type_synonym families = "string \<rightharpoonup> prom_metric list"

record scraper_config =
  cfgTotalMetricName :: string
  cfgUsedMetricName :: string
  cfgMetricsPath :: string
  cfgTimeout :: int
  cfgClientTimeout :: "int option"

text \<open>\<open>cfgClientTimeout\<close> is the timeout of a client handed in; \<open>None\<close> is a nil client.\<close>

record prom_scraper =
  totalMetric :: string
  usedMetric :: string
  metricsPath :: string
  scraperTimeout :: int

record scrape_env =
  scrapeNet :: transport
  scrapeNow :: gotime

definition DefaultTotalMetricName :: string where "DefaultTotalMetricName = ''rocm_memory_total_bytes''"
definition DefaultUsedMetricName :: string where "DefaultUsedMetricName = ''rocm_memory_used_bytes''"
definition DefaultMetricsQueryTimeout :: int where "DefaultMetricsQueryTimeout = 5 * 1000000000"

definition NewPrometheusScraperWithConfig :: "scraper_config \<Rightarrow> prom_scraper" where
  "NewPrometheusScraperWithConfig config =
     (let totalM = (if cfgTotalMetricName config = [] then DefaultTotalMetricName else cfgTotalMetricName config);
          usedM = (if cfgUsedMetricName config = [] then DefaultUsedMetricName else cfgUsedMetricName config);
          path = (if cfgMetricsPath config = [] then ''/metrics'' else cfgMetricsPath config);
          timeout = (if cfgTimeout config = 0 then DefaultMetricsQueryTimeout else cfgTimeout config)
      in \<lparr>totalMetric = totalM, usedMetric = usedM, metricsPath = path,
          scraperTimeout = (case cfgClientTimeout config of None \<Rightarrow> timeout | Some c \<Rightarrow> c)\<rparr>)"

definition NewPrometheusScraper :: prom_scraper where
  "NewPrometheusScraper =
     NewPrometheusScraperWithConfig
       \<lparr>cfgTotalMetricName = [], cfgUsedMetricName = [], cfgMetricsPath = [], cfgTimeout = 0,
        cfgClientTimeout = None\<rparr>"

definition getMetricValue :: "prom_metric \<Rightarrow> float64" where
  "getMetricValue p =
     (case Gauge p of Some v \<Rightarrow> v
      | None \<Rightarrow> (case Counter p of Some v \<Rightarrow> v
          | None \<Rightarrow> (case Untyped p of Some v \<Rightarrow> v | None \<Rightarrow> Fin 0)))"

definition family_value :: "(float64 \<Rightarrow> int64) \<Rightarrow> families \<Rightarrow> string \<Rightarrow> int64 \<Rightarrow> int64" where
  "family_value hw fams name dflt =
     (case fams name of
        None \<Rightarrow> dflt
      | Some ms \<Rightarrow> (case ms of [] \<Rightarrow> dflt | p # _ \<Rightarrow> int64_of_f64 hw (getMetricValue p)))"

definition scrape_metrics_of :: "(float64 \<Rightarrow> int64) \<Rightarrow> prom_scraper \<Rightarrow> gotime \<Rightarrow> families \<Rightarrow> metrics" where
  "scrape_metrics_of hw s now fams =
     (let total = family_value hw fams (totalMetric s) (DefaultTotalVRAMGB * BytesPerGB);
          used = family_value hw fams (usedMetric s) 0;
          free = total - used
      in \<lparr>TotalVRAM = total, UsedVRAM = used,
          AvailableVRAM = (if i64_less free 0 then 0 else free), LastUpdate = now\<rparr>)"

definition prom_Scrape ::
  "(float64 \<Rightarrow> int64) \<Rightarrow> (string \<Rightarrow> families option) \<Rightarrow> scrape_env \<Rightarrow> prom_scraper \<Rightarrow>
   metrics_endpoint \<Rightarrow> vram_error + metrics" where
  "prom_Scrape hw parse env s endpoint =
     (let url = http_url (EpAddress endpoint) (sint (EpPort endpoint)) (metricsPath s);
          net = scrapeNet env
      in if \<not> urlOk net url then Inl (ErrCreateRequest url)
         else case doReq net (GET url) of
           Inl e \<Rightarrow> Inl (ErrFetchMetrics e)
         | Inr resp \<Rightarrow>
             if StatusCode resp \<noteq> StatusOK then Inl (ErrUnexpectedStatus (StatusCode resp))
             else case (case Body resp of None \<Rightarrow> None | Some body \<Rightarrow> parse body) of
               None \<Rightarrow> Inl ErrParseMetrics
             | Some fams \<Rightarrow> Inr (scrape_metrics_of hw s (scrapeNow env) fams))"

subsection \<open>The static scraper\<close>

text \<open>A nil map has no entries; a write to it panics, which is the result \<open>None\<close>.\<close>

record static_scraper =
  ssMetrics :: "(string \<rightharpoonup> metrics) option"

definition NewStaticScraper :: "(string \<rightharpoonup> metrics) option \<Rightarrow> static_scraper" where
  "NewStaticScraper ms = \<lparr>ssMetrics = ms\<rparr>"

definition static_Scrape :: "gotime \<Rightarrow> static_scraper \<Rightarrow> metrics_endpoint \<Rightarrow> vram_error + metrics" where
  "static_Scrape now s endpoint =
     (case Option.bind (ssMetrics s) (\<lambda>ms. ms (EpNodeName endpoint)) of
        Some m \<Rightarrow> Inr \<lparr>TotalVRAM = TotalVRAM m, UsedVRAM = UsedVRAM m,
                      AvailableVRAM = AvailableVRAM m, LastUpdate = now\<rparr>
      | None \<Rightarrow> Inl (ErrNoMetrics (EpNodeName endpoint)))"

definition static_SetMetrics :: "string \<Rightarrow> metrics \<Rightarrow> static_scraper \<Rightarrow> static_scraper option" where
  "static_SetMetrics nodeName m s =
     map_option (\<lambda>ms. s\<lparr>ssMetrics := Some (ms(nodeName \<mapsto> m))\<rparr>) (ssMetrics s)"

subsection \<open>Both keep the contract of a scraper\<close>

lemma scrape_metrics_available:
  "0 \<le> sint (AvailableVRAM (scrape_metrics_of hw s now fams))"
  by (simp add: scrape_metrics_of_def Let_def)

lemma prom_Scrape_ok:
  "prom_Scrape hw parse env s ep = Inr m \<Longrightarrow> 0 \<le> sint (AvailableVRAM m)"
  by (auto simp: prom_Scrape_def Let_def scrape_metrics_available split: if_splits sum.splits option.splits)

interpretation prom: metrics_scraper "prom_Scrape hw parse" "\<lambda>s. True" for hw parse
  by unfold_locales (simp add: prom_Scrape_ok metrics_ok_def)

definition static_ok :: "static_scraper \<Rightarrow> bool" where
  "static_ok s \<longleftrightarrow> (\<forall>ms n m. ssMetrics s = Some ms \<longrightarrow> ms n = Some m \<longrightarrow> metrics_ok m)"

interpretation static: metrics_scraper static_Scrape static_ok
  by unfold_locales (auto simp: static_ok_def static_Scrape_def metrics_ok_def bind_eq_Some_conv split: option.splits)

lemma static_SetMetrics_ok: "static_SetMetrics n m s = Some s' \<Longrightarrow> static_ok s \<Longrightarrow> metrics_ok m \<Longrightarrow> static_ok s'"
  by (auto simp: static_SetMetrics_def static_ok_def split: if_splits)

text \<open>What was set is what is scraped, with the time of the scrape.\<close>

lemma static_set_then_scrape:
  assumes "static_SetMetrics (EpNodeName ep) m s = Some s'"
  shows "static_Scrape now s' ep = Inr (m\<lparr>LastUpdate := now\<rparr>)"
  using assms by (auto simp: static_SetMetrics_def static_Scrape_def)

text \<open>Free memory is the difference when both counts are sane, and 0 when more is used than there is.\<close>

lemma scrape_metrics_exact:
  assumes "0 \<le> sint (TotalVRAM m)" and "0 \<le> sint (UsedVRAM m)"
    and "m = scrape_metrics_of hw s now fams"
  shows "sint (AvailableVRAM m) = max 0 (sint (TotalVRAM m) - sint (UsedVRAM m))"
proof -
  have diff: "sint (TotalVRAM m - UsedVRAM m) = sint (TotalVRAM m) - sint (UsedVRAM m)"
    using assms(1,2) sint64_bounds [of "TotalVRAM m"] sint64_bounds [of "UsedVRAM m"]
    by (intro sint64_diff) simp_all
  show ?thesis using diff by (simp add: assms(3) scrape_metrics_of_def Let_def)
qed

end
