(* ===== verification/Vram_Discovery.thy ===== *)
theory Vram_Discovery
  imports Vram_Types
begin

section \<open>Discovering where VRAM metrics are exported\<close>

text \<open>
  \<open>internal/vram/discovery.go\<close>: the nodes that run a model server pod and match the node
  selector, and for each the first exporter pod with a TCP port. The Kubernetes API and the order
  in which Go ranges over the set of nodes are the environment \<open>discovery_env\<close>.
\<close>

record discovery =
  dHasClient :: bool
  dNamespace :: string
  dPodSelector :: labels
  dNodeSelector :: labels
  dExporterNamespace :: string
  dExporterPodSelector :: labels

record discovery_config =
  cfgClient :: bool
  cfgNamespace :: string
  cfgPodSelector :: labels
  cfgNodeSelector :: labels
  cfgExporterNamespace :: string
  cfgExporterPodSelector :: labels

record discovery_env =
  listPodObjs :: "pod lister"
  listNodeObjs :: "node lister"
  nodeOrder :: "string set \<Rightarrow> string list"

definition NewKubernetesDiscovery :: "discovery_config \<Rightarrow> discovery" where
  "NewKubernetesDiscovery config =
     \<lparr>dHasClient = cfgClient config, dNamespace = cfgNamespace config,
      dPodSelector = cfgPodSelector config, dNodeSelector = cfgNodeSelector config,
      dExporterNamespace = cfgExporterNamespace config,
      dExporterPodSelector = cfgExporterPodSelector config\<rparr>"

definition discovery_UpdatePodSelector :: "labels \<Rightarrow> discovery \<Rightarrow> discovery" where
  "discovery_UpdatePodSelector sel d = d\<lparr>dPodSelector := sel\<rparr>"

definition discovery_UpdateNodeSelector :: "labels \<Rightarrow> discovery \<Rightarrow> discovery" where
  "discovery_UpdateNodeSelector sel d = d\<lparr>dNodeSelector := sel\<rparr>"

definition discovery_UpdateNamespace :: "string \<Rightarrow> discovery \<Rightarrow> discovery" where
  "discovery_UpdateNamespace ns d = d\<lparr>dNamespace := ns\<rparr>"

subsection \<open>The exporter of a node\<close>

fun first_port :: "container_port list \<Rightarrow> int32 option" where
  "first_port [] = None"
| "first_port (p # ps) =
     (if (cpProtocol p = [] \<or> cpProtocol p = ProtocolTCP) \<and> 0 < sint (cpContainerPort p)
      then Some (cpContainerPort p) else first_port ps)"

fun first_container_port :: "container_port list list \<Rightarrow> int32 option" where
  "first_container_port [] = None"
| "first_container_port (c # cs) =
     (case first_port c of Some p \<Rightarrow> Some p | None \<Rightarrow> first_container_port cs)"

definition getFirstTCPPort :: "pod \<Rightarrow> vram_error + int32" where
  "getFirstTCPPort pod =
     (case first_container_port (Containers pod) of
        Some p \<Rightarrow> Inr p
      | None \<Rightarrow> Inl (ErrNoTCPPortInExporterPod (PodNamespace pod) (PodName pod)))"

fun exporter_loop :: "string \<Rightarrow> pod list \<Rightarrow> vram_error + metrics_endpoint" where
  "exporter_loop nodeName [] = Inl (ErrNoRunningExporterPod nodeName)"
| "exporter_loop nodeName (pod # pods) =
     (if Phase pod \<noteq> PodRunning then exporter_loop nodeName pods
      else if NodeName pod \<noteq> nodeName then exporter_loop nodeName pods
      else if PodIP pod = [] then exporter_loop nodeName pods
      else case getFirstTCPPort pod of
        Inl e \<Rightarrow> exporter_loop nodeName pods
      | Inr port \<Rightarrow> Inr \<lparr>EpNodeName = nodeName, EpAddress = PodIP pod, EpPort = port\<rparr>)"

definition findExporterEndpoint :: "discovery_env \<Rightarrow> discovery \<Rightarrow> string \<Rightarrow> vram_error + metrics_endpoint" where
  "findExporterEndpoint env d nodeName =
     (case listPodObjs env \<lparr>inNamespace = Some (dExporterNamespace d),
             matchingLabels = dExporterPodSelector d, fieldNodeName = None\<rparr> of
        Inl e \<Rightarrow> Inl (ErrListPods e)
      | Inr pods \<Rightarrow> exporter_loop nodeName pods)"

subsection \<open>Discovery\<close>

fun seen_nodes :: "string set \<Rightarrow> pod list \<Rightarrow> string set \<Rightarrow> string set" where
  "seen_nodes nodeSet [] seen = seen"
| "seen_nodes nodeSet (pod # pods) seen =
     (if Phase pod \<noteq> PodRunning then seen_nodes nodeSet pods seen
      else if NodeName pod = [] then seen_nodes nodeSet pods seen
      else if NodeName pod \<notin> nodeSet then seen_nodes nodeSet pods seen
      else seen_nodes nodeSet pods (insert (NodeName pod) seen))"

fun collect_endpoints :: "discovery_env \<Rightarrow> discovery \<Rightarrow> string list \<Rightarrow> metrics_endpoint list" where
  "collect_endpoints env d [] = []"
| "collect_endpoints env d (n # ns) =
     (case findExporterEndpoint env d n of
        Inl e \<Rightarrow> collect_endpoints env d ns
      | Inr ep \<Rightarrow> ep # collect_endpoints env d ns)"

definition DiscoverEndpoints :: "discovery_env \<Rightarrow> discovery \<Rightarrow> vram_error + metrics_endpoint list" where
  "DiscoverEndpoints env d =
     (if \<not> dHasClient d then Inl ErrClientNil
      else case listPodObjs env \<lparr>inNamespace = Some (dNamespace d), matchingLabels = dPodSelector d,
                  fieldNodeName = None\<rparr> of
        Inl e \<Rightarrow> Inl (ErrListPods e)
      | Inr pods \<Rightarrow>
          (case listNodeObjs env \<lparr>inNamespace = None, matchingLabels = dNodeSelector d,
                  fieldNodeName = None\<rparr> of
             Inl e \<Rightarrow> Inl (ErrListNodes e)
           | Inr nodes \<Rightarrow>
               (let nodeSet = set (map NodeObjName nodes);
                    seen = seen_nodes nodeSet pods {}
                in Inr (collect_endpoints env d (nodeOrder env seen)))))"

text \<open>An empty node selector is not passed to the client; it matches every node, so it may be.\<close>

subsection \<open>The static discovery\<close>

record static_discovery =
  sdEndpoints :: "metrics_endpoint list"

definition NewStaticDiscovery :: "metrics_endpoint list \<Rightarrow> static_discovery" where
  "NewStaticDiscovery endpoints = \<lparr>sdEndpoints = endpoints\<rparr>"

definition static_DiscoverEndpoints :: "unit \<Rightarrow> static_discovery \<Rightarrow> vram_error + metrics_endpoint list" where
  "static_DiscoverEndpoints env d = Inr (sdEndpoints d)"

definition SetEndpoints :: "metrics_endpoint list \<Rightarrow> static_discovery \<Rightarrow> static_discovery" where
  "SetEndpoints eps d = d\<lparr>sdEndpoints := eps\<rparr>"

subsection \<open>Lemmas\<close>

lemma seen_nodes_set:
  "seen_nodes nodeSet pods seen =
    seen \<union> {NodeName p | p. p \<in> set pods \<and> Phase p = PodRunning \<and> NodeName p \<noteq> [] \<and> NodeName p \<in> nodeSet}"
  by (induction pods arbitrary: seen) auto

lemma seen_nodes_iff:
  "n \<in> seen_nodes nodeSet pods {} \<longleftrightarrow>
    n \<noteq> [] \<and> n \<in> nodeSet \<and> (\<exists>p \<in> set pods. Phase p = PodRunning \<and> NodeName p = n)"
  by (auto simp: seen_nodes_set)

lemma finite_seen: "finite seen \<Longrightarrow> finite (seen_nodes nodeSet pods seen)"
  by (induction pods arbitrary: seen) auto

lemma first_port_some:
  "first_port ps = Some p \<Longrightarrow>
    \<exists>c \<in> set ps. cpContainerPort c = p \<and> 0 < sint p \<and> (cpProtocol c = [] \<or> cpProtocol c = ProtocolTCP)"
  by (induction ps) (auto split: if_splits)

lemma first_container_port_some:
  "first_container_port cs = Some p \<Longrightarrow>
    \<exists>ports \<in> set cs. \<exists>c \<in> set ports. cpContainerPort c = p \<and> 0 < sint p \<and>
      (cpProtocol c = [] \<or> cpProtocol c = ProtocolTCP)"
  by (induction cs) (auto split: option.splits dest: first_port_some)

lemma exporter_loop_result:
  "exporter_loop n pods = Inr ep \<Longrightarrow>
    EpNodeName ep = n \<and> 0 < sint (EpPort ep) \<and>
    (\<exists>p \<in> set pods. Phase p = PodRunning \<and> NodeName p = n \<and> PodIP p = EpAddress ep \<and> PodIP p \<noteq> [] \<and>
      getFirstTCPPort p = Inr (EpPort ep))"
proof (induction pods)
  case (Cons p pods)
  show ?case
  proof (cases "Phase p = PodRunning \<and> NodeName p = n \<and> PodIP p \<noteq> [] \<and> (\<exists>port. getFirstTCPPort p = Inr port)")
    case True
    then show ?thesis
      using Cons.prems
      by (auto simp: getFirstTCPPort_def split: option.splits dest: first_container_port_some)
  next
    case False
    then have "exporter_loop n pods = Inr ep"
      using Cons.prems by (auto split: if_splits sum.splits)
    then show ?thesis using Cons.IH by auto
  qed
qed simp

lemma exporter_loop_has:
  "(\<exists>ep. exporter_loop n pods = Inr ep) \<longleftrightarrow>
    (\<exists>p \<in> set pods. Phase p = PodRunning \<and> NodeName p = n \<and> PodIP p \<noteq> [] \<and>
      (\<exists>port. getFirstTCPPort p = Inr port))"
  by (induction pods) (auto split: sum.splits)

lemma findExporterEndpoint_node: "findExporterEndpoint env d n = Inr ep \<Longrightarrow> EpNodeName ep = n"
  by (auto simp: findExporterEndpoint_def dest: exporter_loop_result split: sum.splits)

lemma collect_endpoints_names:
  "map EpNodeName (collect_endpoints env d ns) =
    filter (\<lambda>n. \<exists>ep. findExporterEndpoint env d n = Inr ep) ns"
  by (induction ns) (auto split: sum.split dest: findExporterEndpoint_node)

lemma collect_endpoints_set:
  "set (collect_endpoints env d ns) = {ep. \<exists>n \<in> set ns. findExporterEndpoint env d n = Inr ep}"
  by (induction ns) (auto split: sum.splits)

lemma DiscoverEndpoints_distinct:
  assumes "range_order (nodeOrder env)" and "DiscoverEndpoints env d = Inr eps"
  shows "distinct (map EpNodeName eps)"
proof -
  obtain K where "finite K" and "eps = collect_endpoints env d (nodeOrder env K)"
    using assms(2) finite_seen [of "{}"]
    by (auto simp: DiscoverEndpoints_def Let_def split: if_splits sum.splits)
  then show ?thesis using range_orderD(1) [OF assms(1)] by (simp add: collect_endpoints_names)
qed

subsection \<open>Both discoveries keep the contract\<close>

interpretation k8s_discovery: node_discovery DiscoverEndpoints "\<lambda>env d. range_order (nodeOrder env)"
  by unfold_locales (rule DiscoverEndpoints_distinct)

interpretation static_discovery: node_discovery static_DiscoverEndpoints
  "\<lambda>env d. distinct (map EpNodeName (sdEndpoints d))"
  by unfold_locales (simp add: static_DiscoverEndpoints_def)

subsection \<open>Properties of discovery\<close>

definition on_node :: "pod \<Rightarrow> string \<Rightarrow> bool" where
  "on_node p n \<longleftrightarrow> Phase p = PodRunning \<and> NodeName p = n"

text \<open>C29: discovery is sound and complete. With a client that answers from the cluster's pods and
  nodes, the nodes it returns are exactly the nodes that match the node selector, run a model server
  pod and run an exporter pod with an IP and a TCP port; each appears once, and its endpoint is the
  address and a positive TCP port of such an exporter pod on that very node.\<close>

theorem discovery_exact:
  assumes "dHasClient d" and "range_order (nodeOrder env)"
    and pods: "\<forall>opts. listPodObjs env opts = Inr (filter (pod_matches opts) cluster)"
    and nodes: "\<forall>opts. listNodeObjs env opts =
      Inr (filter (\<lambda>n. labels_match (matchingLabels opts) (NodeLabels n)) hosts)"
  shows "\<exists>eps. DiscoverEndpoints env d = Inr eps \<and> distinct (map EpNodeName eps) \<and>
    set (map EpNodeName eps) =
      {n. n \<noteq> [] \<and> (\<exists>h \<in> set hosts. NodeObjName h = n \<and> labels_match (dNodeSelector d) (NodeLabels h)) \<and>
          (\<exists>p \<in> set cluster. on_node p n \<and> in_namespace (dNamespace d) p \<and>
             labels_match (dPodSelector d) (PodLabels p)) \<and>
          (\<exists>p \<in> set cluster. on_node p n \<and> in_namespace (dExporterNamespace d) p \<and>
             labels_match (dExporterPodSelector d) (PodLabels p) \<and> PodIP p \<noteq> [] \<and>
             (\<exists>port. getFirstTCPPort p = Inr port))} \<and>
    (\<forall>ep \<in> set eps. 0 < sint (EpPort ep) \<and>
       (\<exists>p \<in> set cluster. on_node p (EpNodeName ep) \<and> PodIP p = EpAddress ep \<and>
          labels_match (dExporterPodSelector d) (PodLabels p) \<and> getFirstTCPPort p = Inr (EpPort ep)))"
proof -
  let ?expo = "filter (pod_matches \<lparr>inNamespace = Some (dExporterNamespace d),
    matchingLabels = dExporterPodSelector d, fieldNodeName = None\<rparr>) cluster"
  let ?seen = "seen_nodes (set (map NodeObjName (filter (\<lambda>n. labels_match (dNodeSelector d) (NodeLabels n)) hosts)))
    (filter (pod_matches \<lparr>inNamespace = Some (dNamespace d), matchingLabels = dPodSelector d,
       fieldNodeName = None\<rparr>) cluster) {}"
  let ?eps = "collect_endpoints env d (nodeOrder env ?seen)"
  have find: "findExporterEndpoint env d n = exporter_loop n ?expo" for n
    using pods by (simp add: findExporterEndpoint_def)
  have disc: "DiscoverEndpoints env d = Inr ?eps"
    using assms(1) pods nodes by (simp add: DiscoverEndpoints_def Let_def)
  have ord: "set (nodeOrder env ?seen) = ?seen"
    using assms(2) by (intro range_orderD(2) finite_seen) simp_all
  have has: "(\<exists>ep. exporter_loop n ?expo = Inr ep) \<longleftrightarrow>
      (\<exists>p \<in> set cluster. on_node p n \<and> in_namespace (dExporterNamespace d) p \<and>
         labels_match (dExporterPodSelector d) (PodLabels p) \<and> PodIP p \<noteq> [] \<and>
         (\<exists>port. getFirstTCPPort p = Inr port))" for n
    unfolding exporter_loop_has by (auto simp: on_node_def pod_matches_def)
  have seen: "n \<in> ?seen \<longleftrightarrow> n \<noteq> [] \<and>
      (\<exists>h \<in> set hosts. NodeObjName h = n \<and> labels_match (dNodeSelector d) (NodeLabels h)) \<and>
      (\<exists>p \<in> set cluster. on_node p n \<and> in_namespace (dNamespace d) p \<and>
         labels_match (dPodSelector d) (PodLabels p))" for n
  proof -
    have "n \<in> set (map NodeObjName (filter (\<lambda>n. labels_match (dNodeSelector d) (NodeLabels n)) hosts)) \<longleftrightarrow>
        (\<exists>h \<in> set hosts. NodeObjName h = n \<and> labels_match (dNodeSelector d) (NodeLabels h))"
      by auto
    then show ?thesis unfolding seen_nodes_iff by (auto simp: on_node_def pod_matches_def)
  qed
  have names: "set (map EpNodeName ?eps) = {n \<in> ?seen. \<exists>ep. exporter_loop n ?expo = Inr ep}"
    unfolding collect_endpoints_names set_filter ord find ..
  have ends: "\<forall>ep \<in> set ?eps. 0 < sint (EpPort ep) \<and>
      (\<exists>p \<in> set cluster. on_node p (EpNodeName ep) \<and> PodIP p = EpAddress ep \<and>
        labels_match (dExporterPodSelector d) (PodLabels p) \<and> getFirstTCPPort p = Inr (EpPort ep))"
    by (fastforce simp: collect_endpoints_set find on_node_def pod_matches_def dest!: exporter_loop_result)
  show ?thesis
    by (intro exI [of _ ?eps] conjI disc DiscoverEndpoints_distinct [OF assms(2) disc] ends)
      (unfold names seen has, rule Collect_cong, simp only: conj_assoc)
qed

definition demo_server :: pod where
  "demo_server =
     \<lparr>PodName = ''llama-0'', PodNamespace = ''models'', PodLabels = [''app'' \<mapsto> ''llama''], NodeName = ''gpu-1'',
      Containers = [], Phase = PodRunning, PodIP = ''10.0.0.1''\<rparr>"

definition demo_exporter :: pod where
  "demo_exporter =
     \<lparr>PodName = ''exp-0'', PodNamespace = ''monitoring'', PodLabels = [''app'' \<mapsto> ''exporter''],
      NodeName = ''gpu-1'',
      Containers = [[\<lparr>cpProtocol = ''UDP'', cpContainerPort = 53\<rparr>], [\<lparr>cpProtocol = [], cpContainerPort = 9400\<rparr>]],
      Phase = PodRunning, PodIP = ''10.0.0.9''\<rparr>"

definition demo_discovery :: discovery where
  "demo_discovery =
     \<lparr>dHasClient = True, dNamespace = ''models'', dPodSelector = [''app'' \<mapsto> ''llama''],
      dNodeSelector = Map.empty, dExporterNamespace = ''monitoring'',
      dExporterPodSelector = [''app'' \<mapsto> ''exporter'']\<rparr>"

definition demo_cluster_env :: discovery_env where
  "demo_cluster_env =
     \<lparr>listPodObjs = (\<lambda>opts. Inr (filter (pod_matches opts) [demo_server, demo_exporter])),
      listNodeObjs = (\<lambda>opts. Inr (filter (\<lambda>n. labels_match (matchingLabels opts) (NodeLabels n))
        [\<lparr>NodeObjName = ''gpu-1'', NodeLabels = Map.empty\<rparr>])),
      nodeOrder = sorted_list_of_set\<rparr>"

lemma demo_exporter_port: "getFirstTCPPort demo_exporter = Inr 9400"
  by (simp add: getFirstTCPPort_def demo_exporter_def ProtocolTCP_def)

theorem discovery_exact_witness:
  "\<exists>eps. DiscoverEndpoints demo_cluster_env demo_discovery = Inr eps \<and> ''gpu-1'' \<in> set (map EpNodeName eps)"
proof -
  have d: "dHasClient demo_discovery" by (simp add: demo_discovery_def)
  have o: "range_order (nodeOrder demo_cluster_env)"
    by (simp add: demo_cluster_env_def range_order_sorted)
  have "on_node demo_server ''gpu-1''" "in_namespace (dNamespace demo_discovery) demo_server"
    "labels_match (dPodSelector demo_discovery) (PodLabels demo_server)"
    "labels_match (dNodeSelector demo_discovery) Map.empty"
    "on_node demo_exporter ''gpu-1''" "in_namespace (dExporterNamespace demo_discovery) demo_exporter"
    "labels_match (dExporterPodSelector demo_discovery) (PodLabels demo_exporter)"
    "PodIP demo_exporter \<noteq> []"
    by (simp_all add: on_node_def demo_server_def demo_exporter_def demo_discovery_def labels_match_def in_namespace_def)
  note facts = this
  show ?thesis
    using discovery_exact [OF d o, of "[demo_server, demo_exporter]"
        "[\<lparr>NodeObjName = ''gpu-1'', NodeLabels = Map.empty\<rparr>]"] facts demo_exporter_port
    by (fastforce simp: demo_cluster_env_def)
qed

end
