(* ===== verification/Vram_Tracker.thy ===== *)
theory Vram_Tracker
  imports Vram_Scraper Vram_Discovery
begin

section \<open>The VRAM tracker\<close>

text \<open>
  \<open>internal/vram/tracker.go\<close> and \<open>internal/vram/otel.go\<close>: the last metrics of each node,
  refreshed by scraping the discovered endpoints, and the choice of the node with the most free
  memory. The instrumentation is an interface value: absent, the no-op one, an OpenTelemetry one, or
  a nil pointer of that type inside a non-nil interface, which Go lets be called. A call through the
  nil pointer panics; a result of \<open>None\<close> is a panic.
\<close>

subsection \<open>Instrumentation\<close>

record otel =
  currentMetrics :: "string \<rightharpoonup> metrics"
  registered :: bool

datatype instrumentation = NoInstrumentation | NoopInstrumentation | OTel otel | NilOTel

text \<open>The meter: for each of its four calls in order, an error or none.\<close>

record meter =
  totalGaugeErr :: "string option"
  usedGaugeErr :: "string option"
  availableGaugeErr :: "string option"
  registerErr :: "string option"

datatype otel_error = TotalGauge string | UsedGauge string | AvailableGauge string | RegisterCallback string

definition NewOTelInstrumentation :: "meter \<Rightarrow> otel_error + otel" where
  "NewOTelInstrumentation m =
     (case totalGaugeErr m of Some e \<Rightarrow> Inl (TotalGauge e)
      | None \<Rightarrow> (case usedGaugeErr m of Some e \<Rightarrow> Inl (UsedGauge e)
      | None \<Rightarrow> (case availableGaugeErr m of Some e \<Rightarrow> Inl (AvailableGauge e)
      | None \<Rightarrow> (case registerErr m of Some e \<Rightarrow> Inl (RegisterCallback e)
      | None \<Rightarrow> Inr \<lparr>currentMetrics = Map.empty, registered = True\<rparr>))))"

definition MustNewOTelInstrumentation :: "meter \<Rightarrow> instrumentation" where
  "MustNewOTelInstrumentation m =
     (case NewOTelInstrumentation m of Inl e \<Rightarrow> NilOTel | Inr o' \<Rightarrow> OTel o')"

definition RecordMetrics :: "(string \<rightharpoonup> metrics) \<Rightarrow> instrumentation \<Rightarrow> instrumentation option" where
  "RecordMetrics ms i =
     (case i of
        NoopInstrumentation \<Rightarrow> Some i
      | OTel o' \<Rightarrow> Some (OTel (o'\<lparr>currentMetrics := (\<lambda>n. map_option copy_metrics (ms n))\<rparr>))
      | _ \<Rightarrow> None)"

definition otel_Close :: "(unit \<Rightarrow> string option) \<Rightarrow> otel \<Rightarrow> string option \<times> otel" where
  "otel_Close unregister o' =
     (if registered o' then (unregister (), o') else (None, o'))"

datatype observation = ObsTotal string int64 | ObsUsed string int64 | ObsAvailable string int64

definition observeCallback :: "(string set \<Rightarrow> string list) \<Rightarrow> otel \<Rightarrow> observation list" where
  "observeCallback ord o' =
     concat (map (\<lambda>n. case currentMetrics o' n of
         None \<Rightarrow> []
       | Some m \<Rightarrow> [ObsTotal n (TotalVRAM m), ObsUsed n (UsedVRAM m), ObsAvailable n (AvailableVRAM m)])
       (ord (dom (currentMetrics o'))))"

subsection \<open>State and constructors\<close>

record vram_tracker =
  vtHasDiscovery :: bool
  vtInterval :: int
  vtInstrumentation :: instrumentation
  vtMetrics :: "string \<rightharpoonup> metrics"
  vtK8s :: "discovery option"

record tracker_options =
  optInterval :: int
  optInstrumentation :: instrumentation

definition WithScrapeInterval :: "int \<Rightarrow> tracker_options \<Rightarrow> tracker_options" where
  "WithScrapeInterval i opts = opts\<lparr>optInterval := i\<rparr>"

definition WithInstrumentation :: "instrumentation \<Rightarrow> tracker_options \<Rightarrow> tracker_options" where
  "WithInstrumentation i opts = opts\<lparr>optInstrumentation := i\<rparr>"

definition NewTrackerWithDeps :: "bool \<Rightarrow> (tracker_options \<Rightarrow> tracker_options) list \<Rightarrow> vram_tracker" where
  "NewTrackerWithDeps hasDiscovery opts =
     (let o' = fold (\<lambda>f o'. f o') opts
            \<lparr>optInterval = DefaultScrapeInterval, optInstrumentation = NoInstrumentation\<rparr>
      in \<lparr>vtHasDiscovery = hasDiscovery, vtInterval = optInterval o',
          vtInstrumentation = optInstrumentation o', vtMetrics = Map.empty, vtK8s = None\<rparr>)"

definition vram_NewTracker :: "discovery_config \<Rightarrow> int \<Rightarrow> vram_tracker" where
  "vram_NewTracker cfg interval =
     \<lparr>vtHasDiscovery = True, vtInterval = interval, vtInstrumentation = NoInstrumentation,
      vtMetrics = Map.empty, vtK8s = Some (NewKubernetesDiscovery cfg)\<rparr>"

definition NewTrackerWithMeter :: "discovery_config \<Rightarrow> int \<Rightarrow> meter \<Rightarrow> vram_tracker" where
  "NewTrackerWithMeter cfg interval m =
     \<lparr>vtHasDiscovery = True, vtInterval = interval, vtInstrumentation = MustNewOTelInstrumentation m,
      vtMetrics = Map.empty, vtK8s = Some (NewKubernetesDiscovery cfg)\<rparr>"

subsection \<open>Queries and updates\<close>

definition vram_GetMetrics :: "vram_tracker \<Rightarrow> string \<rightharpoonup> metrics" where
  "vram_GetMetrics t n = map_option copy_metrics (vtMetrics t n)"

fun best_node :: "(string \<rightharpoonup> metrics) \<Rightarrow> string list \<Rightarrow> string \<Rightarrow> int64 \<Rightarrow> string \<times> int64" where
  "best_node ms [] best most = (best, most)"
| "best_node ms (n # ns) best most =
     (case ms n of
        None \<Rightarrow> best_node ms ns best most
      | Some m \<Rightarrow>
          if i64_less most (AvailableVRAM m) then best_node ms ns n (AvailableVRAM m)
          else best_node ms ns best most)"

definition GetNodeWithMostAvailableVRAM ::
  "(string set \<Rightarrow> string list) \<Rightarrow> vram_tracker \<Rightarrow> vram_error + string \<times> int64" where
  "GetNodeWithMostAvailableVRAM ord t =
     (if dom (vtMetrics t) = {} then Inl ErrNoNodes
      else case best_node (vtMetrics t) (ord (dom (vtMetrics t))) [] 0 of
        (best, most) \<Rightarrow> if best = [] then Inl ErrNoSuitableNode else Inr (best, most))"

definition GetNodeVRAM :: "vram_tracker \<Rightarrow> string \<Rightarrow> vram_error + metrics" where
  "GetNodeVRAM t n =
     (case vtMetrics t n of None \<Rightarrow> Inl (ErrNoMetrics n) | Some m \<Rightarrow> Inr (copy_metrics m))"

definition SetMetrics :: "string \<Rightarrow> metrics \<Rightarrow> vram_tracker \<Rightarrow> vram_tracker" where
  "SetMetrics n m t = t\<lparr>vtMetrics := (vtMetrics t)(n \<mapsto> copy_metrics m)\<rparr>"

text \<open>
  The three updates of the discovery; the first two start a scrape in the background, which
  \<open>vram_scrapeMetrics\<close> is. They do nothing without a Kubernetes discovery.
\<close>

definition vram_UpdatePodSelector :: "labels \<Rightarrow> vram_tracker \<Rightarrow> vram_tracker" where
  "vram_UpdatePodSelector sel t = t\<lparr>vtK8s := map_option (discovery_UpdatePodSelector sel) (vtK8s t)\<rparr>"

definition vram_UpdateNodeSelector :: "labels \<Rightarrow> vram_tracker \<Rightarrow> vram_tracker" where
  "vram_UpdateNodeSelector sel t = t\<lparr>vtK8s := map_option (discovery_UpdateNodeSelector sel) (vtK8s t)\<rparr>"

definition vram_UpdateNamespace :: "string \<Rightarrow> vram_tracker \<Rightarrow> vram_tracker" where
  "vram_UpdateNamespace ns t = t\<lparr>vtK8s := map_option (discovery_UpdateNamespace ns) (vtK8s t)\<rparr>"

subsection \<open>Scraping\<close>

fun scrape_loop ::
  "(metrics_endpoint \<Rightarrow> vram_error + metrics) \<Rightarrow> metrics_endpoint list \<Rightarrow> (string \<rightharpoonup> metrics) \<Rightarrow>
   (string \<rightharpoonup> metrics)" where
  "scrape_loop scrape [] ms = ms"
| "scrape_loop scrape (ep # eps) ms =
     (case scrape ep of
        Inl e \<Rightarrow> scrape_loop scrape eps ms
      | Inr m \<Rightarrow> scrape_loop scrape eps (ms(EpNodeName ep \<mapsto> m)))"

definition vram_scrapeMetrics ::
  "(vram_error + metrics_endpoint list) \<Rightarrow> (metrics_endpoint \<Rightarrow> vram_error + metrics) \<Rightarrow>
   vram_tracker \<Rightarrow> vram_tracker option" where
  "vram_scrapeMetrics discovered scrape t =
     (if \<not> vtHasDiscovery t then Some t
      else case discovered of
        Inl e \<Rightarrow> Some t
      | Inr eps \<Rightarrow>
          (let t' = t\<lparr>vtMetrics := scrape_loop scrape eps (vtMetrics t)\<rparr>
           in if vtInstrumentation t' = NoInstrumentation then Some t'
              else case RecordMetrics (vram_GetMetrics t') (vtInstrumentation t') of
                None \<Rightarrow> None
              | Some i \<Rightarrow> Some (t'\<lparr>vtInstrumentation := i\<rparr>)))"

text \<open>A round of the tracker built by \<open>NewTracker\<close>: Kubernetes discovery and Prometheus scraping.\<close>

record scrape_round =
  rdDiscovery :: discovery_env
  rdScrape :: "metrics_endpoint \<Rightarrow> scrape_env"

definition k8s_scrape ::
  "(float64 \<Rightarrow> int64) \<Rightarrow> (string \<Rightarrow> families option) \<Rightarrow> scrape_round \<Rightarrow> vram_tracker \<Rightarrow> vram_tracker option" where
  "k8s_scrape hw parse rd t =
     (case vtK8s t of
        None \<Rightarrow> Some t
      | Some d \<Rightarrow>
          vram_scrapeMetrics (DiscoverEndpoints (rdDiscovery rd) d)
            (\<lambda>ep. prom_Scrape hw parse (rdScrape rd ep) NewPrometheusScraper ep) t)"

definition vram_Start ::
  "(float64 \<Rightarrow> int64) \<Rightarrow> (string \<Rightarrow> families option) \<Rightarrow> scrape_round \<Rightarrow> scrape_round loop_event list \<Rightarrow>
   vram_tracker \<Rightarrow> vram_tracker option \<times> bool" where
  "vram_Start hw parse first es t =
     (case ticker_loop (vtInterval t)
             (\<lambda>rd st. case st of None \<Rightarrow> None | Some t \<Rightarrow> k8s_scrape hw parse rd t) es
             (k8s_scrape hw parse first t) of
        None \<Rightarrow> (None, False)
      | Some r \<Rightarrow> r)"

subsection \<open>Lemmas\<close>

lemma map_copy_metrics [simp]: "map_option copy_metrics x = x"
  by (cases x) simp_all

lemma vram_GetMetrics_id [simp]: "vram_GetMetrics t = vtMetrics t"
  by (simp add: vram_GetMetrics_def fun_eq_iff)

lemma scrape_loop_prom:
  "scrape_loop (\<lambda>ep. prom_Scrape hw parse (env ep) s ep) eps ms =
    prom.store_all hw parse s (map (\<lambda>ep. (env ep, ep)) eps) ms"
  by (induction eps arbitrary: ms) (auto split: sum.split)

lemma RecordMetrics_OTel [simp]:
  "RecordMetrics ms (OTel o') = Some (OTel (o'\<lparr>currentMetrics := ms\<rparr>))"
  by (simp add: RecordMetrics_def)

text \<open>The fold over the nodes keeps the first node with the largest value seen so far.\<close>

lemma best_node_most:
  "best_node ms ns best most = (b, v) \<Longrightarrow>
    sint most \<le> sint v \<and> (\<forall>n \<in> set ns. \<forall>m. ms n = Some m \<longrightarrow> sint (AvailableVRAM m) \<le> sint v) \<and>
    ((b, v) = (best, most) \<or> (\<exists>m. b \<in> set ns \<and> ms b = Some m \<and> AvailableVRAM m = v \<and> sint most < sint v))"
proof (induction ns arbitrary: best most)
  case (Cons n ns)
  show ?case
  proof (cases "ms n")
    case None
    then show ?thesis using Cons by auto
  next
    case (Some m)
    show ?thesis
    proof (cases "i64_less most (AvailableVRAM m)")
      case True
      then have "best_node ms ns n (AvailableVRAM m) = (b, v)" using Cons.prems Some by simp
      from Cons.IH [OF this] show ?thesis using True Some by auto
    next
      case False
      then have "best_node ms ns best most = (b, v)" using Cons.prems Some by simp
      from Cons.IH [OF this] show ?thesis using False Some by auto
    qed
  qed
qed simp

text \<open>What a scrape leaves in the metrics, whatever the instrumentation does.\<close>

lemma vram_scrapeMetrics_metrics:
  assumes "vram_scrapeMetrics (Inr eps) scrape t = Some t'" and "vtHasDiscovery t"
  shows "vtMetrics t' = scrape_loop scrape eps (vtMetrics t)"
  using assms by (auto simp: vram_scrapeMetrics_def Let_def split: if_splits option.splits)

lemma vram_scrapeMetrics_error: "vram_scrapeMetrics (Inl e) scrape t = Some t"
  by (simp add: vram_scrapeMetrics_def)

definition vram_ok :: "vram_tracker \<Rightarrow> bool" where
  "vram_ok t \<longleftrightarrow> finite (dom (vtMetrics t)) \<and> (\<forall>n m. vtMetrics t n = Some m \<longrightarrow> metrics_ok m)"

lemma k8s_scrape_ok:
  assumes "vram_ok t" and "vtHasDiscovery t" and "k8s_scrape hw parse rd t = Some t'"
  shows "vram_ok t'"
proof (cases "vtK8s t")
  case None
  then show ?thesis using assms by (simp add: k8s_scrape_def)
next
  case (Some d)
  show ?thesis
  proof (cases "DiscoverEndpoints (rdDiscovery rd) d")
    case (Inl e)
    then show ?thesis using assms Some by (simp add: k8s_scrape_def vram_scrapeMetrics_error)
  next
    case (Inr eps)
    let ?eps = "map (\<lambda>ep. (rdScrape rd ep, ep)) eps"
    have m: "vtMetrics t' = prom.store_all hw parse NewPrometheusScraper ?eps (vtMetrics t)"
      using assms(2,3) Some Inr vram_scrapeMetrics_metrics
      by (fastforce simp: k8s_scrape_def simp flip: scrape_loop_prom)
    have "metrics_ok v" if "vtMetrics t' n = Some v" for n v
      by (rule prom.store_all_ok [OF TrueI _ that [unfolded m]])
        (use assms(1) in \<open>simp add: vram_ok_def\<close>)
    then show ?thesis
      using prom.store_all_finite [of "vtMetrics t"] assms(1) by (simp add: vram_ok_def m)
  qed
qed

subsection \<open>Properties of the VRAM tracker\<close>

text \<open>The node chosen for a load. The answer is a node the tracker has metrics for, with a positive
  amount of free memory that no other node exceeds. There is an answer exactly when some named node
  has free memory and the empty name does not have the most; without any metrics the error says so.\<close>

theorem best_node_has_most:
  assumes "range_order ord" and "finite (dom (vtMetrics t))"
  shows "case GetNodeWithMostAvailableVRAM ord t of
      Inr (n, v) \<Rightarrow> (\<exists>m. vtMetrics t n = Some m \<and> AvailableVRAM m = v) \<and> 0 < sint v \<and> n \<noteq> [] \<and>
        (\<forall>n' m'. vtMetrics t n' = Some m' \<longrightarrow> sint (AvailableVRAM m') \<le> sint v)
    | Inl e \<Rightarrow> e = (if dom (vtMetrics t) = {} then ErrNoNodes else ErrNoSuitableNode) \<and>
        ((\<forall>n m. vtMetrics t n = Some m \<longrightarrow> sint (AvailableVRAM m) \<le> 0) \<or> vtMetrics t [] \<noteq> None)"
proof (cases "dom (vtMetrics t) = {}")
  case True
  then show ?thesis by (auto simp: GetNodeWithMostAvailableVRAM_def)
next
  case False
  obtain b v where bv: "best_node (vtMetrics t) (ord (dom (vtMetrics t))) [] 0 = (b, v)" by fastforce
  have dom: "set (ord (dom (vtMetrics t))) = dom (vtMetrics t)" using assms by (rule range_orderD(2))
  from best_node_most [OF bv] have
    most: "\<And>n m. vtMetrics t n = Some m \<Longrightarrow> sint (AvailableVRAM m) \<le> sint v"
    and chosen: "(b, v) = ([], 0) \<or> (\<exists>m. vtMetrics t b = Some m \<and> AvailableVRAM m = v \<and> 0 < sint v)"
    unfolding dom by fastforce+
  show ?thesis
    using False bv most chosen by (auto simp: GetNodeWithMostAvailableVRAM_def)
qed

definition demo_metrics :: "int64 \<Rightarrow> metrics" where
  "demo_metrics free = \<lparr>TotalVRAM = 100, UsedVRAM = 100 - free, AvailableVRAM = free, LastUpdate = 1\<rparr>"

definition demo_vram :: vram_tracker where
  "demo_vram = SetMetrics ''gpu-2'' (demo_metrics 60) (SetMetrics ''gpu-1'' (demo_metrics 40)
     (NewTrackerWithDeps True [WithScrapeInterval 5]))"

lemma demo_vram_metrics: "vtMetrics demo_vram = [''gpu-1'' \<mapsto> demo_metrics 40, ''gpu-2'' \<mapsto> demo_metrics 60]"
  by (simp add: demo_vram_def SetMetrics_def NewTrackerWithDeps_def Let_def)

theorem best_node_has_most_witness:
  "case GetNodeWithMostAvailableVRAM sorted_list_of_set demo_vram of
     Inr (n, v) \<Rightarrow> 60 \<le> sint v | Inl e \<Rightarrow> False"
proof -
  have g: "vtMetrics demo_vram ''gpu-2'' = Some (demo_metrics 60)" "vtMetrics demo_vram [] = None"
    "sint (AvailableVRAM (demo_metrics 60)) = 60" "finite (dom (vtMetrics demo_vram))"
    by (simp_all add: demo_vram_metrics demo_metrics_def)
  show ?thesis
    using best_node_has_most [OF range_order_sorted g(4)] g(1-3)
    by (cases "GetNodeWithMostAvailableVRAM sorted_list_of_set demo_vram") fastforce+
qed

text \<open>C31: a scrape through Kubernetes discovery. If discovery fails nothing changes. Otherwise each
  discovered node whose scrape succeeds shows exactly that scrape; a node whose scrape fails, and a
  node that is no longer discovered at all, keeps its last metrics; and free memory is never negative.\<close>

theorem scrape_shows_nodes:
  assumes "vtK8s t = Some d" and "vtHasDiscovery t" and "vram_ok t"
    and "range_order (nodeOrder (rdDiscovery rd))"
    and "k8s_scrape hw parse rd t = Some t'"
  shows "vram_ok t' \<and>
    (case DiscoverEndpoints (rdDiscovery rd) d of
       Inl e \<Rightarrow> t' = t
     | Inr eps \<Rightarrow>
         (\<forall>ep \<in> set eps. vtMetrics t' (EpNodeName ep) =
            (case prom_Scrape hw parse (rdScrape rd ep) NewPrometheusScraper ep of
               Inr m \<Rightarrow> Some m | Inl e \<Rightarrow> vtMetrics t (EpNodeName ep))) \<and>
         (\<forall>n. n \<notin> EpNodeName ` set eps \<longrightarrow> vtMetrics t' n = vtMetrics t n))"
proof (cases "DiscoverEndpoints (rdDiscovery rd) d")
  case (Inl e)
  then show ?thesis using assms by (simp add: k8s_scrape_def vram_scrapeMetrics_error)
next
  case (Inr eps)
  let ?eps = "map (\<lambda>ep. (rdScrape rd ep, ep)) eps"
  have m: "vtMetrics t' = prom.store_all hw parse NewPrometheusScraper ?eps (vtMetrics t)"
    using assms(1,2,5) Inr vram_scrapeMetrics_metrics
    by (fastforce simp: k8s_scrape_def simp flip: scrape_loop_prom)
  have d: "distinct (map (EpNodeName \<circ> snd) ?eps)"
    using k8s_discovery.one_per_node [OF assms(4) Inr] by (simp add: comp_def)
  have "vtMetrics t' (EpNodeName ep) =
      (case prom_Scrape hw parse (rdScrape rd ep) NewPrometheusScraper ep of
         Inr m \<Rightarrow> Some m | Inl e \<Rightarrow> vtMetrics t (EpNodeName ep))" if "ep \<in> set eps" for ep
    unfolding m by (subst prom.store_all_unique [OF d, of "rdScrape rd ep"]) (use that in auto)
  moreover have "vtMetrics t' n = vtMetrics t n" if "n \<notin> EpNodeName ` set eps" for n
    unfolding m by (rule prom.store_all_other) (use that in \<open>auto simp: image_iff\<close>)
  ultimately show ?thesis using k8s_scrape_ok [OF assms(3,2,5)] Inr by simp
qed

definition demo_round :: scrape_round where
  "demo_round = \<lparr>rdDiscovery = demo_cluster_env\<lparr>listNodeObjs := (\<lambda>opts. Inr [])\<rparr>,
     rdScrape = (\<lambda>ep. \<lparr>scrapeNet = \<lparr>urlOk = (\<lambda>u. False), doReq = (\<lambda>r. Inl [])\<rparr>, scrapeNow = 9\<rparr>)\<rparr>"

definition demo_k8s :: vram_tracker where
  "demo_k8s = SetMetrics ''gone'' (demo_metrics 90)
     ((vram_NewTracker
        \<lparr>cfgClient = True, cfgNamespace = ''models'', cfgPodSelector = Map.empty, cfgNodeSelector = Map.empty,
         cfgExporterNamespace = ''monitoring'', cfgExporterPodSelector = Map.empty\<rparr> 30)
      \<lparr>vtK8s := Some demo_discovery\<rparr>)"

lemma demo_k8s_fields:
  "vtK8s demo_k8s = Some demo_discovery" "vtHasDiscovery demo_k8s" "vram_ok demo_k8s"
  "vtInstrumentation demo_k8s = NoInstrumentation" "vtMetrics demo_k8s = [''gone'' \<mapsto> demo_metrics 90]"
  by (simp_all add: demo_k8s_def SetMetrics_def vram_NewTracker_def vram_ok_def metrics_ok_def demo_metrics_def)

theorem scrape_shows_nodes_witness:
  "\<forall>hw parse. \<exists>t'. k8s_scrape hw parse demo_round demo_k8s = Some t' \<and>
     vtMetrics t' ''gone'' = Some (demo_metrics 90)"
proof (intro allI)
  fix hw parse
  have none: "seen_nodes {} pods {} = {}" for pods using seen_nodes_iff [of _ "{}" pods] by blast
  have eps: "DiscoverEndpoints (rdDiscovery demo_round) demo_discovery = Inr []"
    by (simp add: DiscoverEndpoints_def demo_round_def demo_cluster_env_def demo_discovery_def none Let_def
        del: seen_nodes.simps)
  obtain t' where t': "k8s_scrape hw parse demo_round demo_k8s = Some t'"
    by (auto simp: k8s_scrape_def demo_k8s_fields vram_scrapeMetrics_def eps Let_def)
  have "range_order (nodeOrder (rdDiscovery demo_round))"
    by (simp add: demo_round_def demo_cluster_env_def range_order_sorted)
  then show "\<exists>t'. k8s_scrape hw parse demo_round demo_k8s = Some t' \<and>
      vtMetrics t' ''gone'' = Some (demo_metrics 90)"
    using scrape_shows_nodes [OF demo_k8s_fields(1-3) _ t'] eps t' by (simp add: demo_k8s_fields(5))
qed

text \<open>When a round panics, and what a round leaves as it is.\<close>

definition discovers :: "discovery \<Rightarrow> scrape_round \<Rightarrow> bool" where
  "discovers d rd \<longleftrightarrow> (case DiscoverEndpoints (rdDiscovery rd) d of Inl e \<Rightarrow> False | Inr eps \<Rightarrow> True)"

lemma k8s_scrape_panics:
  assumes "vtK8s t = Some d" and "vtHasDiscovery t"
  shows "k8s_scrape hw parse rd t = None \<longleftrightarrow> vtInstrumentation t = NilOTel \<and> discovers d rd"
  using assms
  by (cases "vtInstrumentation t")
    (auto simp: k8s_scrape_def vram_scrapeMetrics_def discovers_def RecordMetrics_def Let_def split: sum.splits)

lemma k8s_scrape_keeps:
  assumes "vtK8s t = Some d" and "vtHasDiscovery t" and "k8s_scrape hw parse rd t = Some t'"
  shows "vtK8s t' = Some d" and "vtHasDiscovery t'" and "vtInstrumentation t' = NilOTel \<longleftrightarrow> vtInstrumentation t = NilOTel"
  using assms
  by (cases "vtInstrumentation t",
      auto simp: k8s_scrape_def vram_scrapeMetrics_def RecordMetrics_def Let_def split: sum.splits)+

lemma rounds_panic:
  assumes "vtK8s t = Some d" and "vtHasDiscovery t"
  shows "fold (\<lambda>rd st. case st of None \<Rightarrow> None | Some t \<Rightarrow> k8s_scrape hw parse rd t) rds (Some t) = None \<longleftrightarrow>
    vtInstrumentation t = NilOTel \<and> list_ex (discovers d) rds"
  using assms
proof (induction rds arbitrary: t)
  case (Cons rd rds)
  let ?round = "\<lambda>rd st. case st of None \<Rightarrow> None | Some t \<Rightarrow> k8s_scrape hw parse rd t"
  have dead: "fold ?round rds None = None" for rds by (induction rds) auto
  show ?case
  proof (cases "k8s_scrape hw parse rd t")
    case None
    then show ?thesis using k8s_scrape_panics [OF Cons.prems, of hw parse rd] by (simp add: dead)
  next
    case (Some t')
    then have "\<not> (vtInstrumentation t = NilOTel \<and> discovers d rd)"
      using k8s_scrape_panics [OF Cons.prems, of hw parse rd] by auto
    then show ?thesis
      using Cons.IH [OF k8s_scrape_keeps(1,2) [OF Cons.prems Some]] k8s_scrape_keeps(3) [OF Cons.prems Some] Some
      by auto
  qed
qed simp

lemma start_panics:
  assumes "vtK8s t = Some d" and "vtHasDiscovery t"
  shows "fst (vram_Start hw parse rd es t) = None \<longleftrightarrow>
    vtInterval t \<le> 0 \<or> vtInstrumentation t = NilOTel \<and> list_ex (discovers d) (rd # ticks es)"
  using rounds_panic [OF assms, of hw parse "rd # ticks es"]
  by (auto simp: vram_Start_def ticker_loop_def run_loop_ticks)

lemma vram_new_panics:
  "fst (vram_Start hw parse rd es (vram_NewTracker cfg interval)) = None \<longleftrightarrow> interval \<le> 0"
  using start_panics [of "vram_NewTracker cfg interval" "NewKubernetesDiscovery cfg"]
  by (simp add: vram_NewTracker_def)

text \<open>C30: when the tracker takes the process down. A goroutine that panics ends the program. The tracker of
  \<open>NewTracker\<close> panics exactly when its interval is not positive. That of \<open>NewTrackerWithMeter\<close> panics
  also when the OpenTelemetry instruments could not be created, which the constructor only logs, and
  some round gets as far as the instrumentation: the nil pointer it keeps is in an interface that is
  not nil. Nothing else panics.\<close>

theorem vram_start_panics:
  "(fst (vram_Start hw parse rd es (vram_NewTracker cfg interval)) = None \<longleftrightarrow> interval \<le> 0) \<and>
   (fst (vram_Start hw parse rd es (NewTrackerWithMeter cfg interval m)) = None \<longleftrightarrow>
      interval \<le> 0 \<or>
      (\<exists>e. NewOTelInstrumentation m = Inl e) \<and> list_ex (discovers (NewKubernetesDiscovery cfg)) (rd # ticks es))"
proof -
  have "vtInstrumentation (NewTrackerWithMeter cfg interval m) = NilOTel \<longleftrightarrow> (\<exists>e. NewOTelInstrumentation m = Inl e)"
    by (auto simp: NewTrackerWithMeter_def MustNewOTelInstrumentation_def split: sum.split)
  then show ?thesis
    using vram_new_panics [of hw parse rd es cfg interval]
      start_panics [of "NewTrackerWithMeter cfg interval m" "NewKubernetesDiscovery cfg" hw parse rd es]
    by (simp add: NewTrackerWithMeter_def)
qed

text \<open>The failing meter exists, and one list of endpoints, even an empty one, is enough.\<close>

definition demo_meter :: meter where
  "demo_meter = \<lparr>totalGaugeErr = None, usedGaugeErr = Some ''duplicate'', availableGaugeErr = None, registerErr = None\<rparr>"

definition empty_cluster_env :: discovery_env where
  "empty_cluster_env =
     \<lparr>listPodObjs = (\<lambda>opts. Inr []), listNodeObjs = (\<lambda>opts. Inr []), nodeOrder = sorted_list_of_set\<rparr>"

lemma demo_panics:
  "NewOTelInstrumentation demo_meter = Inl (UsedGauge ''duplicate'')"
  "cfgClient cfg \<Longrightarrow> discovers (NewKubernetesDiscovery cfg) \<lparr>rdDiscovery = empty_cluster_env, rdScrape = env\<rparr>"
  by (simp_all add: NewOTelInstrumentation_def demo_meter_def discovers_def DiscoverEndpoints_def
      NewKubernetesDiscovery_def empty_cluster_env_def Let_def)

end
