(* ===== verification/Vram_Scorer.thy ===== *)
theory Vram_Scorer
  imports Scheduling Vram_Tracker
begin

section \<open>The VRAM scorer\<close>

text \<open>
  \<open>internal/plugins/scorer/vram.go\<close>: a pod's score grows with the free memory of its node. The
  score is \<open>float64\<close> arithmetic, kept bit by bit; the threshold is multiplied in \<open>int64\<close>. The
  client's listing of a namespace is an argument, like the order of the loop over namespaces.
  Framework pods are map keys by identity; two pods with the same information have the same score,
  so the map from pods to scores is a function of what \<open>sched_pod\<close> holds.
\<close>

record vram_scorer =
  vsTypedName :: typed_name
  vsTracker :: vram_tracker
  vsThresholdGB :: int64

datatype scorer_error = ScorerDepsNotSet | ScorerParams string

definition VRAMScorerType :: string where "VRAMScorerType = ''vram-scorer''"
definition DefaultVRAMThresholdGB :: int64 where "DefaultVRAMThresholdGB = 4"
definition minScore :: float64 where "minScore = f64_const (1 / 10)"
definition maxScoreRange :: float64 where "maxScoreRange = f64_const (9 / 10)"
definition defaultScore :: float64 where "defaultScore = f64_const (1 / 2)"

definition NewVRAMScorer :: "vram_tracker \<Rightarrow> int64 \<Rightarrow> vram_scorer" where
  "NewVRAMScorer t thresholdGB =
     \<lparr>vsTypedName = \<lparr>PluginType = VRAMScorerType, PluginName = []\<rparr>, vsTracker = t,
      vsThresholdGB = (if sint thresholdGB \<le> 0 then DefaultVRAMThresholdGB else thresholdGB)\<rparr>"

definition scorer_WithName :: "string \<Rightarrow> vram_scorer \<Rightarrow> vram_scorer" where
  "scorer_WithName name s = s\<lparr>vsTypedName := (vsTypedName s)\<lparr>PluginName := name\<rparr>\<rparr>"

definition scorer_TypedName :: "vram_scorer \<Rightarrow> typed_name" where
  "scorer_TypedName s = vsTypedName s"

text \<open>\<open>unmarshal\<close> is \<open>json.Unmarshal\<close> of the parameters over the default threshold; nil has none.\<close>

definition VRAMScorerFactory ::
  "(string \<Rightarrow> int64 \<Rightarrow> string + int64) \<Rightarrow> vram_tracker option \<Rightarrow> string \<Rightarrow> string option \<Rightarrow>
   scorer_error + vram_scorer" where
  "VRAMScorerFactory unmarshal scorerDeps name rawParameters =
     (case scorerDeps of
        None \<Rightarrow> Inl ScorerDepsNotSet
      | Some t \<Rightarrow>
          (case (case rawParameters of None \<Rightarrow> Inr DefaultVRAMThresholdGB
                 | Some raw \<Rightarrow> unmarshal raw DefaultVRAMThresholdGB) of
             Inl e \<Rightarrow> Inl (ScorerParams e)
           | Inr gb \<Rightarrow> Inr (scorer_WithName name (NewVRAMScorer t gb))))"

subsection \<open>Pods and nodes\<close>

fun add_pod_nodes :: "pod list \<Rightarrow> (string \<rightharpoonup> string) \<Rightarrow> (string \<rightharpoonup> string)" where
  "add_pod_nodes [] m = m"
| "add_pod_nodes (p # ps) m =
     add_pod_nodes ps (m((PodNamespace p @ ''/'' @ PodName p) \<mapsto> NodeName p))"

fun map_namespaces :: "pod lister \<Rightarrow> string list \<Rightarrow> (string \<rightharpoonup> string) \<Rightarrow> (string \<rightharpoonup> string)" where
  "map_namespaces client [] m = m"
| "map_namespaces client (ns # nss) m =
     (case client \<lparr>inNamespace = Some ns, matchingLabels = Map.empty, fieldNodeName = None\<rparr> of
        Inl e \<Rightarrow> map_namespaces client nss m
      | Inr ps \<Rightarrow> map_namespaces client nss (add_pod_nodes ps m))"

fun pod_namespaces :: "sched_pod list \<Rightarrow> string set" where
  "pod_namespaces [] = {}"
| "pod_namespaces (p # ps) =
     (case GetPod p of None \<Rightarrow> pod_namespaces ps
      | Some info \<Rightarrow> insert (NnNamespace (NamespacedName info)) (pod_namespaces ps))"

definition buildPodToNodeMap ::
  "pod lister \<Rightarrow> (string set \<Rightarrow> string list) \<Rightarrow> sched_pod list \<Rightarrow> (string \<rightharpoonup> string)" where
  "buildPodToNodeMap client ord pods = map_namespaces client (ord (pod_namespaces pods)) Map.empty"

subsection \<open>Scores\<close>

fun max_available :: "(string \<rightharpoonup> metrics) \<Rightarrow> string list \<Rightarrow> int64 \<Rightarrow> int64" where
  "max_available ms [] best = best"
| "max_available ms (n # ns) best =
     (case ms n of
        None \<Rightarrow> max_available ms ns best
      | Some m \<Rightarrow>
          if i64_less best (AvailableVRAM m) then max_available ms ns (AvailableVRAM m)
          else max_available ms ns best)"

definition normalized_score :: "int64 \<Rightarrow> int64 \<Rightarrow> float64" where
  "normalized_score avail maxAvailable =
     f64_add minScore (f64_div (f64_mul maxScoreRange (f64_of_int avail)) (f64_of_int maxAvailable))"

definition vram_score :: "int64 \<Rightarrow> int64 \<Rightarrow> int64 \<Rightarrow> float64" where
  "vram_score thresholdBytes maxAvailable avail =
     (if i64_less avail thresholdBytes then minScore
      else if i64_less 0 maxAvailable then normalized_score avail maxAvailable
      else defaultScore)"

definition score_pod ::
  "vram_scorer \<Rightarrow> (string \<rightharpoonup> string) \<Rightarrow> (string \<rightharpoonup> metrics) \<Rightarrow> int64 \<Rightarrow> sched_pod \<Rightarrow> float64" where
  "score_pod s podToNode nodeVRAM maxAvailable pod =
     (case GetPod pod of
        None \<Rightarrow> Fin 0
      | Some info \<Rightarrow>
          (case podToNode (NnNamespace (NamespacedName info) @ ''/'' @ NnName (NamespacedName info)) of
             None \<Rightarrow> Fin 0
           | Some nodeName \<Rightarrow>
               (case nodeVRAM nodeName of
                  None \<Rightarrow> Fin 0
                | Some m \<Rightarrow> vram_score (vsThresholdGB s * BytesPerGB) maxAvailable (AvailableVRAM m))))"

record score_orders =
  ordNamespaces :: "string set \<Rightarrow> string list"
  ordNodes :: "string set \<Rightarrow> string list"

definition Score ::
  "pod lister \<Rightarrow> score_orders \<Rightarrow> vram_scorer \<Rightarrow> sched_pod list \<Rightarrow> (sched_pod \<rightharpoonup> float64)" where
  "Score client ord s pods =
     (let podToNode = buildPodToNodeMap client (ordNamespaces ord) pods;
          nodeVRAM = vram_GetMetrics (vsTracker s);
          maxAvailable = max_available nodeVRAM (ordNodes ord (dom nodeVRAM)) 0
      in fold (\<lambda>pod scores. scores(pod \<mapsto> score_pod s podToNode nodeVRAM maxAvailable pod)) pods Map.empty)"

subsection \<open>Rounding in the score\<close>

lemma round_rat_quotient:
  assumes "pow2 (e + 52) \<le> x" and "x < pow2 (e + 53)" and "- 1074 \<le> e" and "0 < b"
    and "x / pow2 e = of_int a / of_int b"
  shows "round_rat x = of_int (let f = a div b; r = a - f * b
      in if 2 * r < b then f else if b < 2 * r then f + 1 else if even f then f else f + 1) * pow2 e"
proof -
  have "0 < x" using assms(1) pow2_pos [of "e + 52"] by linarith
  then have "round_rat x = of_int (round_even (x / pow2 e)) * pow2 e"
    using round_pos_eqI [OF assms(1-3)] by (simp add: round_rat_def)
  then show ?thesis unfolding assms(5) round_even_quotient [OF assms(4)] .
qed

lemma round_rat_consts:
  "round_rat (1 / 10) = 3602879701896397 / 36028797018963968"
  "round_rat (9 / 10) = 8106479329266893 / 9007199254740992"
  "round_rat (1 / 2) = 1 / 2" "round_rat 0 = 0" "round_rat 1 = 1"
  "round_rat (3602879701896397 / 36028797018963968) = 3602879701896397 / 36028797018963968"
  "round_rat (4053239664633447 / 4503599627370496) = 4053239664633447 / 4503599627370496"
  "round_rat (36028797018963973 / 36028797018963968) = 4503599627370497 / 4503599627370496"
  "round_rat 9223372036854775808 = 9223372036854775808"
  subgoal by (subst round_rat_quotient [where e = "- 56" and a = "2 ^ 56" and b = 10])
      (simp_all add: pow2_def Let_def)
  subgoal by (subst round_rat_quotient [where e = "- 53" and a = "9 * 2 ^ 53" and b = 10])
      (simp_all add: pow2_def Let_def)
  subgoal by (subst round_rat_quotient [where e = "- 53" and a = "2 ^ 52" and b = 1])
      (simp_all add: pow2_def Let_def)
  subgoal by (simp add: round_rat_def)
  subgoal by (subst round_rat_quotient [where e = "- 52" and a = "2 ^ 52" and b = 1])
      (simp_all add: pow2_def Let_def)
  subgoal by (subst round_rat_quotient [where e = "- 56" and a = "7205759403792794" and b = 1])
      (simp_all add: pow2_def Let_def)
  subgoal by (subst round_rat_quotient [where e = "- 53" and a = "8106479329266894" and b = 1])
      (simp_all add: pow2_def Let_def)
  subgoal by (subst round_rat_quotient [where e = "- 52" and a = "36028797018963973" and b = 8])
      (simp_all add: pow2_def Let_def)
  subgoal by (subst round_rat_quotient [where e = "11" and a = "2 ^ 52" and b = 1])
      (simp_all add: pow2_def Let_def)
  done

lemma round_rat_nonneg: "0 \<le> x \<Longrightarrow> 0 \<le> round_rat x"
  using round_rat_mono [of 0 x] by (simp add: round_rat_consts)

lemma round64_Fin: "0 \<le> x \<Longrightarrow> x \<le> 2 ^ 63 \<Longrightarrow> round64 x = Fin (round_rat x)"
proof -
  assume "0 \<le> x" "x \<le> 2 ^ 63"
  then have "0 \<le> round_rat x" "round_rat x \<le> 2 ^ 63"
    using round_rat_nonneg round_rat_mono [of x "2 ^ 63"] by (simp_all add: round_rat_consts)
  moreover have "(2 :: rat) ^ 63 < pow2 1024" "- pow2 1024 < (0 :: rat)" by (simp_all add: pow2_def)
  ultimately have "\<not> pow2 1024 \<le> round_rat x" "\<not> round_rat x \<le> - pow2 1024" by linarith+
  then show ?thesis by (simp add: round64_def Let_def)
qed

text \<open>The relative error of a rounding above the subnormal range.\<close>

lemma round_rat_relative:
  assumes "1 / 2 \<le> x"
  shows "round_rat x \<le> x * (1 + 1 / 2 ^ 53)"
proof -
  have pos: "0 < x" using assms by linarith
  have "pow2 (- 1) \<le> x" using assms by (simp add: pow2_def)
  then have "pow2 (- 1) < pow2 (log2_floor x + 1)" using log2_floor_bounds [OF pos] by linarith
  then have "- 1 \<le> log2_floor x" by (simp add: pow2_less_iff)
  then have "ulp_exp x = log2_floor x + (- 52)" by (simp add: ulp_exp_def)
  then have "pow2 (ulp_exp x) / 2 = pow2 (log2_floor x) * (1 / 2 ^ 53)"
    by (simp only: pow2_add) (simp add: pow2_def [of "- 52"])
  also have "\<dots> \<le> x * (1 / 2 ^ 53)"
    using log2_floor_bounds [OF pos] by (intro mult_right_mono) simp_all
  finally have "round_pos x - x \<le> x * (1 / 2 ^ 53)" using round_pos_error [of x] by linarith
  then show ?thesis using pos by (simp add: round_rat_def algebra_simps)
qed

text \<open>The score as a rational, each operation rounded.\<close>

definition score_rat :: "int \<Rightarrow> int \<Rightarrow> rat" where
  "score_rat a m =
     round_rat (round_rat (1 / 10) +
       round_rat (round_rat (round_rat (9 / 10) * round_rat (of_int a)) / round_rat (of_int m)))"

lemma rounded_int:
  assumes "1 \<le> i" and "i < 2 ^ 63"
  shows "1 \<le> round_rat (of_int i)" and "round_rat (of_int i) \<le> 2 ^ 63"
  using round_rat_mono [of 1 "of_int i"] round_rat_mono [of "of_int i" "2 ^ 63"] assms
  by (simp_all add: round_rat_consts)

lemma round64_sint:
  assumes "0 \<le> sint (w :: int64)"
  shows "round64 (of_int (sint w)) = Fin (round_rat (of_int (sint w)))"
proof (rule round64_Fin)
  have "(of_int (sint w) :: rat) \<le> of_int (2 ^ 63)"
    using sint64_bounds(2) [of w] by (simp only: of_int_le_iff)
  then show "(of_int (sint w) :: rat) \<le> 2 ^ 63" by simp
  show "(0 :: rat) \<le> of_int (sint w)" using assms by (simp only: of_int_0_le_iff)
qed

lemma score_parts:
  assumes "0 \<le> a" and "a \<le> m" and "1 \<le> m" and "m < 2 ^ 63"
  defines "fa \<equiv> round_rat (of_int a)" and "fm \<equiv> round_rat (of_int m)" and "c \<equiv> round_rat (9 / 10)"
  defines "p \<equiv> round_rat (c * fa)"
  shows "0 \<le> fa" and "fa \<le> fm" and "1 \<le> fm" and "fm \<le> 2 ^ 63" and "0 \<le> p" and "p \<le> 2 ^ 63"
    and "0 \<le> round_rat (p / fm)" and "round_rat (p / fm) \<le> c + 1 / 2 ^ 53"
    and "p / fm \<le> 1" and "c * fa \<le> 2 ^ 63"
proof -
  have c: "c = 8106479329266893 / 9007199254740992" by (simp add: c_def round_rat_consts)
  show fa: "0 \<le> fa" unfolding fa_def using assms(1) by (intro round_rat_nonneg) simp
  show am: "fa \<le> fm" unfolding fa_def fm_def using assms(2) by (intro round_rat_mono) simp
  show fm: "1 \<le> fm" "fm \<le> 2 ^ 63" unfolding fm_def using rounded_int [OF assms(3,4)] by simp_all
  have "c * fa \<le> 1 * fm" using fa am c by (intro mult_mono) simp_all
  then show cfa: "c * fa \<le> 2 ^ 63" using fm by linarith
  have cfa0: "0 \<le> c * fa" using fa c by simp
  show p0: "0 \<le> p" unfolding p_def using cfa0 by (rule round_rat_nonneg)
  show "p \<le> 2 ^ 63" unfolding p_def using round_rat_mono [OF cfa] by (simp add: round_rat_consts)
  show "0 \<le> round_rat (p / fm)" using p0 fm by (intro round_rat_nonneg) simp
  have half: "1 / 2 \<le> c * fm"
  proof -
    have "0 \<le> c" "1 / 2 \<le> c" by (simp_all add: c)
    with mult_left_mono [OF fm(1), of c] show ?thesis by linarith
  qed
  have "p \<le> round_rat (c * fm)"
    unfolding p_def using am c by (intro round_rat_mono mult_left_mono) simp_all
  also have "\<dots> \<le> c * fm * (1 + 1 / 2 ^ 53)" by (rule round_rat_relative [OF half])
  finally have "p / fm \<le> c * (1 + 1 / 2 ^ 53)" using fm by (simp add: field_simps)
  moreover have "c * (1 + 1 / 2 ^ 53) \<le> c + 1 / 2 ^ 53" by (simp add: c)
  ultimately have q: "p / fm \<le> c + 1 / 2 ^ 53" by (rule order_trans)
  show "round_rat (p / fm) \<le> c + 1 / 2 ^ 53"
    using round_rat_mono [OF q] c by (simp add: round_rat_consts(7))
  have "c + 1 / 2 ^ 53 \<le> 1" by (simp add: c)
  with q show "p / fm \<le> 1" by (rule order_trans)
qed

lemma score_rat_bounds:
  assumes "0 \<le> a" and "a \<le> m" and "1 \<le> m" and "m < 2 ^ 63"
  shows "round_rat (1 / 10) \<le> score_rat a m" and "score_rat a m \<le> 1 + 1 / 2 ^ 52"
proof -
  note s = score_parts(7,8) [OF assms]
  show "round_rat (1 / 10) \<le> score_rat a m"
    using round_rat_mono [of "round_rat (1 / 10)" "round_rat (1 / 10) + round_rat (round_rat (round_rat (9 / 10) *
      round_rat (of_int a)) / round_rat (of_int m))"] s(1)
    by (simp add: score_rat_def round_rat_consts)
  have "score_rat a m \<le> round_rat (round_rat (1 / 10) + (round_rat (9 / 10) + 1 / 2 ^ 53))"
    unfolding score_rat_def using s(2) by (intro round_rat_mono add_left_mono)
  then show "score_rat a m \<le> 1 + 1 / 2 ^ 52" by (simp add: round_rat_consts)
qed

lemma score_rat_mono:
  assumes "0 \<le> a" and "a \<le> b" and "1 \<le> m" and "m < 2 ^ 63"
  shows "score_rat a m \<le> score_rat b m"
proof -
  have "(0 :: rat) \<le> round_rat (of_int m)" using rounded_int [OF assms(3,4)] by linarith
  moreover have "(0 :: rat) \<le> round_rat (9 / 10)" by (simp add: round_rat_consts)
  ultimately show ?thesis
    unfolding score_rat_def using assms(2)
    by (intro round_rat_mono add_left_mono divide_right_mono mult_left_mono) simp_all
qed

lemma normalized_score_eq:
  assumes "0 \<le> sint a" and "sint a \<le> sint m" and "1 \<le> sint m"
  shows "normalized_score a m = Fin (score_rat (sint a) (sint m))"
proof -
  have m: "sint m < 2 ^ 63" by (rule sint64_bounds)
  note p = score_parts [OF assms m]
  let ?fa = "round_rat (of_int (sint a))" and ?fm = "round_rat (of_int (sint m))"
  have n1: "f64_of_int a = Fin ?fa" "f64_of_int m = Fin ?fm"
    using assms by (simp_all only: f64_of_int_def round64_sint)
  have n2: "maxScoreRange = Fin (round_rat (9 / 10))" "minScore = Fin (round_rat (1 / 10))"
    by (simp_all add: maxScoreRange_def minScore_def f64_const_def round64_Fin)
  have n3: "round64 (round_rat (9 / 10) * ?fa) = Fin (round_rat (round_rat (9 / 10) * ?fa))"
    using p(1,10) by (intro round64_Fin) (simp_all add: round_rat_consts)
  have n4: "?fm \<noteq> 0" using p(3) by linarith
  have n5: "round64 (round_rat (round_rat (9 / 10) * ?fa) / ?fm) =
      Fin (round_rat (round_rat (round_rat (9 / 10) * ?fa) / ?fm))"
    by (rule round64_Fin [OF divide_nonneg_nonneg order_trans [OF p(9)]]) (use p(3,5) in simp_all)
  have n6: "round64 (round_rat (1 / 10) + round_rat (round_rat (round_rat (9 / 10) * ?fa) / ?fm)) =
      Fin (score_rat (sint a) (sint m))"
    unfolding score_rat_def using p(7,8) by (intro round64_Fin) (simp_all add: round_rat_consts)
  show ?thesis
    by (simp only: normalized_score_def n1 n2 n3 n4 n5 n6 f64_mul.simps f64_div.simps f64_add.simps if_False)
qed

subsection \<open>The maps behind the scores\<close>

lemma max_available_most:
  "sint best \<le> sint (max_available ms ns best) \<and>
   (\<forall>n \<in> set ns. \<forall>m. ms n = Some m \<longrightarrow> sint (AvailableVRAM m) \<le> sint (max_available ms ns best))"
proof (induction ns arbitrary: best)
  case (Cons n ns)
  show ?case
  proof (cases "ms n")
    case None
    then show ?thesis using Cons by simp
  next
    case (Some m)
    show ?thesis
      using Some Cons.IH [of best] Cons.IH [of "AvailableVRAM m"] by auto
  qed
qed simp

definition pod_key :: "pod \<Rightarrow> string" where
  "pod_key p = PodNamespace p @ ''/'' @ PodName p"

definition info_key :: "pod_info \<Rightarrow> string" where
  "info_key info = NnNamespace (NamespacedName info) @ ''/'' @ NnName (NamespacedName info)"

text \<open>The map holds the node of a listed pod; a key no listed pod has keeps its value.\<close>

lemma add_pod_nodes_apply:
  "add_pod_nodes ps m k = (if k \<in> pod_key ` set ps
     then Some (NodeName (last (filter (\<lambda>p. pod_key p = k) ps))) else m k)"
proof (induction ps arbitrary: m)
  case (Cons p ps)
  have "filter (\<lambda>p. pod_key p = k) ps \<noteq> [] \<longleftrightarrow> k \<in> pod_key ` set ps" by (auto simp: filter_empty_conv)
  then show ?case using Cons by (auto simp: pod_key_def)
qed simp

lemma map_namespaces_sound:
  assumes "\<forall>opts ps. client opts = Inr ps \<longrightarrow> set ps \<subseteq> C" and "map_namespaces client nss m k = Some n"
  shows "m k = Some n \<or> (\<exists>p \<in> C. pod_key p = k \<and> NodeName p = n)"
  using assms(2)
proof (induction nss arbitrary: m)
  case (Cons ns nss)
  show ?case
  proof (cases "client \<lparr>inNamespace = Some ns, matchingLabels = Map.empty, fieldNodeName = None\<rparr>")
    case (Inl e)
    then show ?thesis using Cons by simp
  next
    case (Inr ps)
    then have "add_pod_nodes ps m k = Some n \<or> (\<exists>p \<in> C. pod_key p = k \<and> NodeName p = n)"
      using Cons by simp
    moreover have "\<exists>p \<in> C. pod_key p = k \<and> NodeName p = n"
      if "k \<in> pod_key ` set ps" "add_pod_nodes ps m k = Some n"
    proof -
      let ?l = "filter (\<lambda>p. pod_key p = k) ps"
      have "?l \<noteq> []" using that(1) by (auto simp: filter_empty_conv)
      then have "last ?l \<in> set ?l" by (rule last_in_set)
      then show ?thesis using that assms(1) Inr by (auto simp: add_pod_nodes_apply intro!: bexI [of _ "last ?l"])
    qed
    ultimately show ?thesis by (auto simp: add_pod_nodes_apply split: if_splits)
  qed
qed simp

lemma map_namespaces_keeps:
  assumes "\<forall>opts ps. client opts = Inr ps \<longrightarrow> set ps \<subseteq> C"
    and "\<forall>q \<in> C. pod_key q = k \<longrightarrow> NodeName q = n" and "m k = Some n"
  shows "map_namespaces client nss m k = Some n"
  using assms(3)
proof (induction nss arbitrary: m)
  case (Cons ns nss)
  show ?case
  proof (cases "client \<lparr>inNamespace = Some ns, matchingLabels = Map.empty, fieldNodeName = None\<rparr>")
    case (Inr ps)
    have "add_pod_nodes ps m k = Some n"
    proof (cases "k \<in> pod_key ` set ps")
      case True
      let ?l = "filter (\<lambda>p. pod_key p = k) ps"
      have "?l \<noteq> []" using True by (auto simp: filter_empty_conv)
      then have "last ?l \<in> set ?l" by (rule last_in_set)
      then have "NodeName (last ?l) = n" using assms(1,2) Inr by auto
      then show ?thesis using True by (simp add: add_pod_nodes_apply)
    qed (simp add: add_pod_nodes_apply Cons.prems)
    then show ?thesis using Inr Cons.IH by simp
  qed (use Cons in simp)
qed simp

lemma map_namespaces_complete:
  assumes "\<forall>opts. client opts = Inr (filter (pod_matches opts) cluster)"
    and "p \<in> set cluster" and "PodNamespace p \<in> set nss"
    and "\<forall>q \<in> set cluster. pod_key q = pod_key p \<longrightarrow> NodeName q = NodeName p"
  shows "map_namespaces client nss m (pod_key p) = Some (NodeName p)"
  using assms(3)
proof (induction nss arbitrary: m)
  case (Cons ns nss)
  let ?opts = "\<lparr>inNamespace = Some ns, matchingLabels = Map.empty, fieldNodeName = None\<rparr>"
  let ?ps = "filter (pod_matches ?opts) cluster"
  show ?case
  proof (cases "PodNamespace p = ns")
    case True
    then have mem: "p \<in> set ?ps" using assms(2) by (simp add: pod_matches_def in_namespace_def labels_match_def)
    let ?l = "filter (\<lambda>q. pod_key q = pod_key p) ?ps"
    have "?l \<noteq> []" using mem by (auto simp: filter_empty_conv)
    then have "last ?l \<in> set ?l" by (rule last_in_set)
    then have "NodeName (last ?l) = NodeName p" using assms(4) by auto
    then have "add_pod_nodes ?ps m (pod_key p) = Some (NodeName p)"
      using mem by (auto simp: add_pod_nodes_apply)
    then have "map_namespaces client nss (add_pod_nodes ?ps m) (pod_key p) = Some (NodeName p)"
      using assms(1,4) by (intro map_namespaces_keeps [of client "set cluster"]) auto
    moreover have "client ?opts = Inr ?ps" using assms(1) by blast
    ultimately show ?thesis by simp
  next
    case False
    then have "PodNamespace p \<in> set nss" using Cons.prems by simp
    moreover have "client ?opts = Inr ?ps" using assms(1) by blast
    ultimately show ?thesis using Cons.IH by simp
  qed
qed simp

lemma pod_namespaces_iff:
  "ns \<in> pod_namespaces pods \<longleftrightarrow> (\<exists>p \<in> set pods. \<exists>info. GetPod p = Some info \<and> NnNamespace (NamespacedName info) = ns)"
  by (induction pods) (auto split: option.splits)

lemma finite_pod_namespaces: "finite (pod_namespaces pods)"
  by (induction pods) (auto split: option.splits)

lemma fold_scores:
  "fold (\<lambda>pod scores. scores(pod \<mapsto> f pod)) pods m p = (if p \<in> set pods then Some (f p) else m p)"
  by (induction pods arbitrary: m) auto

lemma Score_apply:
  "pod \<in> set pods \<Longrightarrow> Score client ord s pods pod =
    Some (score_pod s (buildPodToNodeMap client (ordNamespaces ord) pods) (vtMetrics (vsTracker s))
      (max_available (vtMetrics (vsTracker s)) (ordNodes ord (dom (vtMetrics (vsTracker s)))) 0) pod)"
  by (simp add: Score_def fold_scores Let_def)

lemma max_available_dom:
  assumes "range_order ord" and "finite (dom ms)" and "ms n = Some m"
  shows "sint (AvailableVRAM m) \<le> sint (max_available ms (ord (dom ms)) 0)"
    and "0 \<le> sint (max_available ms (ord (dom ms)) 0)"
  using max_available_most [of 0 ms "ord (dom ms)"] range_orderD(2) [OF assms(1,2)] assms(3) by auto

lemma minScore_eq: "minScore = Fin (round_rat (1 / 10))"
  by (simp add: minScore_def f64_const_def round64_Fin)

lemma defaultScore_eq: "defaultScore = Fin (1 / 2)"
  by (simp add: defaultScore_def f64_const_def round64_Fin round_rat_consts)

lemma vram_score_cases:
  assumes "0 \<le> sint a" and "sint a \<le> sint mx"
  shows "vram_score th mx a =
    (if i64_less a th then Fin (round_rat (1 / 10))
     else if sint mx = 0 then Fin (1 / 2) else Fin (score_rat (sint a) (sint mx)))"
  using assms by (auto simp: vram_score_def minScore_eq defaultScore_eq normalized_score_eq)

definition score_interval :: "rat \<Rightarrow> bool" where
  "score_interval x \<longleftrightarrow> round_rat (1 / 10) \<le> x \<and> x \<le> 1 + 1 / 2 ^ 52"

lemma score_interval_consts: "score_interval (round_rat (1 / 10))" "score_interval (1 / 2)"
  by (simp_all add: score_interval_def round_rat_consts)

lemma vram_score_interval:
  assumes "0 \<le> sint a" and "sint a \<le> sint mx"
  shows "\<exists>x. vram_score th mx a = Fin x \<and> score_interval x"
proof -
  have "score_interval (score_rat (sint a) (sint mx))" if "sint mx \<noteq> 0"
    using score_rat_bounds [OF assms _ sint64_bounds(2)] that assms by (simp add: score_interval_def)
  then show ?thesis
    using score_interval_consts unfolding vram_score_cases [OF assms] by (cases "sint mx = 0") (auto intro: exI [of _ "1 / 2"])
qed

subsection \<open>Properties of the scorer\<close>

text \<open>Every score is 0, or lies between the constant 0.1 and \<open>1 + 2 ^ -52\<close>, the least float64
  above 1: it is never NaN, infinite or negative.\<close>

theorem score_range:
  assumes "range_order (ordNodes ord)" and "vram_ok (vsTracker s)" and "pod \<in> set pods"
  shows "\<exists>x. Score client ord s pods pod = Some (Fin x) \<and> (x = 0 \<or> score_interval x)"
proof -
  let ?ms = "vtMetrics (vsTracker s)"
  have fin: "finite (dom ?ms)" using assms(2) by (simp add: vram_ok_def)
  have "\<exists>x. vram_score th (max_available ?ms (ordNodes ord (dom ?ms)) 0) (AvailableVRAM m) = Fin x \<and>
      score_interval x" if m: "?ms n = Some m" for n m th
    using assms(2) m max_available_dom [OF assms(1) fin m]
    by (intro vram_score_interval) (auto simp: vram_ok_def metrics_ok_def)
  then show ?thesis
    by (simp add: Score_apply [OF assms(3)] score_pod_def split: option.split) blast
qed

text \<open>C33: a score of a pod on a node with more free memory is never lower, whatever the threshold: of
  two pods on nodes with metrics, the one with more free memory does not get the lower score.\<close>

theorem score_monotone:
  assumes "0 \<le> sint a" and "sint a \<le> sint b" and "sint b \<le> sint mx"
  shows "\<not> f64_less (vram_score th mx b) (vram_score th mx a)"
proof (cases "sint mx = 0")
  case True
  then show ?thesis using assms by (auto simp: vram_score_cases round_rat_consts)
next
  case False
  then have mx: "1 \<le> sint mx" using assms by linarith
  have "score_rat (sint a) (sint mx) \<le> score_rat (sint b) (sint mx)"
    by (rule score_rat_mono [OF assms(1,2) mx sint64_bounds(2)])
  moreover have "round_rat (1 / 10) \<le> score_rat (sint b) (sint mx)"
    using score_rat_bounds(1) [OF _ assms(3) mx sint64_bounds(2)] assms by linarith
  ultimately show ?thesis using assms False by (simp add: vram_score_cases)
qed

theorem score_monotone_witness:
  "\<not> f64_less (vram_score (4 * BytesPerGB) (30 * BytesPerGB) (20 * BytesPerGB))
     (vram_score (4 * BytesPerGB) (30 * BytesPerGB) (3 * BytesPerGB))"
  by (rule score_monotone) (simp_all add: BytesPerGB_def)

text \<open>The documented upper bound of 1 is missed by one rounding: with 13 GiB free on the best node,
  its pods score \<open>1 + 2 ^ -52\<close>.\<close>

theorem score_exceeds_one:
  "vram_score (DefaultVRAMThresholdGB * BytesPerGB) (13 * BytesPerGB) (13 * BytesPerGB) =
    Fin (1 + 1 / 2 ^ 52)"
proof -
  have b: "sint (13 * BytesPerGB) = 13958643712" "sint (DefaultVRAMThresholdGB * BytesPerGB) = 4294967296"
    by (simp_all add: BytesPerGB_def DefaultVRAMThresholdGB_def)
  have fa: "round_rat 13958643712 = 13958643712"
    by (subst round_rat_quotient [where e = "- 19" and a = "13 * 2 ^ 49" and b = 1])
      (simp_all add: pow2_def Let_def)
  have p: "round_rat (105384231280469609 / 8388608) = 6586514455029351 / 524288"
    by (subst round_rat_quotient [where e = "- 19" and a = 105384231280469609 and b = 16])
      (simp_all add: pow2_def Let_def)
  have q: "round_rat (6586514455029351 / 7318349394477056) = 4053239664633447 / 4503599627370496"
    by (subst round_rat_quotient [where e = "- 53" and a = "6586514455029351 * 16" and b = 13])
      (simp_all add: pow2_def Let_def)
  have "score_rat 13958643712 13958643712 = 1 + 1 / 2 ^ 52"
    by (simp add: score_rat_def round_rat_consts fa p q)
  then show ?thesis using b by (simp add: vram_score_cases)
qed

text \<open>C32: the score follows the pod to its node by name. When the client answers from the cluster, pod
  names are unique in it and the framework's name of the candidate is that of a cluster pod, the score
  is that of the free memory of the pod's node, and 0 when the node has no metrics. When no cluster pod
  has the candidate's name, the score is 0 whatever the node.\<close>

theorem score_follows_name:
  assumes "\<forall>opts. client opts = Inr (filter (pod_matches opts) cluster)"
    and "range_order (ordNamespaces ord)" and "pod \<in> set pods" and "GetPod pod = Some info"
    and "\<forall>p \<in> set cluster. \<forall>q \<in> set cluster. pod_key p = pod_key q \<longrightarrow> p = q"
  shows "(\<forall>p \<in> set cluster. PodNamespace p = NnNamespace (NamespacedName info) \<and>
       PodName p = NnName (NamespacedName info) \<longrightarrow>
       Score client ord s pods pod = Some (case vtMetrics (vsTracker s) (NodeName p) of None \<Rightarrow> Fin 0
         | Some m \<Rightarrow> vram_score (vsThresholdGB s * BytesPerGB)
             (max_available (vtMetrics (vsTracker s)) (ordNodes ord (dom (vtMetrics (vsTracker s)))) 0)
             (AvailableVRAM m))) \<and>
    ((\<forall>p \<in> set cluster. pod_key p \<noteq> info_key info) \<longrightarrow> Score client ord s pods pod = Some (Fin 0))"
proof -
  let ?m = "buildPodToNodeMap client (ordNamespaces ord) pods"
  have nss: "set (ordNamespaces ord (pod_namespaces pods)) = pod_namespaces pods"
    using range_orderD(2) [OF assms(2) finite_pod_namespaces] .
  have known: "?m (info_key info) = Some (NodeName p)"
    if "p \<in> set cluster" "PodNamespace p = NnNamespace (NamespacedName info)"
      "PodName p = NnName (NamespacedName info)" for p
  proof -
    have k: "info_key info = pod_key p" using that by (simp add: info_key_def pod_key_def)
    have "PodNamespace p \<in> pod_namespaces pods"
      using assms(3,4) that(2) by (auto simp: pod_namespaces_iff)
    then show ?thesis
      unfolding buildPodToNodeMap_def k using assms(1,5) that(1) nss
      by (intro map_namespaces_complete) auto
  qed
  have unknown: "?m (info_key info) = None" if "\<forall>p \<in> set cluster. pod_key p \<noteq> info_key info"
  proof (rule ccontr)
    assume "?m (info_key info) \<noteq> None"
    then obtain n where n: "map_namespaces client (ordNamespaces ord (pod_namespaces pods)) Map.empty
        (info_key info) = Some n" by (auto simp: buildPodToNodeMap_def)
    have "\<forall>opts ps. client opts = Inr ps \<longrightarrow> set ps \<subseteq> set cluster" using assms(1) by auto
    from map_namespaces_sound [OF this n] that show False by auto
  qed
  have "Score client ord s pods pod = Some (case ?m (info_key info) of None \<Rightarrow> Fin 0
      | Some n \<Rightarrow> (case vtMetrics (vsTracker s) n of None \<Rightarrow> Fin 0
        | Some m \<Rightarrow> vram_score (vsThresholdGB s * BytesPerGB)
            (max_available (vtMetrics (vsTracker s)) (ordNodes ord (dom (vtMetrics (vsTracker s)))) 0)
            (AvailableVRAM m)))"
    using assms(4) by (simp add: Score_apply [OF assms(3)] score_pod_def info_key_def)
  with known unknown show ?thesis by simp
qed

subsection \<open>Witnesses\<close>

definition demo_scorer :: vram_scorer where
  "demo_scorer = NewVRAMScorer
     (SetMetrics ''gpu-1'' \<lparr>TotalVRAM = 16 * BytesPerGB, UsedVRAM = 3 * BytesPerGB,
        AvailableVRAM = 13 * BytesPerGB, LastUpdate = 1\<rparr> (NewTrackerWithDeps True [])) 0"

definition demo_candidate :: "string \<Rightarrow> sched_pod" where
  "demo_candidate name =
     \<lparr>GetPod = Some \<lparr>NamespacedName = \<lparr>NnNamespace = ''models'', NnName = name\<rparr>, Address = ''10.0.0.1''\<rparr>,
      GetMetrics = None\<rparr>"

definition demo_score_orders :: score_orders where
  "demo_score_orders = \<lparr>ordNamespaces = sorted_list_of_set, ordNodes = sorted_list_of_set\<rparr>"

lemma demo_scorer_ok: "vram_ok (vsTracker demo_scorer)"
  by (simp add: demo_scorer_def NewVRAMScorer_def vram_ok_def SetMetrics_def NewTrackerWithDeps_def
      metrics_ok_def BytesPerGB_def Let_def)

lemma demo_score_orders_range:
  "range_order (ordNamespaces demo_score_orders)" "range_order (ordNodes demo_score_orders)"
  by (simp_all add: demo_score_orders_def range_order_sorted)

theorem score_range_witness:
  "\<exists>x. Score (\<lambda>opts. Inl ''down'') demo_score_orders demo_scorer [demo_candidate ''llama-0'']
     (demo_candidate ''llama-0'') = Some (Fin x) \<and> (x = 0 \<or> score_interval x)"
  by (rule score_range [OF demo_score_orders_range(2) demo_scorer_ok]) simp

text \<open>
  The names the framework gives its endpoints end in \<open>-rank-<idx>\<close>, as the comments of the
  loaded-model filter say: no cluster pod has such a name, so the score is 0 on a node with 13 GiB free.
\<close>

theorem score_follows_name_witness:
  "Score (\<lambda>opts. Inr (filter (pod_matches opts) [demo_server])) demo_score_orders demo_scorer
     [demo_candidate ''llama-0-rank-0''] (demo_candidate ''llama-0-rank-0'') = Some (Fin 0)"
proof -
  have "\<forall>p \<in> set [demo_server]. pod_key p \<noteq> info_key
      \<lparr>NamespacedName = \<lparr>NnNamespace = ''models'', NnName = ''llama-0-rank-0''\<rparr>, Address = ''10.0.0.1''\<rparr>"
    by (simp add: pod_key_def info_key_def demo_server_def)
  then show ?thesis
    using score_follows_name [of "\<lambda>opts. Inr (filter (pod_matches opts) [demo_server])" "[demo_server]"
        demo_score_orders "demo_candidate ''llama-0-rank-0''" "[demo_candidate ''llama-0-rank-0'']"
        "\<lparr>NamespacedName = \<lparr>NnNamespace = ''models'', NnName = ''llama-0-rank-0''\<rparr>, Address = ''10.0.0.1''\<rparr>"
        demo_scorer] demo_score_orders_range
    by (simp add: demo_candidate_def)
qed

end
