(* ===== verification/Version_Info.thy ===== *)
theory Version_Info
  imports Prelude
begin

section \<open>Version information\<close>

text \<open>
  \<open>internal/version/version.go\<close>. What the linker and the Go toolchain recorded is outside the
  program and an argument: \<open>git\<close> is the version information of the release library,
  \<open>build\<close> the build settings in their order, or \<open>None\<close> when the binary has none.
\<close>

record git_info =
  GitVersion :: string
  GitCommit :: string
  InfoString :: string

type_synonym build_settings = "(string \<times> string) list"

definition ServiceName :: string where "ServiceName = ''rocm-llamacpp-envoy-ai-gateway-extproc''"
definition shortRevisionLength :: nat where "shortRevisionLength = 7"
definition develVersion :: string where "develVersion = ''devel''"

fun getRevisionFromSettings :: "build_settings \<Rightarrow> string" where
  "getRevisionFromSettings [] = []"
| "getRevisionFromSettings ((k, v) # ss) = (if k = ''vcs.revision'' then v else getRevisionFromSettings ss)"

fun isDirtyFromSettings :: "build_settings \<Rightarrow> bool" where
  "isDirtyFromSettings [] = False"
| "isDirtyFromSettings ((k, v) # ss) = (if k = ''vcs.modified'' then v = ''true'' else isDirtyFromSettings ss)"

definition getVersionFromBuildInfo :: "build_settings option \<Rightarrow> string" where
  "getVersionFromBuildInfo build =
     (case build of
        None \<Rightarrow> develVersion
      | Some ss \<Rightarrow>
          (let rev = getRevisionFromSettings ss
           in if rev = [] then develVersion
              else let rev' = (if shortRevisionLength < length rev then take shortRevisionLength rev else rev)
                   in if isDirtyFromSettings ss then rev' @ ''-dirty'' else rev'))"

definition GetVersion :: "git_info \<Rightarrow> build_settings option \<Rightarrow> string" where
  "GetVersion git build =
     (if GitVersion git \<noteq> [] \<and> GitVersion git \<noteq> develVersion then GitVersion git
      else getVersionFromBuildInfo build)"

text \<open>The loop of \<open>GetGitCommit\<close> returns inside, so a first empty revision is its result.\<close>

fun first_revision :: "build_settings \<Rightarrow> string option" where
  "first_revision [] = None"
| "first_revision ((k, v) # ss) = (if k = ''vcs.revision'' then Some v else first_revision ss)"

definition GetGitCommit :: "git_info \<Rightarrow> build_settings option \<Rightarrow> string" where
  "GetGitCommit git build =
     (if GitCommit git \<noteq> [] then GitCommit git
      else case (case build of None \<Rightarrow> None | Some ss \<Rightarrow> first_revision ss) of
        Some v \<Rightarrow> v
      | None \<Rightarrow> ''unknown'')"

definition IsDirty :: "build_settings option \<Rightarrow> bool" where
  "IsDirty build = (case build of None \<Rightarrow> False | Some ss \<Rightarrow> isDirtyFromSettings ss)"

definition GetFullVersionString :: "git_info \<Rightarrow> string" where
  "GetFullVersionString git = InfoString git"

subsection \<open>What the version string says\<close>

lemma first_revision_settings:
  "getRevisionFromSettings ss = (case first_revision ss of None \<Rightarrow> [] | Some v \<Rightarrow> v)"
  by (induction ss rule: getRevisionFromSettings.induct) auto

lemma build_version_nonempty: "getVersionFromBuildInfo build \<noteq> []"
  by (auto simp: getVersionFromBuildInfo_def develVersion_def shortRevisionLength_def Let_def split: option.split)

lemma GetVersion_nonempty: "GetVersion git build \<noteq> []"
  by (simp add: GetVersion_def build_version_nonempty)

text \<open>A version from build information is short: seven characters and the mark of a modified tree.\<close>

lemma build_version_short: "length (getVersionFromBuildInfo build) \<le> 13"
  by (auto simp: getVersionFromBuildInfo_def develVersion_def shortRevisionLength_def Let_def split: option.split)

text \<open>
  The version and the commit agree: without a linked version, the version of a build with a
  revision is a prefix of the commit, followed by the mark exactly when the tree was modified.
\<close>

lemma GetVersion_prefix_of_commit:
  assumes "GitVersion git = [] \<or> GitVersion git = develVersion" and "GitCommit git = []"
    and "first_revision ss = Some r" and "r \<noteq> []"
  shows "GetVersion git (Some ss) =
    take shortRevisionLength (GetGitCommit git (Some ss)) @ (if IsDirty (Some ss) then ''-dirty'' else [])"
  using assms
  by (auto simp: GetVersion_def getVersionFromBuildInfo_def GetGitCommit_def IsDirty_def first_revision_settings Let_def)

end
