(* ===== verification/Epp_Main.thy ===== *)
theory Epp_Main
  imports Loader_Correct Tracker_Correct Loaded_Filter Vram_Scorer Version_Info
begin

section \<open>The endpoint picker's process\<close>

text \<open>
  \<open>cmd/epp/main.go\<close> and \<open>internal/plugins/register.go\<close>: the configuration, the two trackers,
  the dependencies handed to the plugins, and their registration with the framework. Reading a
  configured value (the viper library) is an argument: a function from the defaults, the
  prefix of the environment variables and a key. The framework that runs the plugins is outside.
\<close>

subsection \<open>Configuration\<close>

datatype config_value = ConfString string | ConfMap labels | ConfDuration int | ConfInt int

record viper =
  vpDefaults :: "string \<rightharpoonup> config_value"
  vpEnvPrefix :: string
  vpKeyReplacer :: "(string \<times> string) list"
  vpAutomaticEnv :: bool

definition defaultExporterNamespace :: string where "defaultExporterNamespace = ''kube-system''"
definition defaultScrapeInterval :: int where "defaultScrapeInterval = 30000000000"
definition defaultModelPollInterval :: int where "defaultModelPollInterval = 10000000000"
definition defaultModelServerPort :: int where "defaultModelServerPort = 8080"
definition defaultModelQueryPath :: string where "defaultModelQueryPath = ''/models''"

definition initConfig :: viper where
  "initConfig =
     \<lparr>vpDefaults =
        [''namespace'' \<mapsto> ConfString ''llm'',
         ''exporter-namespace'' \<mapsto> ConfString defaultExporterNamespace,
         ''exporter-pod-selector'' \<mapsto> ConfMap [''app'' \<mapsto> ''amd-gpu-metrics-exporter-amdgpu-metrics-exporter''],
         ''node-selector'' \<mapsto> ConfMap [''kubernetes.io/gpu'' \<mapsto> ''true''],
         ''scrape-interval'' \<mapsto> ConfDuration defaultScrapeInterval,
         ''pod-selector'' \<mapsto> ConfMap [''app'' \<mapsto> ''llama-server''],
         ''model-poll-interval'' \<mapsto> ConfDuration defaultModelPollInterval,
         ''model-server-port'' \<mapsto> ConfInt defaultModelServerPort,
         ''model-query-path'' \<mapsto> ConfString defaultModelQueryPath],
      vpEnvPrefix = ''EXTPROC'', vpKeyReplacer = [(''-'', ''_'')], vpAutomaticEnv = True\<rparr>"

record viper_lib =
  getString :: "viper \<Rightarrow> string \<Rightarrow> string"
  getStringMapString :: "viper \<Rightarrow> string \<Rightarrow> labels"
  getDuration :: "viper \<Rightarrow> string \<Rightarrow> int"
  getInt :: "viper \<Rightarrow> string \<Rightarrow> int"

text \<open>A library with no environment variable set: every key has its default.\<close>

definition default_lib :: viper_lib where
  "default_lib =
     \<lparr>getString = (\<lambda>v k. case vpDefaults v k of Some (ConfString s) \<Rightarrow> s | _ \<Rightarrow> []),
      getStringMapString = (\<lambda>v k. case vpDefaults v k of Some (ConfMap m) \<Rightarrow> m | _ \<Rightarrow> Map.empty),
      getDuration = (\<lambda>v k. case vpDefaults v k of Some (ConfDuration d) \<Rightarrow> d | _ \<Rightarrow> 0),
      getInt = (\<lambda>v k. case vpDefaults v k of Some (ConfInt i) \<Rightarrow> i | _ \<Rightarrow> 0)\<rparr>"

subsection \<open>The client\<close>

datatype 'c kube_result = KubeFatal string string | KubeOk 'c

text \<open>\<open>klog.Fatalf\<close> ends the process.\<close>

definition mustGetKubeConfig :: "string \<Rightarrow> (string \<Rightarrow> string + 'c) \<Rightarrow> (string + 'c) \<Rightarrow> 'c kube_result" where
  "mustGetKubeConfig KUBECONFIG fromFlags inCluster =
     (if KUBECONFIG \<noteq> []
      then (case fromFlags KUBECONFIG of
              Inl e \<Rightarrow> KubeFatal ''Failed to build kubeconfig from flags'' e
            | Inr cfg \<Rightarrow> KubeOk cfg)
      else (case inCluster of
              Inl e \<Rightarrow> KubeFatal ''Failed to get in-cluster config'' e
            | Inr cfg \<Rightarrow> KubeOk cfg))"

definition mustCreateClient :: "string option \<Rightarrow> ('c \<Rightarrow> string + 'k) \<Rightarrow> 'c \<Rightarrow> 'k kube_result" where
  "mustCreateClient addToScheme newClient config =
     (case addToScheme of
        Some e \<Rightarrow> KubeFatal ''Failed to add clientgo scheme'' e
      | None \<Rightarrow>
          (case newClient config of
             Inl e \<Rightarrow> KubeFatal ''Failed to create Kubernetes client'' e
           | Inr k \<Rightarrow> KubeOk k))"

subsection \<open>The trackers\<close>

definition startModelTracker :: "viper_lib \<Rightarrow> viper \<Rightarrow> bool \<Rightarrow> tracker" where
  "startModelTracker lib v pressure =
     NewTracker
       \<lparr>oNamespace = getString lib v ''namespace'',
        oPodSelector = getStringMapString lib v ''pod-selector'',
        oPodPort = getInt lib v ''model-server-port'',
        oQueryPath = getString lib v ''model-query-path'',
        oUnloadPath = [],
        oPollInterval = getDuration lib v ''model-poll-interval'',
        oPollTimeout = 0,
        oPressure = pressure,
        oDedupGracePolls = 0\<rparr>"

definition startVRAMTracker :: "viper_lib \<Rightarrow> viper \<Rightarrow> bool \<Rightarrow> vram_tracker" where
  "startVRAMTracker lib v hasClient =
     vram_NewTracker
       \<lparr>cfgClient = hasClient, cfgNamespace = getString lib v ''namespace'', cfgPodSelector = Map.empty,
        cfgNodeSelector = getStringMapString lib v ''node-selector'',
        cfgExporterNamespace = getString lib v ''exporter-namespace'',
        cfgExporterPodSelector = getStringMapString lib v ''exporter-pod-selector''\<rparr>
       (getDuration lib v ''scrape-interval'')"

subsection \<open>Plugins\<close>

datatype plugin_factory = FilterFactory | ScorerFactory | LoaderFactory

text \<open>The framework keeps the last factory registered for a type.\<close>

definition RegisterAllPlugins :: "(string \<rightharpoonup> plugin_factory) \<Rightarrow> (string \<rightharpoonup> plugin_factory)" where
  "RegisterAllPlugins reg =
     ((reg(LoadedModelFilterType \<mapsto> FilterFactory))(VRAMScorerType \<mapsto> ScorerFactory))(ModelLoaderType \<mapsto> LoaderFactory)"

text \<open>
  What \<open>main\<close> puts into the package variables of the plugins: the VRAM tracker for the scorer, the
  model tracker and the cache of load signals for the filter, the model tracker for the loader.
\<close>

record epp_deps =
  scorerDeps :: "vram_tracker option"
  loadedFilterDeps :: "filter_deps option"
  modelLoaderDeps :: "tracker option option"
  registry_of :: "string \<rightharpoonup> plugin_factory"

definition no_deps :: epp_deps where
  "no_deps = \<lparr>scorerDeps = None, loadedFilterDeps = None, modelLoaderDeps = None, registry_of = Map.empty\<rparr>"

definition SetVRAMScorerDeps :: "vram_tracker option \<Rightarrow> epp_deps \<Rightarrow> epp_deps" where
  "SetVRAMScorerDeps deps g = g\<lparr>scorerDeps := deps\<rparr>"

definition SetLoadedModelFilterDeps :: "filter_deps option \<Rightarrow> epp_deps \<Rightarrow> epp_deps" where
  "SetLoadedModelFilterDeps deps g = g\<lparr>loadedFilterDeps := deps\<rparr>"

definition SetModelLoaderDeps :: "tracker option option \<Rightarrow> epp_deps \<Rightarrow> epp_deps" where
  "SetModelLoaderDeps deps g = g\<lparr>modelLoaderDeps := deps\<rparr>"

datatype main_outcome =
  PrintedVersion string
| Fatal string string
| RunnerFailed string
| RunnerEnded

definition asks_version :: "string list \<Rightarrow> bool" where
  "asks_version args = list_ex (\<lambda>arg. arg = ''--version'' \<or> arg = ''-version'') (tl args)"

definition main_setup :: "viper_lib \<Rightarrow> (string \<rightharpoonup> plugin_factory) \<Rightarrow> epp_deps" where
  "main_setup lib reg =
     (let v = initConfig;
          vram = startVRAMTracker lib v True;
          loadCache = NewCache;
          mTracker = startModelTracker lib v True;
          g1 = SetVRAMScorerDeps (Some vram) (no_deps\<lparr>registry_of := reg\<rparr>);
          g2 = SetLoadedModelFilterDeps (Some \<lparr>depTracker = Some mTracker, depPodState = Some loadCache\<rparr>) g1;
          g3 = SetModelLoaderDeps (Some (Some mTracker)) g2
      in g3\<lparr>registry_of := RegisterAllPlugins (registry_of g3)\<rparr>)"

text \<open>\<open>runner\<close> is the run of the framework with these plugins, which ends with an error or without.\<close>

definition main ::
  "git_info \<Rightarrow> string list \<Rightarrow> viper_lib \<Rightarrow> (string \<rightharpoonup> plugin_factory) \<Rightarrow> 'k kube_result \<Rightarrow>
   (epp_deps \<Rightarrow> string option) \<Rightarrow> main_outcome" where
  "main git args lib reg client runner =
     (if asks_version args then PrintedVersion (GetFullVersionString git)
      else case client of
        KubeFatal msg e \<Rightarrow> Fatal msg e
      | KubeOk k \<Rightarrow>
          (case runner (main_setup lib reg) of Some e \<Rightarrow> RunnerFailed e | None \<Rightarrow> RunnerEnded))"

lemma main_setup_eq:
  "main_setup lib reg =
     \<lparr>scorerDeps = Some (startVRAMTracker lib initConfig True),
      loadedFilterDeps = Some \<lparr>depTracker = Some (startModelTracker lib initConfig True), depPodState = Some NewCache\<rparr>,
      modelLoaderDeps = Some (Some (startModelTracker lib initConfig True)),
      registry_of = RegisterAllPlugins reg\<rparr>"
  by (simp add: main_setup_def Let_def no_deps_def SetVRAMScorerDeps_def SetLoadedModelFilterDeps_def
      SetModelLoaderDeps_def)

text \<open>With the dependencies unset the factories of scorer and filter fail; with those of \<open>main\<close> they do not.\<close>

lemma factories_need_deps:
  "VRAMScorerFactory unmarshal (scorerDeps no_deps) name raw = Inl ScorerDepsNotSet"
  "LoadedModelFilterFactory (loadedFilterDeps no_deps) name = Inl FilterDepsNotSet"
  "\<exists>f. LoadedModelFilterFactory (loadedFilterDeps (main_setup lib reg)) name = Inr f \<and>
    filter_TypedName f = \<lparr>PluginType = LoadedModelFilterType, PluginName = name\<rparr>"
  by (simp_all add: no_deps_def main_setup_eq VRAMScorerFactory_def LoadedModelFilterFactory_def filter_TypedName_def
      filter_WithName_def WithPodState_def NewLoadedModelFilter_def)

lemma registered_plugins:
  "RegisterAllPlugins reg LoadedModelFilterType = Some FilterFactory"
  "RegisterAllPlugins reg VRAMScorerType = Some ScorerFactory"
  "RegisterAllPlugins reg ModelLoaderType = Some LoaderFactory"
  "k \<notin> {LoadedModelFilterType, VRAMScorerType, ModelLoaderType} \<Longrightarrow> RegisterAllPlugins reg k = reg k"
  by (simp_all add: RegisterAllPlugins_def LoadedModelFilterType_def VRAMScorerType_def ModelLoaderType_def)

text \<open>With the defaults the trackers watch what the documentation says.\<close>

lemma default_model_tracker:
  "namespace (startModelTracker default_lib initConfig True) = ''llm'' \<and>
   podSelector (startModelTracker default_lib initConfig True) = [''app'' \<mapsto> ''llama-server''] \<and>
   podPort (startModelTracker default_lib initConfig True) = 8080 \<and>
   hasPressure (startModelTracker default_lib initConfig True)"
  by (simp add: startModelTracker_def NewTracker_def default_lib_def initConfig_def or_default_def
      defaultModelServerPort_def)

text \<open>
  The tracker's namespace and selector for servers reach discovery, but its pod selector is empty
  and nothing in the process sets it: every pod of the namespace on a GPU node counts as a server.
\<close>

lemma default_vram_discovery:
  "vtK8s (startVRAMTracker default_lib initConfig True) = Some d \<Longrightarrow>
   dPodSelector d = Map.empty \<and> dNamespace d = ''llm'' \<and> dNodeSelector d = [''kubernetes.io/gpu'' \<mapsto> ''true'']"
  by (auto simp: startVRAMTracker_def vram_NewTracker_def NewKubernetesDiscovery_def default_lib_def initConfig_def)

end
