(* ===== verification/Epp_System.thy ===== *)
theory Epp_System
  imports Epp_Main
begin

section \<open>Filter, loader, tracker and dedup together\<close>

text \<open>
  The process as \<open>main\<close> wires it: one model tracker, shared by the filter, the loader and the
  poller; one cache of load signals, written by the filter and read by the dedup; the loader is
  the tracker's unload observer. An event is one scheduling decision, one request of the loader, or
  one poll; within a component \<open>Loader_Machine\<close> and \<open>Tracker_Correct\<close> treat finer interleavings.
\<close>

record epp =
  eTracker :: tracker
  eLoader :: loader
  eCache :: cache

text \<open>The plugins the framework makes from the dependencies of \<open>main\<close>.\<close>

definition new_epp ::
  "(string \<Rightarrow> loader_config \<Rightarrow> string + loader_config) \<Rightarrow> string \<Rightarrow> string \<Rightarrow> epp_deps \<Rightarrow> (string + epp)" where
  "new_epp unmarshal name rawParameters deps =
     (case ModelLoaderFactory unmarshal (modelLoaderDeps deps) name rawParameters of
        Inr (p, Some t) \<Rightarrow>
          (case loadedFilterDeps deps of
             Some fd \<Rightarrow> (case depPodState fd of
                 Some c \<Rightarrow> Inr \<lparr>eTracker = t, eLoader = p, eCache = c\<rparr>
               | None \<Rightarrow> Inl ''no cache'')
           | None \<Rightarrow> Inl ''no filter dependencies'')
      | Inr (p, None) \<Rightarrow> Inl ''no tracker''
      | Inl e \<Rightarrow> Inl e)"

definition epp_filter :: "gotime \<Rightarrow> llm_request option \<Rightarrow> sched_pod list \<Rightarrow> epp \<Rightarrow> sched_pod list \<times> epp" where
  "epp_filter now request pods s =
     (case filter_Filter now
        (WithPodState (Some (eCache s)) (NewLoadedModelFilter (Some (eTracker s)))) request pods of
        (out, f) \<Rightarrow> (out, s\<lparr>eCache := (case lfPodState f of Some c \<Rightarrow> c | None \<Rightarrow> eCache s)\<rparr>))"

definition epp_prerequest ::
  "(string \<Rightarrow> model_entry list option) \<Rightarrow> (nat \<Rightarrow> wait_outcome) \<Rightarrow> load_env \<Rightarrow>
   llm_request option \<Rightarrow> scheduling_result option \<Rightarrow> epp \<Rightarrow> epp option" where
  "epp_prerequest decode await env request result s =
     (case PreRequest decode await env request result (eLoader s, Some (eTracker s)) of
        Some (p, Some t) \<Rightarrow> Some (s\<lparr>eLoader := p, eTracker := t\<rparr>)
      | _ \<Rightarrow> None)"

text \<open>
  A poll with its pass over the duplicates. The tracker calls the observer during the pass, and the
  loader drops the pair from its cache; nothing in the pass reads that cache.
\<close>

definition notify_loader :: "(string \<times> string) list \<Rightarrow> loader \<Rightarrow> loader" where
  "notify_loader notes p = fold (\<lambda>(ip, m). InvalidateLoadedModel ip m) notes p"

definition epp_poll ::
  "dedup_orders \<Rightarrow> pod lister \<Rightarrow> transport \<Rightarrow> (string \<Rightarrow> model_entry list option) \<Rightarrow>
   (string \<Rightarrow> string \<Rightarrow> unload_error option) \<Rightarrow> epp \<Rightarrow> epp \<times> dedup_log" where
  "epp_poll ord client net decode unload s =
     (case pollOnce ord client (queryPod net decode (eTracker s)) (cache_Pressure (Some (eCache s))) unload (eTracker s) of
        (t, lg) \<Rightarrow> (s\<lparr>eTracker := t, eLoader := notify_loader (notified lg) (eLoader s)\<rparr>, lg))"

text \<open>
  The loop of \<open>Tracker.Start\<close>: a poll at once, then one at each tick until the context ends; \<open>None\<close>
  when the ticker panics.
\<close>

definition tracker_Start :: "('r \<Rightarrow> 's \<Rightarrow> 's) \<Rightarrow> int \<Rightarrow> 'r \<Rightarrow> 'r loop_event list \<Rightarrow> 's \<Rightarrow> ('s \<times> bool) option" where
  "tracker_Start poll interval first es s = ticker_loop interval poll es (poll first s)"

text \<open>
  The intervals of \<open>main\<close>. A scrape interval of 0, which is also what the library makes of a value it
  cannot read, ends the process; for the polls 0 is replaced by the default, and a negative one ends it.
\<close>

lemma startup_panics:
  "fst (vram_Start hw parse rd es (startVRAMTracker lib v True)) = None \<longleftrightarrow>
     getDuration lib v ''scrape-interval'' \<le> 0"
  "tracker_Start poll (pollInterval (startModelTracker lib v True)) first es s = None \<longleftrightarrow>
     getDuration lib v ''model-poll-interval'' < 0"
  using vram_new_panics [of hw parse rd es]
  by (auto simp: startVRAMTracker_def tracker_Start_def ticker_loop_def startModelTracker_def NewTracker_def
      or_default_def DefaultPollInterval_def second_def)

inductive epp_reach :: "epp \<Rightarrow> bool" where
  start: "new_epp unmarshal name raw (main_setup lib reg) = Inr s \<Longrightarrow> epp_reach s"
| filter: "epp_reach s \<Longrightarrow> epp_filter now request pods s = (out, s') \<Longrightarrow> epp_reach s'"
| prerequest: "epp_reach s \<Longrightarrow> epp_prerequest decode await env request result s = Some s' \<Longrightarrow> epp_reach s'"
| poll: "epp_reach s \<Longrightarrow> dedup_ranges ord \<Longrightarrow> epp_poll ord client net decode unload s = (s', lg) \<Longrightarrow> epp_reach s'"

subsection \<open>The invariant of the process\<close>

definition epp_ok :: "epp \<Rightarrow> bool" where
  "epp_ok s \<longleftrightarrow> wf_tracker (eTracker s) \<and> hasObserver (eTracker s) \<and> hasPressure (eTracker s)"

lemma new_epp_ok: "new_epp unmarshal name raw (main_setup lib reg) = Inr s \<Longrightarrow> epp_ok s"
  by (auto simp: new_epp_def ModelLoaderFactory_def main_setup_eq WithTracker_def epp_ok_def Let_def
      startModelTracker_def wf_tracker_ops SetUnloadObserver_def NewTracker_def wf_tracker_def
      split: sum.splits if_splits)

lemma mark_flags [simp]:
  "hasObserver (MarkLoaded p m t) = hasObserver t" "hasPressure (MarkLoaded p m t) = hasPressure t"
  "hasObserver (fst (MarkUnloaded p m t)) = hasObserver t" "hasPressure (fst (MarkUnloaded p m t)) = hasPressure t"
  by (auto simp: MarkLoaded_def MarkUnloaded_def link_set_def Let_def split: option.splits prod.splits)

text \<open>The loader touches the tracker by marks and retractions only.\<close>

definition world_ok :: "world \<Rightarrow> bool" where
  "world_ok w \<longleftrightarrow> (\<exists>t. snd w = Some t \<and> wf_tracker t \<and> hasObserver t \<and> hasPressure t)"

lemma world_ok_marks:
  "world_ok w \<Longrightarrow> world_ok (markTrackerLoaded ip m w)" "world_ok w \<Longrightarrow> world_ok (markTrackerUnloaded ip m w)"
proof -
  show "world_ok w \<Longrightarrow> world_ok (markTrackerLoaded ip m w)"
    by (auto simp: markTrackerLoaded_def world_ok_def wf_tracker_ops split: prod.splits option.splits)
  assume ok: "world_ok w"
  then obtain p t where w: "w = (p, Some t)" "wf_tracker t" "hasObserver t" "hasPressure t"
    by (cases w) (auto simp: world_ok_def)
  obtain t' n where mu: "MarkUnloaded ip m t = (t', n)" by fastforce
  have "wf_tracker t'" "hasObserver t'" "hasPressure t'"
    using wf_MarkUnloaded [OF w(2), of ip m] mark_flags(3,4) [of ip m t] w(3,4) by (simp_all add: mu)
  with w show "world_ok (markTrackerUnloaded ip m w)"
    by (auto simp: markTrackerUnloaded_def world_ok_def mu split: option.split)
qed

lemma world_ok_loader: "world_ok (p, t) \<Longrightarrow> world_ok (q, t)"
  by (simp add: world_ok_def)

lemma PreRequest_world_ok:
  assumes "world_ok w" and "PreRequest decode await env request result w = Some w'"
  shows "world_ok w'"
proof -
  obtain model ip key where v: "validateAndExtractPreRequestInfo request result = (model, ip, key)"
    by (metis prod_cases3)
  obtain b w1 where h: "handleAlreadyLoadedOrLoading await (loadKey ip model) model ip w = (b, w1)"
    by (metis surj_pair)
  have w1: "world_ok w1"
    using h assms(1)
    by (auto simp: handleAlreadyLoadedOrLoading_def world_ok_marks
        split: lookup.splits wait_outcome.splits option.splits)
  have marked: "world_ok (markTrackerLoaded ip model (q, snd w1))" for q
    using w1 by (intro world_ok_marks) (simp add: world_ok_def)
  have again: "world_ok (q, snd (markTrackerLoaded ip model w1))" for q
    using world_ok_marks(1) [OF w1, of ip model] by (simp add: world_ok_def)
  show ?thesis
    using assms w1 marked again world_ok_marks(2) [OF again]
    by (auto simp: PreRequest_def v h Let_def split: if_splits bool.splits option.splits prod.splits)
qed

lemma epp_prerequest_ok: "epp_ok s \<Longrightarrow> epp_prerequest decode await env request result s = Some s' \<Longrightarrow> epp_ok s'"
  using PreRequest_world_ok [of "(eLoader s, Some (eTracker s))" decode await env request result]
  by (auto simp: epp_prerequest_def epp_ok_def world_ok_def split: option.splits prod.splits)

lemma epp_filter_ok: "epp_ok s \<Longrightarrow> epp_filter now request pods s = (out, s') \<Longrightarrow> epp_ok s'"
  by (auto simp: epp_filter_def epp_ok_def split: prod.splits)

lemma poll_pod_flags:
  "hasObserver (fst (poll_pod query pod st)) = hasObserver (fst st) \<and>
   hasPressure (fst (poll_pod query pod st)) = hasPressure (fst st) \<and>
   dupObs (fst (poll_pod query pod st)) = dupObs (fst st) \<and>
   dedupGracePolls (fst (poll_pod query pod st)) = dedupGracePolls (fst st)"
  by (auto simp: poll_pod_def Let_def split: prod.split sum.split option.split)

lemma poll_update_flags [simp]:
  "hasObserver (poll_update query pods t) = hasObserver t" "hasPressure (poll_update query pods t) = hasPressure t"
  "dupObs (poll_update query pods t) = dupObs t" "dedupGracePolls (poll_update query pods t) = dedupGracePolls t"
proof -
  have "hasObserver (fst (fold (poll_pod query) pods st)) = hasObserver (fst st) \<and>
      hasPressure (fst (fold (poll_pod query) pods st)) = hasPressure (fst st) \<and>
      dupObs (fst (fold (poll_pod query) pods st)) = dupObs (fst st) \<and>
      dedupGracePolls (fst (fold (poll_pod query) pods st)) = dedupGracePolls (fst st)" for st
    by (induction pods arbitrary: st) (simp_all add: poll_pod_flags)
  from this [of "(t, Map.empty, Map.empty)"]
  show "hasObserver (poll_update query pods t) = hasObserver t" "hasPressure (poll_update query pods t) = hasPressure t"
    "dupObs (poll_update query pods t) = dupObs t" "dedupGracePolls (poll_update query pods t) = dedupGracePolls t"
    by (auto simp: poll_update_def poll_swap_def split: prod.split)
qed

lemma apply_choice_flags [simp]:
  "hasObserver (apply_choice c t) = hasObserver t" "hasPressure (apply_choice c t) = hasPressure t"
  by (auto simp: apply_choice_def forget_obs_def split: option.splits)

lemma resolveDuplicates_flags:
  assumes "wf_tracker t" and "dedup_ranges ord"
  shows "hasObserver (fst (resolveDuplicates ord pr unload t)) = hasObserver t"
    "hasPressure (fst (resolveDuplicates ord pr unload t)) = hasPressure t"
  by (auto simp: resolveDuplicates_eq [OF assms] unload_ripe_scan split: prod.split)

lemma epp_poll_ok:
  assumes "epp_ok s" and "dedup_ranges ord" and "epp_poll ord client net decode unload s = (s', lg)"
  shows "epp_ok s'"
proof -
  let ?q = "queryPod net decode (eTracker s)"
  have wf: "wf_tracker (poll_update ?q pods (eTracker s))" for pods
    using assms(1) poll_update_correct(1) [OF _ queryPod_finite] by (simp add: epp_ok_def)
  show ?thesis
    using assms(1,3) wf_resolveDuplicates [OF wf assms(2)] resolveDuplicates_flags [OF wf assms(2)]
    by (auto simp: epp_poll_def pollOnce_def epp_ok_def split: sum.splits prod.splits)
      (metis fst_conv poll_update_flags)+
qed

lemma epp_reach_ok: "epp_reach s \<Longrightarrow> epp_ok s"
  by (induction rule: epp_reach.induct) (blast intro: new_epp_ok epp_filter_ok epp_prerequest_ok epp_poll_ok)+

subsection \<open>A poll of the process\<close>

lemma dedup_scan_success:
  "(ip, m) \<in> set (fst (dedup_scan pr unload ips rs)) \<Longrightarrow> unload ip m = None \<Longrightarrow>
   \<exists>l. snd (dedup_scan pr unload ips rs) = Some (l, m) \<and> ips l = Some ip"
  by (induction rs) (auto simp: Let_def split: prod.splits option.splits if_splits)

lemma IsLoaded_holder: "wf_tracker t \<Longrightarrow> IsLoaded t p m \<longleftrightarrow> p \<in> holder_set t m"
  by (simp add: IsLoaded_view holder_set_def)

text \<open>The tracker in the middle of a poll, before the pass over the duplicates.\<close>

definition polled :: "transport \<Rightarrow> (string \<Rightarrow> model_entry list option) \<Rightarrow> pod list \<Rightarrow> tracker \<Rightarrow> tracker" where
  "polled net decode pods t = poll_update (queryPod net decode t) pods t"

lemma polled_facts:
  assumes "epp_ok s"
  shows "wf_tracker (polled net decode pods (eTracker s))"
    and "podIP (polled net decode pods (eTracker s)) p = Some ip \<Longrightarrow> ip = p"
    and "hasObserver (polled net decode pods (eTracker s))" "hasPressure (polled net decode pods (eTracker s))"
    and "firstPoll (polled net decode pods (eTracker s))"
  using assms poll_update_correct [of "eTracker s" "queryPod net decode (eTracker s)" pods, OF _ queryPod_finite]
  by (auto simp: polled_def epp_ok_def split: if_splits)

lemma polled_view:
  assumes "epp_ok s"
  shows "pod_set (polled net decode pods (eTracker s)) =
      view_poll (queryPod net decode (eTracker s)) (listed_ips pods) (pod_set (eTracker s))"
    and "podIP (polled net decode pods (eTracker s)) = (\<lambda>p. if p \<in> listed_ips pods then Some p else None)"
  using assms poll_update_correct(2,3) [of "eTracker s" "queryPod net decode (eTracker s)" pods, OF _ queryPod_finite]
  by (auto simp: polled_def epp_ok_def)

lemma epp_poll_cases:
  assumes "epp_ok s" and "dedup_ranges ord" and "epp_poll ord client net decode unload s = (s', lg)"
  obtains (not_listed) e where "listPods client (eTracker s) = Inl e" "s' = s" "lg = empty_log"
  | (listed) pods as c where "listPods client (eTracker s) = Inr pods"
      "dedup_scan (cache_Pressure (Some (eCache s))) unload (podIP (polled net decode pods (eTracker s)))
         (ripe_list (polled net decode pods (eTracker s))) = (as, c)"
      "eTracker s' = apply_choice c ((polled net decode pods (eTracker s))
         \<lparr>dupObs := next_obs (polled net decode pods (eTracker s))\<rparr>)"
      "attempts lg = as" "notified lg = (case c of None \<Rightarrow> [] | Some (l, m) \<Rightarrow> if m = [] then [] else [(l, m)])"
      "eLoader s' = notify_loader (notified lg) (eLoader s)" "eCache s' = eCache s"
proof (cases "listPods client (eTracker s)")
  case (Inl e)
  with assms(3) show thesis by (intro not_listed) (auto simp: epp_poll_def pollOnce_def notify_loader_def)
next
  case (Inr pods)
  let ?t = "polled net decode pods (eTracker s)"
  let ?pr = "cache_Pressure (Some (eCache s))"
  note t = polled_facts [OF assms(1), of net decode pods]
  obtain as c where scan: "dedup_scan ?pr unload (podIP ?t) (ripe_list ?t) = (as, c)" by fastforce
  have res: "resolveDuplicates ord ?pr unload ?t =
      (apply_choice c (?t\<lparr>dupObs := next_obs ?t\<rparr>), \<lparr>attempts = as, notified = choice_note c (?t\<lparr>dupObs := next_obs ?t\<rparr>)\<rparr>)"
    using resolveDuplicates_scan [OF t(1) assms(2) t(4,5)] scan by simp
  have note_eq: "choice_note c (?t\<lparr>dupObs := next_obs ?t\<rparr>) =
      (case c of None \<Rightarrow> [] | Some (l, m) \<Rightarrow> if m = [] then [] else [(l, m)])"
  proof (cases c)
    case (Some lm)
    obtain l m where lm: "lm = (l, m)" by fastforce
    have "snd (dedup_scan ?pr unload (podIP ?t) (ripe_list ?t)) = Some (l, m)" using scan Some lm by simp
    from choice_facts(2,3) [OF t(1) this] dedup_scan_choice [OF this] obtain ip where
      l: "l \<in> holder_set ?t m" "l \<noteq> []" "podIP ?t l = Some ip" "ip \<noteq> []" by blast
    then have "ip = l" "loaded ?t l \<noteq> None" using t(2) holder_set_subset [of ?t m] by auto
    with l t(3) show ?thesis by (auto simp: choice_note_def Some lm MarkUnloaded_def)
  qed (simp add: choice_note_def)
  show thesis
    by (rule listed [OF Inr scan])
      (use assms(3) Inr res note_eq in \<open>auto simp: epp_poll_def pollOnce_def polled_def\<close>)
qed

lemma InvalidateLoadedModel_facts [simp]:
  "loadingModels (InvalidateLoadedModel ip m p) = loadingModels p"
  "nextResult (InvalidateLoadedModel ip m p) = nextResult p"
  "loadedModels (InvalidateLoadedModel ip m p) k =
    (if ip \<noteq> [] \<and> m \<noteq> [] \<and> loadKey ip m = k then None else loadedModels p k)"
  by (simp_all add: InvalidateLoadedModel_def)

lemma notify_loader_facts:
  "loadingModels (notify_loader ns p) = loadingModels p" "nextResult (notify_loader ns p) = nextResult p"
  "loadedModels (notify_loader ns p) k =
    (if \<exists>(ip, m) \<in> set ns. ip \<noteq> [] \<and> m \<noteq> [] \<and> loadKey ip m = k then None else loadedModels p k)"
  by (induction ns arbitrary: p) (auto simp: notify_loader_def split: if_splits)

text \<open>C1: an unload by the dedup reaches the whole process. In every state that filter calls, requests and polls
  can reach one after the other, none of them overlapping another, when a poll asks a pod to unload a
  model, which has a name, and the pod agrees, then after the poll the filter no longer sees the model there, the loader has dropped it from its cache, so that the next request for it asks the
  server again, and some other pod is still known to have it.\<close>

theorem unload_reaches_loader:
  assumes "epp_reach s" and "dedup_ranges ord" and "epp_poll ord client net decode unload s = (s', lg)"
    and "(ip, m) \<in> set (attempts lg)" and "unload ip m = None" and "m \<noteq> []"
  shows "\<not> IsLoaded (eTracker s') ip m \<and> lookup_key (loadKey ip m) (eLoader s') \<noteq> Loaded \<and>
    (\<exists>q. q \<noteq> ip \<and> IsLoaded (eTracker s') q m)"
proof -
  have ok: "epp_ok s" using assms(1) by (rule epp_reach_ok)
  have wf': "wf_tracker (eTracker s')" using epp_poll_ok [OF ok assms(2,3)] by (simp add: epp_ok_def)
  from ok assms(2,3) show ?thesis
  proof (cases rule: epp_poll_cases)
    case (listed pods as c)
    let ?t = "polled net decode pods (eTracker s)"
    note t = polled_facts [OF ok, of net decode pods]
    have "(ip, m) \<in> set (fst (dedup_scan (cache_Pressure (Some (eCache s))) unload (podIP ?t) (ripe_list ?t)))"
      using assms(4) listed(2,4) by simp
    from dedup_scan_success [OF this assms(5)] listed(2) obtain l where
      c: "c = Some (l, m)" and l: "podIP ?t l = Some ip" by auto
    have lip: "l = ip" using t(2) l by auto
    note choice = choice_facts [OF t(1), of "cache_Pressure (Some (eCache s))" unload l m, unfolded listed(2) snd_conv c, OF refl]
    have H: "holder_set (eTracker s') m = holder_set ?t m - {ip}"
      using choice(3) assms(6) wf_dupObs [OF t(1) finite_dom_next_obs [OF t(1)]]
      by (simp add: listed(3) c holder_set_apply_choice lip)
    have "2 \<le> card (holder_set ?t m)" using choice(1) by (simp add: ripe_models_def duplicated_def)
    then have "\<not> holder_set ?t m \<subseteq> {ip}" using card_mono [of "{ip}" "holder_set ?t m"] by auto
    then obtain q where "q \<in> holder_set ?t m" "q \<noteq> ip" by blast
    then show ?thesis
      using H choice(3) assms(6)
      by (auto simp: IsLoaded_holder [OF wf'] lookup_key_def listed(5,6) notify_loader_facts c lip split: option.split)
  qed (use assms(4) in simp)
qed

subsection \<open>A model the server dropped by itself\<close>

text \<open>
  One round: a poll, in which the servers answer what they like, and then a request. The loader's
  network in the round is arbitrary too.
\<close>

record round =
  rndOrders :: dedup_orders
  rndClient :: "pod lister"
  rndNet :: transport
  rndUnload :: "string \<Rightarrow> string \<Rightarrow> unload_error option"
  rndEnv :: load_env

fun serve_rounds ::
  "(string \<Rightarrow> model_entry list option) \<Rightarrow> (nat \<Rightarrow> wait_outcome) \<Rightarrow> llm_request option \<Rightarrow> scheduling_result option \<Rightarrow>
   round list \<Rightarrow> epp \<Rightarrow> epp option" where
  "serve_rounds decode await request result [] s = Some s"
| "serve_rounds decode await request result (r # rs) s =
     (case epp_prerequest decode await (rndEnv r) request result
         (fst (epp_poll (rndOrders r) (rndClient r) (rndNet r) decode (rndUnload r) s)) of
        None \<Rightarrow> None
      | Some s' \<Rightarrow> serve_rounds decode await request result rs s')"

lemma prerequest_cached:
  assumes "validateAndExtractPreRequestInfo request result = (model, ip, key)" and "model \<noteq> []"
    and "loadedModels (eLoader s) (loadKey ip model) \<noteq> None"
  shows "epp_prerequest decode await env request result s = Some (s\<lparr>eTracker := MarkLoaded ip model (eTracker s)\<rparr>)"
proof -
  have "ip \<noteq> []" using validate_nonempty [OF assms(1)] assms(2) by simp
  with assms show ?thesis
    by (auto simp: epp_prerequest_def PreRequest_def Let_def handleAlreadyLoadedOrLoading_def lookup_key_def
        markTrackerLoaded_def)
qed

lemma poll_keeps_cache:
  assumes "epp_ok s" and "dedup_ranges ord" and "epp_poll ord client net decode unload s = (s', lg)"
    and "\<And>q n. loadKey q n = k \<Longrightarrow> unload q n \<noteq> None"
  shows "loadedModels (eLoader s') k = loadedModels (eLoader s) k \<and> nextResult (eLoader s') = nextResult (eLoader s) \<and>
    loadingModels (eLoader s') = loadingModels (eLoader s)"
  using assms(1-3)
proof (cases rule: epp_poll_cases)
  case (listed pods as c)
  let ?t = "polled net decode pods (eTracker s)"
  have "loadKey l m \<noteq> k" if c: "c = Some (l, m)" for l m
  proof -
    have "snd (dedup_scan (cache_Pressure (Some (eCache s))) unload (podIP ?t) (ripe_list ?t)) = Some (l, m)"
      using listed(2) c by simp
    from dedup_scan_choice [OF this] obtain ip where "podIP ?t l = Some ip" "unload ip m = None" by blast
    with polled_facts(2) [OF assms(1)] assms(4) show ?thesis by blast
  qed
  then show ?thesis by (auto simp: listed(5,6) notify_loader_facts split: option.splits if_splits)
qed simp

text \<open>The loader never finds out that a server dropped a model by itself. Once a model is in its cache,
  in rounds of a poll and a request for it, one after the other, each request is passed on at once, without a load and without asking the server, for as
  long as the dedup does not unload it; and each request marks the model as loaded in the tracker
  again, so that the filter keeps sending requests to the pod although each poll showed that the
  model is gone.\<close>

theorem cached_model_never_reloaded:
  assumes "epp_reach s" and "validateAndExtractPreRequestInfo request result = (model, ip, key)" and "model \<noteq> []"
    and "loadedModels (eLoader s) (loadKey ip model) \<noteq> None"
    and "\<forall>r \<in> set rs. dedup_ranges (rndOrders r) \<and>
      (\<forall>q n. loadKey q n = loadKey ip model \<longrightarrow> rndUnload r q n \<noteq> None)"
  shows "\<exists>s'. serve_rounds decode await request result rs s = Some s' \<and>
    nextResult (eLoader s') = nextResult (eLoader s) \<and> loadingModels (eLoader s') = loadingModels (eLoader s) \<and>
    (rs \<noteq> [] \<longrightarrow> IsLoaded (eTracker s') ip model)"
  using assms(1,4,5)
proof (induction rs arbitrary: s)
  case (Cons r rs)
  obtain s1 lg where p: "epp_poll (rndOrders r) (rndClient r) (rndNet r) decode (rndUnload r) s = (s1, lg)" by fastforce
  have ord: "dedup_ranges (rndOrders r)" using Cons.prems(3) by simp
  have ok: "epp_ok s" using Cons.prems(1) by (rule epp_reach_ok)
  note keep = poll_keeps_cache [OF ok ord p, of "loadKey ip model"]
  have cached: "loadedModels (eLoader s1) (loadKey ip model) \<noteq> None" using keep Cons.prems by simp
  note pre = prerequest_cached [OF assms(2,3) cached, of decode await "rndEnv r"]
  let ?s2 = "s1\<lparr>eTracker := MarkLoaded ip model (eTracker s1)\<rparr>"
  have reach: "epp_reach ?s2"
    by (rule prerequest [OF epp_reach.poll [OF Cons.prems(1) ord p] pre])
  have ip: "ip \<noteq> []" using validate_nonempty [OF assms(2)] assms(3) by simp
  have loaded2: "IsLoaded (eTracker ?s2) ip model"
    using epp_poll_ok [OF ok ord p] ip assms(3) by (simp add: epp_ok_def warm.loaded_mark)
  have same: "nextResult (eLoader s1) = nextResult (eLoader s)" "loadingModels (eLoader s1) = loadingModels (eLoader s)"
    using keep Cons.prems(3) by simp_all
  show ?case
  proof (cases rs)
    case Nil
    with pre loaded2 same show ?thesis by (simp add: p)
  next
    case (Cons r' rs')
    with Cons.IH [OF reach] cached Cons.prems(3) pre same show ?thesis by (simp add: p)
  qed
qed simp

subsection \<open>A concrete process\<close>

definition demo_replica :: "string \<Rightarrow> pod" where
  "demo_replica ip =
     \<lparr>PodName = ''llama'' @ ip, PodNamespace = ''llm'', PodLabels = [''app'' \<mapsto> ''llama-server''], NodeName = ''gpu-1'',
      Containers = [], Phase = PodRunning, PodIP = ip\<rparr>"

lemma demo_replica_ip [simp]: "PodIP (demo_replica ip) = ip"
  by (simp add: demo_replica_def)

definition demo_epp :: epp where
  "demo_epp =
     \<lparr>eTracker = SetUnloadObserver True (startModelTracker default_lib initConfig True),
      eLoader = NewPlugin ''loader'' DefaultConfig, eCache = NewCache\<rparr>"

lemma demo_epp_reach: "epp_reach demo_epp"
  by (rule epp_reach.start [of "\<lambda>raw c. Inr c" "''loader''" "[]" default_lib Map.empty])
    (simp add: new_epp_def ModelLoaderFactory_def main_setup_eq WithTracker_def demo_epp_def Let_def)

lemma demo_epp_fields:
  "dupObs (eTracker demo_epp) = Map.empty" "dedupGracePolls (eTracker demo_epp) = 12" "eCache demo_epp = NewCache"
  by (simp_all add: demo_epp_def startModelTracker_def SetUnloadObserver_def NewTracker_def or_default_def
      DefaultDedupGracePolls_def)

text \<open>A poll in which every pod of the list answers with the status \<open>st\<close> for \<open>llama\<close>.\<close>

abbreviation demo_poll ::
  "string list \<Rightarrow> string \<Rightarrow> (string \<Rightarrow> string \<Rightarrow> unload_error option) \<Rightarrow> epp \<Rightarrow> epp \<times> dedup_log" where
  "demo_poll ips st unload s \<equiv>
     epp_poll sorted_orders (\<lambda>opts. Inr (map demo_replica ips)) (live_net st) demo_decode unload s"

lemma demo_polled_holders:
  assumes "epp_ok s" and "[] \<notin> set ips"
  shows "holder_set (polled (live_net st) demo_decode (map demo_replica ips) (eTracker s)) m =
    (if m = ''llama'' \<and> live_status st then set ips else {})"
proof -
  have "queryPod (live_net st) demo_decode (eTracker s) ip = Inr (if live_status st then {''llama''} else {})" for ip
    by (simp add: queryPod_def live_net_def demo_decode_def Let_def live_status_def)
  moreover have "listed_ips (map demo_replica ips) = set ips"
  proof (intro equalityI subsetI)
    fix x assume "x \<in> set ips"
    with assms(2) have "demo_replica x \<in> set (map demo_replica ips) \<and> PodIP (demo_replica x) \<noteq> []" by auto
    then show "x \<in> listed_ips (map demo_replica ips)"
      unfolding listed_ips_def by (metis (mono_tags, lifting) demo_replica_ip image_eqI mem_Collect_eq)
  qed (auto simp: listed_ips_def)
  ultimately have "pod_set (polled (live_net st) demo_decode (map demo_replica ips) (eTracker s)) =
      (\<lambda>p. if p \<in> set ips then Some (if live_status st then {''llama''} else {}) else None)"
    by (simp add: polled_view [OF assms(1)] view_poll_def fun_eq_iff)
  then show ?thesis by (simp add: holder_set_def)
qed

lemma demo_listed: "listPods (\<lambda>opts. Inr ps) t = Inr ps"
  by (simp add: listPods_def)

text \<open>Twelve polls in a row show the model on two pods; the twelfth asks one of them to unload it.\<close>

definition two_pods :: "string list" where
  "two_pods = [''10.0.0.1'', ''10.0.0.2'']"

lemma demo_polled_two:
  assumes "epp_reach s"
  defines "t \<equiv> polled (live_net ''loaded'') demo_decode (map demo_replica two_pods) (eTracker s)"
  shows "duplicated t = {''llama''}" "holder_set t ''llama'' = set two_pods"
    "dupObs t = dupObs (eTracker s)" "dedupGracePolls t = dedupGracePolls (eTracker s)"
proof -
  have "[] \<notin> set two_pods" by (simp add: two_pods_def)
  from demo_polled_holders [OF epp_reach_ok [OF assms(1)] this, of "''loaded''"]
  have "holder_set t m = (if m = ''llama'' then set two_pods else {})" for m
    unfolding t_def by (simp add: live_status_def)
  then show "duplicated t = {''llama''}" "holder_set t ''llama'' = set two_pods"
    by (auto simp: duplicated_def two_pods_def)
qed (simp_all add: t_def polled_def)

lemma demo_polls:
  "n \<le> 11 \<Longrightarrow> \<exists>s. epp_reach s \<and> dedupGracePolls (eTracker s) = 12 \<and> eCache s = NewCache \<and>
    dupObs (eTracker s) = (if n = 0 then Map.empty else [''llama'' \<mapsto> int n])"
proof (induction n)
  case 0
  show ?case using demo_epp_reach demo_epp_fields by (intro exI [of _ demo_epp]) simp
next
  case (Suc n)
  then obtain s where s: "epp_reach s" "dedupGracePolls (eTracker s) = 12" "eCache s = NewCache"
    "dupObs (eTracker s) = (if n = 0 then Map.empty else [''llama'' \<mapsto> int n])" by auto
  let ?t = "polled (live_net ''loaded'') demo_decode (map demo_replica two_pods) (eTracker s)"
  note t = demo_polled_two [OF s(1)]
  obtain s' lg where p: "demo_poll two_pods ''loaded'' (\<lambda>ip m. None) s = (s', lg)" by fastforce
  have obs: "obs_count (dupObs ?t) ''llama'' = int n" by (simp add: t(3) s(4) obs_count_def)
  have ripe: "ripe_list ?t = []" using Suc.prems by (simp add: ripe_list_def ripe_models_def t(1,4) s(2) obs)
  have obs2: "next_obs ?t = [''llama'' \<mapsto> int (Suc n)]" by (simp add: next_obs_def t(1) obs fun_eq_iff)
  from epp_reach_ok [OF s(1)] dedup_ranges_sorted p
  have "dupObs (eTracker s') = [''llama'' \<mapsto> int (Suc n)] \<and> dedupGracePolls (eTracker s') = 12 \<and> eCache s' = NewCache"
  proof (cases rule: epp_poll_cases)
    case (listed pods as c)
    have pods: "pods = map demo_replica two_pods" using listed(1) by (simp add: demo_listed)
    have "c = None" using listed(2) by (simp add: pods ripe)
    then show ?thesis using listed(3,7) t(4) s(2,3) by (simp add: pods obs2 apply_choice_def)
  qed (simp add: demo_listed)
  with epp_reach.poll [OF s(1) dedup_ranges_sorted p] show ?case by (intro exI [of _ s']) simp
qed

lemma new_cache_pressure: "cache_Pressure (Some NewCache) ip = Fin 0"
  by (simp add: cache_Pressure_def NewCache_def)

theorem unload_reaches_loader_witness:
  "\<exists>s s' lg. epp_reach s \<and> demo_poll two_pods ''loaded'' (\<lambda>ip m. None) s = (s', lg) \<and>
    attempts lg = [(''10.0.0.1'', ''llama'')] \<and> \<not> IsLoaded (eTracker s') ''10.0.0.1'' ''llama'' \<and>
    lookup_key (loadKey ''10.0.0.1'' ''llama'') (eLoader s') \<noteq> Loaded"
proof -
  obtain s where s: "epp_reach s" "dedupGracePolls (eTracker s) = 12" "eCache s = NewCache"
    "dupObs (eTracker s) = [''llama'' \<mapsto> 11]" using demo_polls [of 11] by auto
  obtain s' lg where p: "demo_poll two_pods ''loaded'' (\<lambda>ip m. None) s = (s', lg)" by fastforce
  let ?t = "polled (live_net ''loaded'') demo_decode (map demo_replica two_pods) (eTracker s)"
  note t = demo_polled_two [OF s(1)]
  have "ripe_models ?t = {''llama''}" by (simp add: ripe_models_def t s obs_count_def)
  then have ripe: "ripe_list ?t = [(''llama'', two_pods)]" by (simp add: ripe_list_def t(2)) (simp add: two_pods_def)
  have ips: "podIP ?t = (\<lambda>p. if p \<in> set two_pods then Some p else None)"
    by (simp add: polled_view [OF epp_reach_ok [OF s(1)]] two_pods_def)
  have pick: "pickLoser (cache_Pressure (Some NewCache)) two_pods = ''10.0.0.1''"
    by (simp add: pickLoser_def two_pods_def new_cache_pressure)
  have scan: "dedup_scan (cache_Pressure (Some (eCache s))) (\<lambda>ip m. None) (podIP ?t) (ripe_list ?t) =
      ([(''10.0.0.1'', ''llama'')], Some (''10.0.0.1'', ''llama''))"
    by (simp add: ripe s(3) pick ips Let_def) (simp add: two_pods_def)
  from epp_reach_ok [OF s(1)] dedup_ranges_sorted p have lg: "attempts lg = [(''10.0.0.1'', ''llama'')]"
  proof (cases rule: epp_poll_cases)
    case (listed pods as c)
    have "pods = map demo_replica two_pods" using listed(1) by (simp add: demo_listed)
    then show ?thesis using listed(2,4) scan by simp
  qed (simp add: demo_listed)
  from unload_reaches_loader [OF s(1) dedup_ranges_sorted p, of "''10.0.0.1''" "''llama''"] lg s(1) p
  show ?thesis by (intro exI [of _ s] exI [of _ s'] exI [of _ lg]) simp
qed

text \<open>A request loads the model on its pod; then the server drops it by itself.\<close>

definition demo_served :: "epp \<Rightarrow> bool" where
  "demo_served s \<longleftrightarrow>
     epp_prerequest demo_decode (\<lambda>r. Cancelled) demo_env (Some demo_request) (Some demo_schedule) demo_epp = Some s"

lemma demo_served: "\<exists>s. demo_served s \<and> epp_reach s \<and> loadedModels (eLoader s) (loadKey ''10.0.0.1'' ''llama'') = Some 7"
proof -
  have cold: "lookup_key k (eLoader demo_epp) = Cold" for k
    by (simp add: lookup_key_def NewPlugin_def demo_epp_def)
  have wf: "wf_tracker (eTracker demo_epp)" using epp_reach_ok [OF demo_epp_reach] by (simp add: epp_ok_def)
  obtain p t where "PreRequest demo_decode (\<lambda>r. Cancelled) demo_env (Some demo_request) (Some demo_schedule)
      (eLoader demo_epp, Some (eTracker demo_epp)) = Some (p, Some t)"
    "loadedModels p (loadKey ''10.0.0.1'' ''llama'') = Some 7"
    using cold_outcome [OF demo_validate _ wf cold demo_not_loaded, of "\<lambda>r. Cancelled"] demo_primary
    by (auto simp: demo_env_def)
  then have "demo_served (demo_epp\<lparr>eLoader := p, eTracker := t\<rparr>)"
    by (simp add: demo_served_def epp_prerequest_def)
  with \<open>loadedModels p (loadKey ''10.0.0.1'' ''llama'') = Some 7\<close> show ?thesis
    by (intro exI [of _ "demo_epp\<lparr>eLoader := p, eTracker := t\<rparr>"])
      (auto simp: demo_served_def intro: epp_reach.prerequest [OF demo_epp_reach])
qed

definition demo_round :: round where
  "demo_round =
     \<lparr>rndOrders = sorted_orders, rndClient = (\<lambda>opts. Inr [demo_replica ''10.0.0.1'']), rndNet = live_net ''unloaded'',
      rndUnload = (\<lambda>ip m. Some UnloadRead), rndEnv = demo_env\<rparr>"

lemma demo_round_poll:
  assumes "epp_reach s"
  shows "\<not> IsLoaded (eTracker (fst (demo_poll [''10.0.0.1''] ''unloaded'' (\<lambda>ip m. Some UnloadRead) s))) q m"
proof -
  obtain s' lg where p: "demo_poll [''10.0.0.1''] ''unloaded'' (\<lambda>ip m. Some UnloadRead) s = (s', lg)" by fastforce
  note ok = epp_reach_ok [OF assms]
  let ?t = "polled (live_net ''unloaded'') demo_decode (map demo_replica [''10.0.0.1'']) (eTracker s)"
  have H: "holder_set ?t n = {}" for n
    using demo_polled_holders [OF ok, of "[''10.0.0.1'']" "''unloaded''" n] by (simp add: live_status_def)
  from ok dedup_ranges_sorted p have "holder_set (eTracker s') m = {}"
  proof (cases rule: epp_poll_cases)
    case (listed pods as c)
    have pods: "pods = map demo_replica [''10.0.0.1'']" using listed(1) by (simp add: demo_listed)
    have "ripe_models ?t = {}" using H by (simp add: ripe_models_def duplicated_def del: list.map)
    then have "ripe_list ?t = []" by (simp add: ripe_list_def del: list.map)
    then have "c = None" using listed(2) by (simp add: pods)
    then show ?thesis using listed(3) H [of m] by (simp add: pods apply_choice_def holder_set_def pod_set_def)
  qed (simp add: demo_listed)
  with epp_poll_ok [OF ok dedup_ranges_sorted p] show ?thesis unfolding p by (simp add: IsLoaded_holder epp_ok_def)
qed

theorem cached_model_never_reloaded_witness:
  "\<exists>s s'. demo_served s \<and> epp_reach s \<and>
    \<not> IsLoaded (eTracker (fst (demo_poll [''10.0.0.1''] ''unloaded'' (\<lambda>ip m. Some UnloadRead) s))) ''10.0.0.1'' ''llama'' \<and>
    serve_rounds demo_decode (\<lambda>r. Cancelled) (Some demo_request) (Some demo_schedule) [demo_round] s = Some s' \<and>
    nextResult (eLoader s') = nextResult (eLoader s) \<and> IsLoaded (eTracker s') ''10.0.0.1'' ''llama''"
proof -
  obtain s where s: "demo_served s" "epp_reach s" "loadedModels (eLoader s) (loadKey ''10.0.0.1'' ''llama'') = Some 7"
    using demo_served by blast
  have "\<exists>s'. serve_rounds demo_decode (\<lambda>r. Cancelled) (Some demo_request) (Some demo_schedule) [demo_round] s = Some s' \<and>
      nextResult (eLoader s') = nextResult (eLoader s) \<and> loadingModels (eLoader s') = loadingModels (eLoader s) \<and>
      ([demo_round] \<noteq> [] \<longrightarrow> IsLoaded (eTracker s') ''10.0.0.1'' ''llama'')"
    by (rule cached_model_never_reloaded [OF s(2) demo_validate])
      (simp_all add: s(3) demo_round_def dedup_ranges_sorted)
  with s(1,2) demo_round_poll [OF s(2)] show ?thesis by auto
qed

end
