(* ===== verification/Epp_Types.thy ===== *)
theory Epp_Types
  imports Epp_System
begin

section \<open>What every state of the process looks like\<close>

text \<open>
  The shape of the shared data between two events: the tracker's maps are well formed and keyed by
  addresses, the counters of the dedup are positive, and no load is left registered.
\<close>

definition tracker_typed :: "tracker \<Rightarrow> bool" where
  "tracker_typed t \<longleftrightarrow>
     loaded t [] = None \<and> (\<forall>p. podIP t p = None \<or> podIP t p = Some p) \<and>
     (\<forall>m c. dupObs t m = Some c \<longrightarrow> 1 \<le> c)"

definition process_typed :: "epp \<Rightarrow> bool" where
  "process_typed s \<longleftrightarrow> wf_tracker (eTracker s) \<and> tracker_typed (eTracker s) \<and> loadingModels (eLoader s) = Map.empty"

lemma typed_MarkLoaded: "tracker_typed t \<Longrightarrow> tracker_typed (MarkLoaded p m t)"
  by (auto simp: tracker_typed_def MarkLoaded_def link_set_def Let_def split: prod.split option.splits)

lemma typed_MarkUnloaded: "tracker_typed t \<Longrightarrow> tracker_typed (fst (MarkUnloaded p m t))"
  by (auto simp: tracker_typed_def MarkUnloaded_def split: option.split)

lemma typed_forget: "tracker_typed t \<Longrightarrow> tracker_typed (forget_obs m t)"
  by (auto simp: tracker_typed_def forget_obs_def)

lemma typed_apply_choice: "tracker_typed t \<Longrightarrow> tracker_typed (apply_choice c t)"
  by (auto simp: apply_choice_def typed_forget typed_MarkUnloaded split: option.split)

lemma typed_next_obs: "tracker_typed t \<Longrightarrow> tracker_typed (t\<lparr>dupObs := next_obs t\<rparr>)"
  by (force simp: tracker_typed_def next_obs_def obs_count_def split: option.splits if_splits)

lemma typed_polled:
  assumes "epp_ok s" and "tracker_typed (eTracker s)"
  shows "tracker_typed (polled net decode pods (eTracker s))"
proof -
  let ?t = "polled net decode pods (eTracker s)"
  have "[] \<notin> listed_ips pods" by (auto simp: listed_ips_def)
  then have "pod_set ?t [] = None" by (simp add: polled_view [OF assms(1)] view_poll_def)
  then have "loaded ?t [] = None" by (simp add: pod_set_apply split: option.splits)
  moreover have "dupObs ?t = dupObs (eTracker s)" by (simp add: polled_def)
  ultimately show ?thesis
    using assms(2) by (simp add: tracker_typed_def polled_view [OF assms(1)])
qed

subsection \<open>The events\<close>

lemma new_epp_typed: "new_epp unmarshal name raw (main_setup lib reg) = Inr s \<Longrightarrow> process_typed s"
  by (auto simp: new_epp_def ModelLoaderFactory_def main_setup_eq WithTracker_def NewPlugin_def process_typed_def
      startModelTracker_def wf_tracker_ops SetUnloadObserver_def NewTracker_def wf_tracker_def tracker_typed_def Let_def
      split: sum.splits if_splits)

text \<open>The world of the loader, as \<open>PreRequest\<close> sees it.\<close>

definition world_typed :: "world \<Rightarrow> bool" where
  "world_typed w \<longleftrightarrow> loadingModels (fst w) = Map.empty \<and> (\<exists>t. snd w = Some t \<and> tracker_typed t)"

lemma world_typed_marks:
  "world_typed (p, t) \<Longrightarrow> world_typed (markTrackerLoaded ip m (p, t))"
  "world_typed (p, t) \<Longrightarrow> world_typed (markTrackerUnloaded ip m (p, t))"
proof -
  show "world_typed (p, t) \<Longrightarrow> world_typed (markTrackerLoaded ip m (p, t))"
    by (auto simp: markTrackerLoaded_def world_typed_def typed_MarkLoaded)
  assume ok: "world_typed (p, t)"
  then obtain t0 where t: "t = Some t0" "tracker_typed t0" "loadingModels p = Map.empty"
    by (auto simp: world_typed_def)
  obtain t' n where mu: "MarkUnloaded ip m t0 = (t', n)" by fastforce
  with typed_MarkUnloaded [OF t(2), of ip m] t ok show "world_typed (markTrackerUnloaded ip m (p, t))"
    by (auto simp: markTrackerUnloaded_def world_typed_def split: option.split)
qed

text \<open>With no other load in flight, a request leaves no load registered, on any branch.\<close>

lemma PreRequest_typed:
  assumes "world_typed (p, Some t)" and "PreRequest decode await env request result (p, Some t) = Some w'"
  shows "world_typed w'"
proof -
  obtain model ip key where v: "validateAndExtractPreRequestInfo request result = (model, ip, key)"
    by (metis prod_cases3)
  show ?thesis
  proof (cases "model = []")
    case True
    with assms show ?thesis by (simp add: PreRequest_def v)
  next
    case False
    have ip: "ip \<noteq> []" using validate_nonempty [OF v] False by simp
    have idle: "loadingModels p = Map.empty" using assms(1) by (simp add: world_typed_def)
    then have none: "loadingModels p (loadKey ip model) = None" by simp
    have marked: "world_typed (q, Some (MarkLoaded ip model t))" if "loadingModels q = Map.empty" for q
      using assms(1) that by (simp add: world_typed_def typed_MarkLoaded)
    note pr = PreRequest_target [OF v False ip none, of decode await env t]
    note retract = marked [THEN world_typed_marks(2), of _ ip model]
    show ?thesis
      using assms(2) idle marked retract unfolding pr loadModel_alone [OF none]
      by (auto simp: cache_loaded_def split: if_splits option.splits)
  qed
qed

lemma epp_prerequest_typed:
  assumes "process_typed s" and "epp_ok s" and "epp_prerequest decode await env request result s = Some s'"
  shows "process_typed s'"
proof -
  obtain p t where pt: "PreRequest decode await env request result (eLoader s, Some (eTracker s)) = Some (p, Some t)"
    "s' = s\<lparr>eLoader := p, eTracker := t\<rparr>"
    using assms(3) by (auto simp: epp_prerequest_def split: option.splits prod.splits)
  have "world_typed (p, Some t)"
    using PreRequest_typed [OF _ pt(1)] assms(1) by (simp add: world_typed_def process_typed_def)
  with epp_prerequest_ok [OF assms(2,3)] show ?thesis
    by (simp add: process_typed_def world_typed_def epp_ok_def pt(2))
qed

lemma epp_poll_typed:
  assumes "process_typed s" and "epp_ok s" and "dedup_ranges ord"
    and "epp_poll ord client net decode unload s = (s', lg)"
  shows "process_typed s'"
  using assms(2,3,4)
proof (cases rule: epp_poll_cases)
  case not_listed
  with assms(1) show ?thesis by simp
next
  case (listed pods as c)
  have "tracker_typed (eTracker s')"
    unfolding listed(3) using assms(1,2) by (intro typed_apply_choice typed_next_obs typed_polled)
      (simp_all add: process_typed_def)
  with epp_poll_ok [OF assms(2,3,4)] assms(1) listed(6) show ?thesis
    by (simp add: process_typed_def epp_ok_def notify_loader_facts)
qed

lemma epp_reach_typed: "epp_reach s \<Longrightarrow> process_typed s"
proof (induction rule: epp_reach.induct)
  case (start unmarshal name raw lib reg s)
  then show ?case by (rule new_epp_typed)
next
  case (filter s now request pods out s')
  then show ?case by (auto simp: epp_filter_def process_typed_def split: prod.splits)
next
  case (prerequest s decode await env request result s')
  then show ?case using epp_prerequest_typed epp_reach_ok by blast
next
  case (poll s ord client net decode unload s' lg)
  then show ?case using epp_poll_typed epp_reach_ok by blast
qed

text \<open>C17: every state the process reaches is well formed: no two pods share a set of models, so that a change at
  one is never visible at another; the tracker has no entry for an empty address, and the address
  it keeps for a pod is the key itself; a counter of the dedup exists only for a model that was
  seen duplicated; and between requests no load is registered as in flight, so that a failed or
  finished load never blocks the next one.\<close>

theorem process_well_formed:
  assumes "epp_reach s"
  shows "process_typed s"
  using assms by (rule epp_reach_typed)

theorem process_well_formed_witness:
  "\<exists>s. demo_served s \<and> loadedModels (eLoader s) (loadKey ''10.0.0.1'' ''llama'') = Some 7 \<and> process_typed s \<and>
    loadingModels (eLoader s) (loadKey ''10.0.0.1'' ''llama'') = None"
proof -
  obtain s where s: "demo_served s" "epp_reach s" "loadedModels (eLoader s) (loadKey ''10.0.0.1'' ''llama'') = Some 7"
    using demo_served by blast
  from process_well_formed [OF s(2)] s(1,3) show ?thesis by (intro exI [of _ s]) (simp add: process_typed_def)
qed

end
