(* ===== verification/System_Refinement.thy ===== *)
theory System_Refinement
  imports System_Machine Loader_Refinement Poll_Refinement Epp_Types
begin

section \<open>The process with atomic events is a part of the interleaved one\<close>

text \<open>
  \<open>Epp_System\<close> lets one request or one poll happen at a time; \<open>System_Machine\<close> interleaves the actions
  of requests and poller. The first is the part of the second in which nothing comes in between: each
  event is a run of the system, so that a state the atomic process reaches is one the real one does.
\<close>

definition matches :: "epp \<Rightarrow> system \<Rightarrow> bool" where
  "matches s u \<longleftrightarrow>
     mTracker (smL u) = eTracker s \<and> pmT (smP u) = eTracker s \<and> mLoader (smL u) = eLoader s \<and>
     pmPhase (smP u) = Waiting \<and> smNotice u = None"

subsection \<open>Runs of one part are runs of the system\<close>

lemma lift_own_run:
  assumes "own_steps decode job g l l'" and "smL u = l" and "pmT (smP u) = mTracker l"
  shows "\<exists>u'. sysruns decode job u u' \<and> smL u' = l' \<and> smP u' = (smP u)\<lparr>pmT := mTracker l'\<rparr> \<and> smNotice u' = smNotice u"
  using assms
proof (induction rule: rtranclp_induct)
  case base
  then show ?case by (intro exI [of _ u]) simp
next
  case (step l1 l2)
  then obtain u1 where u1: "sysruns decode job u u1" "smL u1 = l1" "smP u1 = (smP u)\<lparr>pmT := mTracker l1\<rparr>"
    "smNotice u1 = smNotice u" by blast
  have "mstep decode job l1 l2" "pcs l2 \<noteq> pcs l1" using step.hyps(2) by (auto simp: own_step_def)
  then have "sysstep decode job u1 (u1\<lparr>smL := l2, smP := (smP u1)\<lparr>pmT := mTracker l2\<rparr>\<rparr>)"
    using sys_request [of decode job u1 l2] u1(2) by simp
  with u1(1) have "sysruns decode job u (u1\<lparr>smL := l2, smP := (smP u1)\<lparr>pmT := mTracker l2\<rparr>\<rparr>)"
    by (rule rtranclp.rtrancl_into_rtrancl)
  then show ?case by (intro exI conjI, assumption) (simp_all add: u1)
qed

text \<open>Each notice of the poller is delivered before its next action.\<close>

lemma heard_step: "poller_step p q \<Longrightarrow> pmHeard q = pmHeard p \<or> (\<exists>n. pmHeard q = pmHeard p @ [n])"
  by (cases rule: poller_step.cases) (auto simp: note_list_def split: option.split)

lemma lift_poller_notices:
  assumes "poller_step\<^sup>*\<^sup>* p q" and "smP u = p" and "smNotice u = None" and "mTracker (smL u) = pmT p"
  shows "\<exists>u' ns. sysruns decode job u u' \<and> pmHeard q = pmHeard p @ ns \<and> smP u' = q \<and> smNotice u' = None \<and>
    mTracker (smL u') = pmT q \<and> pcs (smL u') = pcs (smL u) \<and> mLoader (smL u') = notify_loader ns (mLoader (smL u))"
  using assms
proof (induction rule: rtranclp_induct)
  case base
  then show ?case by (intro exI [of _ u] exI [of _ "[]"]) (simp add: notify_loader_def)
next
  case (step q r)
  then obtain u1 ns where u1: "sysruns decode job u u1" "pmHeard q = pmHeard p @ ns" "smP u1 = q" "smNotice u1 = None"
    "pcs (smL u1) = pcs (smL u)" "mLoader (smL u1) = notify_loader ns (mLoader (smL u))" by blast
  let ?u2 = "u1\<lparr>smL := (smL u1)\<lparr>mTracker := pmT r\<rparr>, smP := r, smNotice := new_notice (smP u1) r\<rparr>"
  have "sysstep decode job u1 ?u2" using sys_poller [OF u1(4), of r] step.hyps(2) by (simp add: u1(3))
  with u1(1) have two: "sysruns decode job u ?u2" by (rule rtranclp.rtrancl_into_rtrancl)
  from heard_step [OF step.hyps(2)] show ?case
  proof
    assume "pmHeard r = pmHeard q"
    with two show ?thesis
      by (intro exI [of _ ?u2] exI [of _ ns]) (simp add: u1 new_notice_def)
  next
    assume "\<exists>n. pmHeard r = pmHeard q @ [n]"
    then obtain ip m where n: "pmHeard r = pmHeard q @ [(ip, m)]" by auto
    let ?u3 = "?u2\<lparr>smL := (smL ?u2)\<lparr>mLoader := InvalidateLoadedModel ip m (mLoader (smL ?u2))\<rparr>, smNotice := None\<rparr>"
    have "sysstep decode job ?u2 ?u3" by (rule sys_notice) (simp add: new_notice_def n u1(3))
    with two have "sysruns decode job u ?u3" by (rule rtranclp.rtrancl_into_rtrancl)
    then show ?thesis
      by (intro exI [of _ ?u3] exI [of _ "ns @ [(ip, m)]"]) (simp add: u1 n notify_loader_def)
  qed
qed

subsection \<open>Each event is a run\<close>

lemma request_event:
  assumes "matches s u" and "epp_prerequest decode await env request result s = Some s'"
    and "validateAndExtractPreRequestInfo request result = (m, ip, podKey)" and "m \<noteq> []"
    and "job g = (ip, m)" and "awaits_store await (eLoader s)" and "pcs (smL u) g = Lookup"
  shows "\<exists>u'. sysruns decode job u u' \<and> matches s' u' \<and> pcs (smL u') = (pcs (smL u))(g := Returned)"
proof -
  obtain p t where run: "PreRequest decode await env request result (eLoader s, Some (eTracker s)) = Some (p, Some t)"
    "s' = s\<lparr>eLoader := p, eTracker := t\<rparr>"
    using assms(2) by (auto simp: epp_prerequest_def split: option.splits prod.splits)
  have start: "place g (smL u) Lookup (eLoader s) (eTracker s) = smL u"
    using assms(1,7) by (simp add: place_def matches_def fun_upd_idem)
  have "own_steps decode job g (smL u) (place g (smL u) Returned p t)"
    using PreRequest_is_a_run [where job = job and g = g and s = "smL u", OF assms(3-6) run(1)] by (simp add: start)
  from lift_own_run [OF this, of u] assms(1) run(2) show ?thesis
    by (fastforce simp: matches_def place_def)
qed

lemma poll_event:
  assumes "matches s u" and "dedup_ranges ord" and "epp_poll ord client net decode' unload s = (s', lg)"
  shows "\<exists>u'. sysruns decode job u u' \<and> matches s' u' \<and> pcs (smL u') = pcs (smL u)"
proof -
  obtain t where run: "pollOnce ord client (queryPod net decode' (eTracker s)) (cache_Pressure (Some (eCache s))) unload
      (eTracker s) = (t, lg)" and s': "s' = s\<lparr>eTracker := t, eLoader := notify_loader (notified lg) (eLoader s)\<rparr>"
    using assms(3) by (auto simp: epp_poll_def split: prod.splits)
  have u: "pmPhase (smP u) = Waiting" "pmT (smP u) = eTracker s" "smNotice u = None" "mTracker (smL u) = pmT (smP u)"
    "mLoader (smL u) = eLoader s" using assms(1) by (simp_all add: matches_def)
  have "\<exists>q. poller_step\<^sup>*\<^sup>* (smP u) q \<and> pmPhase q = Waiting \<and> pmT q = t \<and> pmSent q = pmSent (smP u) @ attempts lg \<and>
      pmHeard q = pmHeard (smP u) @ notified lg"
    by (rule poll_run [OF u(1) assms(2), of "queryPod net decode' (eTracker s)" client "cache_Pressure (Some (eCache s))" unload])
      (use run queryPod_finite u(2) in auto)
  then obtain q where q: "poller_step\<^sup>*\<^sup>* (smP u) q" "pmPhase q = Waiting" "pmT q = t"
    "pmHeard q = pmHeard (smP u) @ notified lg" by blast
  from lift_poller_notices [OF q(1) refl u(3,4)] q(2-4) show ?thesis
    by (fastforce simp: matches_def s' u(5))
qed

subsection \<open>The atomic process\<close>

text \<open>
  The events of the process with the numbers of the calls made so far: each request is a call of its own,
  and \<open>job\<close> gives its pod and model, as in the machine of requests.
\<close>

inductive serial ::
  "(string \<Rightarrow> model_entry list option) \<Rightarrow> (nat \<Rightarrow> string \<times> string) \<Rightarrow> nat set \<Rightarrow> epp \<Rightarrow> bool"
  for decode job where
  serial_start: "new_epp unmarshal name raw (main_setup lib reg) = Inr s \<Longrightarrow> serial decode job {} s"
| serial_filter: "serial decode job G s \<Longrightarrow> epp_filter now req pods s = (out, s') \<Longrightarrow> serial decode job G s'"
| serial_request: "serial decode job G s \<Longrightarrow> g \<notin> G \<Longrightarrow>
    validateAndExtractPreRequestInfo request result = (m, ip, podKey) \<Longrightarrow> m \<noteq> [] \<Longrightarrow> job g = (ip, m) \<Longrightarrow>
    awaits_store await (eLoader s) \<Longrightarrow> epp_prerequest decode await env request result s = Some s' \<Longrightarrow>
    serial decode job (insert g G) s'"
| serial_poll: "serial decode job G s \<Longrightarrow> dedup_ranges ord \<Longrightarrow>
    epp_poll ord client net decode' unload s = (s', lg) \<Longrightarrow> serial decode job G s'"

lemma start_matches:
  assumes "new_epp unmarshal name raw (main_setup lib reg) = Inr s"
  shows "\<exists>u. sysreach decode job u \<and> matches s u \<and> pcs (smL u) = (\<lambda>_. Lookup)"
proof -
  obtain cfg opts where s: "eLoader s = NewPlugin name cfg" "eTracker s = SetUnloadObserver True (NewTracker opts)"
    using assms
    by (auto simp: new_epp_def ModelLoaderFactory_def main_setup_eq WithTracker_def startModelTracker_def Let_def
        split: sum.splits if_splits)
  show ?thesis
    by (rule exI [of _ "sys_start name cfg opts"], rule conjI [OF sys_init])
      (simp add: matches_def sys_start_def Let_def minit_def pm_start_def s)
qed

text \<open>C12: the process with atomic events refines the interleaved one. After any history of filter calls, requests
  and polls, one at a time, the tracker and the loader are those of a reachable state of the system in which
  the actions of requests and poller interleave, the poller waits, no notice is under way and exactly
  the requests of the history have run. So the properties of the interleaved system, which are about
  all interleavings, hold of the process that the other theorems are about.\<close>

theorem serial_process_is_a_run:
  assumes "serial decode job G s"
  shows "epp_reach s \<and> (\<exists>u. sysreach decode job u \<and> matches s u \<and> (\<forall>g. g \<notin> G \<longrightarrow> pcs (smL u) g = Lookup))"
  using assms
proof (induction rule: serial.induct)
  case (serial_start unmarshal name raw lib reg s)
  then show ?case using start_matches [OF serial_start, of decode job] epp_reach.start by fastforce
next
  case (serial_filter G s now req pods out s')
  then obtain u where u: "sysreach decode job u" "matches s u" "\<forall>g. g \<notin> G \<longrightarrow> pcs (smL u) g = Lookup" by blast
  have "eTracker s' = eTracker s \<and> eLoader s' = eLoader s"
    using serial_filter.hyps(2) by (auto simp: epp_filter_def split: prod.splits)
  with u(2) have "matches s' u" by (simp add: matches_def)
  with u serial_filter show ?case by (blast intro: epp_reach.filter)
next
  case (serial_request G s g request result m ip podKey await env s')
  then obtain u where u: "sysreach decode job u" "matches s u" "\<forall>g. g \<notin> G \<longrightarrow> pcs (smL u) g = Lookup" by blast
  have "pcs (smL u) g = Lookup" using u(3) serial_request.hyps(2) by blast
  from request_event [where job = job and g = g, OF u(2) serial_request.hyps(7,3,4,5,6) this]
  obtain u' where u': "sysruns decode job u u'" "matches s' u'" "pcs (smL u') = (pcs (smL u))(g := Returned)" by blast
  have "sysreach decode job u'" using u'(1) u(1) by (rule sysruns_reach)
  moreover have "\<forall>h. h \<notin> insert g G \<longrightarrow> pcs (smL u') h = Lookup" using u'(3) u(3) by simp
  ultimately show ?case using u'(2) serial_request by (blast intro: epp_reach.prerequest)
next
  case (serial_poll G s ord client net decode' unload s' lg)
  then obtain u where u: "sysreach decode job u" "matches s u" "\<forall>g. g \<notin> G \<longrightarrow> pcs (smL u) g = Lookup" by blast
  from poll_event [OF u(2) serial_poll.hyps(2,3)] obtain u' where u': "sysruns decode job u u'" "matches s' u'"
    "pcs (smL u') = pcs (smL u)" by blast
  have "sysreach decode job u'" using u'(1) u(1) by (rule sysruns_reach)
  then show ?case using u'(2,3) u(3) serial_poll by (metis epp_reach.poll)
qed

theorem serial_process_is_a_run_witness:
  "\<exists>s u. demo_served s \<and> sysreach demo_decode demo_job u \<and> matches s u \<and> pcs (smL u) 1 = Lookup \<and>
    loadedModels (mLoader (smL u)) (loadKey ''10.0.0.1'' ''llama'') = Some 7"
proof -
  obtain s where s: "demo_served s" "loadedModels (eLoader s) (loadKey ''10.0.0.1'' ''llama'') = Some 7"
    using demo_served by blast
  have "new_epp (\<lambda>raw c. Inr c) ''loader'' [] (main_setup default_lib Map.empty) = Inr demo_epp"
    by (simp add: new_epp_def ModelLoaderFactory_def main_setup_eq WithTracker_def demo_epp_def Let_def)
  from serial_start [OF this] have start: "serial demo_decode demo_job {} demo_epp" .
  have run: "serial demo_decode demo_job (insert 0 {}) s"
    by (rule serial_request [OF start _ demo_validate _ _ _ s(1) [unfolded demo_served_def]])
      (simp_all add: demo_job_def awaits_store_def)
  from serial_process_is_a_run [OF run] obtain u where
    "sysreach demo_decode demo_job u" "matches s u" "\<forall>g. g \<notin> {0} \<longrightarrow> pcs (smL u) g = Lookup" by auto
  with s show ?thesis by (intro exI [of _ s] exI [of _ u]) (simp add: matches_def)
qed

end
