(* ===== verification/Replicas.thy ===== *)
theory Replicas
  imports Poll_Refinement
begin

section \<open>Several replicas over the same model servers\<close>

text \<open>
  The deployment runs two replicas of the endpoint picker. Each has a tracker of its own, with its own
  poller and its own load signals, and all of them ask the same model servers. Here the pollers of
  \<open>Tracker_Machine\<close>, one for each replica, run over shared servers: an answer is what the server holds
  at that moment, and a request to unload takes the model from it. The safety comment of
  \<open>resolveDuplicates\<close>, that a pod is only told to unload when another one still has the model, is
  checked against the servers.
\<close>

record cluster =
  clServer :: "string \<Rightarrow> string set"
  clPoller :: "nat \<Rightarrow> pmachine"

text \<open>Who acts: a poller, a poller whose pod does not answer, the loader of a replica, or a server that loads.\<close>

datatype act = Poll nat | Unanswered nat | Marks nat | Loads

definition poller_at :: "nat \<Rightarrow> pmachine \<Rightarrow> cluster \<Rightarrow> cluster" where
  "poller_at i s c = c\<lparr>clPoller := (clPoller c)(i := s)\<rparr>"

definition unload_at :: "string \<Rightarrow> string \<Rightarrow> cluster \<Rightarrow> cluster" where
  "unload_at ip m c = c\<lparr>clServer := (clServer c)(ip := clServer c ip - {m})\<rparr>"

lemma cluster_simps [simp]:
  "clServer (poller_at i s c) = clServer c" "clPoller (poller_at i s c) = (clPoller c)(i := s)"
  "clServer (unload_at ip m c) = (clServer c)(ip := clServer c ip - {m})" "clPoller (unload_at ip m c) = clPoller c"
  by (simp_all add: poller_at_def unload_at_def)

fun asking :: "poll_phase \<Rightarrow> bool" where
  "asking (Querying (pod # pods) nxt ips) = True"
| "asking _ = False"

text \<open>
  A request to unload that the server carries out may still fail for the poller, when its answer is
  lost; one that does not reach the server always does. No server gives up a model by itself.
\<close>

inductive cstep :: "act \<Rightarrow> cluster \<Rightarrow> cluster \<Rightarrow> bool" where
  answered: "pmPhase (clPoller c i) = Querying (pod # pods) nxt ips \<Longrightarrow> finite (clServer c (PodIP pod)) \<Longrightarrow>
    poll_pod (\<lambda>_. Inr (clServer c (PodIP pod))) pod (pmT (clPoller c i), nxt, ips) = (t, nxt', ips') \<Longrightarrow>
    cstep (Poll i) c (poller_at i ((clPoller c i)\<lparr>pmT := t, pmPhase := Querying pods nxt' ips'\<rparr>) c)"
| unanswered: "pmPhase (clPoller c i) = Querying (pod # pods) nxt ips \<Longrightarrow>
    poll_pod (\<lambda>_. Inl e) pod (pmT (clPoller c i), nxt, ips) = (t, nxt', ips') \<Longrightarrow>
    cstep (Unanswered i) c (poller_at i ((clPoller c i)\<lparr>pmT := t, pmPhase := Querying pods nxt' ips'\<rparr>) c)"
| inside: "poller_step (clPoller c i) s \<Longrightarrow> \<not> asking (pmPhase (clPoller c i)) \<Longrightarrow>
    pmSent s = pmSent (clPoller c i) \<Longrightarrow> cstep (Poll i) c (poller_at i s c)"
| request: "poller_step (clPoller c i) s \<Longrightarrow> pmSent s = pmSent (clPoller c i) @ [(ip, m)] \<Longrightarrow>
    cstep (Poll i) c (poller_at i s (unload_at ip m c))"
| lost: "poller_step (clPoller c i) s \<Longrightarrow> pmSent s = pmSent (clPoller c i) @ [(ip, m)] \<Longrightarrow>
    (\<forall>l n rs ips k. pmPhase s \<noteq> Agreed l n rs ips k) \<Longrightarrow> cstep (Poll i) c (poller_at i s c)"
| marks: "other_step (clPoller c i) s \<Longrightarrow> cstep (Marks i) c (poller_at i s c)"
| loads: "cstep Loads c (c\<lparr>clServer := (clServer c)(ip := insert m (clServer c ip))\<rparr>)"

text \<open>Runs in which only the acts of \<open>A\<close> happen.\<close>

inductive cruns :: "act set \<Rightarrow> cluster \<Rightarrow> cluster \<Rightarrow> bool" for A c where
  cr_refl: "cruns A c c"
| cr_step: "cruns A c c' \<Longrightarrow> cstep a c' c'' \<Longrightarrow> a \<in> A \<Longrightarrow> cruns A c c''"

inductive creach :: "cluster \<Rightarrow> bool" where
  cl_init: "creach \<lparr>clServer = srv, clPoller = (\<lambda>i. pm_start (opts i) (observed i))\<rparr>"
| cl_step: "creach c \<Longrightarrow> cstep a c c' \<Longrightarrow> creach c'"

lemma creach_runs: "cruns A c c' \<Longrightarrow> creach c \<Longrightarrow> creach c'"
  by (induction rule: cruns.induct) (auto intro: cl_step)

text \<open>Each poller makes the steps of its machine, so all that is known of the machine holds of it.\<close>

lemma cstep_poller:
  assumes "cstep a c c'"
  shows "clPoller c' i = clPoller c i \<or> poller_step (clPoller c i) (clPoller c' i) \<or> other_step (clPoller c i) (clPoller c' i)"
  using assms by cases (auto intro: ask_pod)

lemma creach_preach: "creach c \<Longrightarrow> preach (clPoller c i)"
proof (induction rule: creach.induct)
  case (cl_step c a c')
  then show ?case using cstep_poller [of a c c' i] preach.poller preach.other by metis
qed (simp add: preach.init)

subsection \<open>One replica\<close>

text \<open>
  What a replica relies on is true of the servers, at each point of a poll. This is kept while no
  other replica polls, the pods answer, and the replica's own loader stays quiet.
\<close>

fun relies_on_truth :: "(string \<Rightarrow> string set) \<Rightarrow> pmachine \<Rightarrow> poll_phase \<Rightarrow> bool" where
  "relies_on_truth srv s (Querying pods nxt ips) = (\<forall>k r. nxt k = Some r \<longrightarrow> sets (pmT s) r \<subseteq> srv k)"
| "relies_on_truth srv s Polled = (\<forall>m. \<forall>k \<in> holder_set (pmT s) m. m \<in> srv k)"
| "relies_on_truth srv s (Counting dup ips) = (\<forall>m. \<forall>k \<in> pmHolders s m. m \<in> srv k)"
| "relies_on_truth srv s (Unloading rs ips n) =
     (n < MaxUnloadsPerCycle \<longrightarrow> distinct (map fst rs) \<and> (\<forall>m \<in> fst ` set rs. \<forall>k \<in> pmHolders s m. m \<in> srv k))"
| "relies_on_truth srv s _ = True"

abbreviation truthful :: "nat \<Rightarrow> cluster \<Rightarrow> bool" where
  "truthful i c \<equiv> relies_on_truth (clServer c) (clPoller c i) (pmPhase (clPoller c i))"

definition lone :: "nat \<Rightarrow> act set" where
  "lone i = {Poll i, Loads} \<union> {Marks j |j. j \<noteq> i}"

lemma truth_mono:
  "relies_on_truth srv s ph \<Longrightarrow> (\<And>k. srv k \<subseteq> srv' k) \<Longrightarrow> relies_on_truth srv' s ph"
  by (cases "(srv, s, ph)" rule: relies_on_truth.cases) (auto, blast+)

lemma count_pass_distinct:
  assumes "dedup_ranges ord" and "finite (dom dup)" and "count_pass ord dup t = (obs, ripe)"
  shows "distinct (map fst (sort_key fst ripe))"
proof -
  let ?ms = "ordDup ord (dom dup)"
  let ?obs = "delete_keys (resolved_models dup (ordObs ord (dom (dupObs t)))) (dupObs t)"
  have ms: "distinct ?ms" using assms(1,2) by (auto simp: dedup_ranges_def range_order_def)
  let ?P = "\<lambda>m. 2 \<le> length (holders dup m) \<and> dedupGracePolls t \<le> obs_count ?obs m + 1"
  have "ripe = snd (count_pass ord dup t)" by (simp add: assms(3))
  also have "\<dots> = map (\<lambda>m. (m, holders dup m)) (filter ?P ?ms)"
    unfolding count_pass_def count_dups_ripe [OF ms] by simp
  finally have "sort_key fst ripe = map (\<lambda>m. (m, holders dup m)) (sort (filter ?P ?ms))"
    by (simp only: sort_key_tagged)
  then have "map fst (sort_key fst ripe) = sort (filter ?P ?ms)" by (simp add: comp_def)
  then show ?thesis using ms by simp
qed

lemma truth_poll_pod:
  assumes "poll_inv t nxt" and "\<And>k r. nxt k = Some r \<Longrightarrow> sets t r \<subseteq> srv k"
    and "poll_pod (\<lambda>_. Inr (srv (PodIP pod))) pod (t, nxt, ips) = (t', nxt', ips')" and "nxt' k = Some r"
  shows "sets t' r \<subseteq> srv k"
  using assms poll_inv_ref [OF assms(1)]
  by (fastforce simp: poll_pod_def Let_def split: if_splits)

lemma truth_inside:
  assumes "poller_step s s'" and "pinv s" and "\<not> asking (pmPhase s)" and "pmSent s' = pmSent s"
    and "relies_on_truth srv s (pmPhase s)"
  shows "relies_on_truth srv s' (pmPhase s')"
  using assms(1)
proof cases
  case (swap_maps nxt ips)
  with assms(2,5) wf_poll_swap [of "pmT s" nxt ips] show ?thesis
    by (auto simp: pinv_def holder_set_def pod_set_poll_swap)
next
  case (count dup ips ord obs ripe)
  with assms(2,5) count_pass_distinct [OF count(3) _ count(4)] show ?thesis
    by (simp add: pinv_def)
next
  case (forget m rs ips n)
  with assms(2) show ?thesis by (simp add: pinv_def MaxUnloadsPerCycle_def)
qed (use assms(3-5) in \<open>auto simp: asking.simps\<close>)

lemma request_phase:
  assumes "poller_step s s'" and "pmSent s' = pmSent s @ [(ip, m)]"
  obtains hs rs ips n pr where "pmPhase s = Unloading ((m, hs) # rs) ips n" "n < MaxUnloadsPerCycle"
    "loser_ip ips (pickLoser pr hs) = ip" "ip \<noteq> []" "pmHolders s' = pmHolders s"
    "pmPhase s' = Unloading rs ips n \<or> (\<exists>l. pmPhase s' = Agreed l m rs ips n)"
  using assms(1)
proof cases
  case (refused m' hs rs ips n pr ip')
  with assms(2) show ?thesis by (intro that [of hs rs ips n pr]) simp_all
next
  case (agreed m' hs rs ips n pr l ip')
  with assms(2) show ?thesis by (intro that [of hs rs ips n pr]) simp_all
qed (use assms(2) in simp_all)

lemma truth_request:
  assumes "poller_step s s'" and "pmSent s' = pmSent s @ [(ip, m)]" and "relies_on_truth srv s (pmPhase s)"
    and "\<And>k. srv k - srv' k \<subseteq> {m}"
  shows "relies_on_truth srv' s' (pmPhase s')"
  using request_phase [OF assms(1,2)]
proof cases
  case (1 hs rs ips n pr)
  have rs: "distinct (map fst rs)" "m \<notin> fst ` set rs"
    "\<And>k m'. k \<in> pmHolders s m' \<Longrightarrow> m' \<in> fst ` set rs \<Longrightarrow> m' \<in> srv k"
    using assms(3) 1(1,2) by auto
  then have "k \<in> pmHolders s m' \<Longrightarrow> m' \<in> fst ` set rs \<Longrightarrow> m' \<in> srv' k" for k m'
    using assms(4) [of k] by blast
  with rs(1) show ?thesis using 1(5,6) by auto
qed

lemma truth_cstep:
  assumes "cstep a c c'" and "a \<in> lone i" and "creach c" and "truthful i c"
  shows "truthful i c'"
  using assms(1)
proof cases
  case (answered j pod pods nxt ips t nxt' ips')
  then have "j = i" using assms(2) by (auto simp: lone_def)
  moreover have "poll_inv (pmT (clPoller c i)) nxt"
    using preach_pinv [OF creach_preach [OF assms(3), of i]] answered(3) \<open>j = i\<close> by (simp add: pinv_def)
  ultimately show ?thesis
    using truth_poll_pod [where srv = "clServer c" and pod = pod and t = "pmT (clPoller c i)" and t' = t and
        nxt = nxt and nxt' = nxt' and ips = ips and ips' = ips'] answered(2,3,5) assms(4) by auto
next
  case (inside j s)
  then have "j = i" using assms(2) by (auto simp: lone_def)
  with inside assms(4) show ?thesis
    using truth_inside [OF inside(3) preach_pinv [OF creach_preach [OF assms(3)]] inside(4,5), of "clServer c"] by simp
next
  case (request j s ip m)
  then have "j = i" using assms(2) by (auto simp: lone_def)
  moreover have "clServer c k - clServer c' k \<subseteq> {m}" for k using request by auto
  ultimately show ?thesis
    using request assms(4) truth_request [OF request(3,4), of "clServer c" "clServer c'"] by simp
next
  case (lost j s ip m)
  then have "j = i" using assms(2) by (auto simp: lone_def)
  with lost assms(4) show ?thesis
    using truth_request [OF lost(3,4), of "clServer c" "clServer c"] by simp
next
  case (loads ip m)
  then have "clServer c k \<subseteq> clServer c' k" for k by auto
  from truth_mono [OF assms(4) this] loads show ?thesis by (simp add: fun_upd_def)
qed (use assms(2,4) in \<open>auto simp: lone_def\<close>)

lemma truth_run:
  "cruns (lone i) c c' \<Longrightarrow> creach c \<Longrightarrow> truthful i c \<Longrightarrow> creach c' \<and> truthful i c'"
  by (induction rule: cruns.induct) (auto intro: cl_step truth_cstep)

text \<open>C2: with one replica the dedup never takes the last copy. From the start of a poll on, as long as the
  other replicas do not poll, the pods that are asked answer, the replica's own loader marks nothing, and
  no server gives up a model by itself (\<open>cstep\<close> has no eviction and no restart), each request to unload a model leaves the model on another server, however many polls go by,
  whichever requests are refused or lose their answers, and whatever the servers load meanwhile.\<close>

theorem lone_replica_keeps_a_copy:
  assumes "creach c" and "pmPhase (clPoller c i) = Waiting" and "cruns (lone i) c c'"
    and "cstep (Poll i) c' c''" and "pmSent (clPoller c'' i) = pmSent (clPoller c' i) @ [(ip, m)]"
  shows "\<exists>q. q \<noteq> ip \<and> m \<in> clServer c'' q"
proof -
  let ?s = "clPoller c' i" and ?s' = "clPoller c'' i"
  have reach: "creach c'" and truth: "truthful i c'"
    using truth_run [OF assms(3,1)] assms(2) by simp_all
  have step: "poller_step ?s ?s'" and srv: "\<And>q. q \<noteq> ip \<Longrightarrow> clServer c'' q = clServer c' q"
    using assms(4,5) by (cases; auto intro: ask_pod)+
  from request_phase [OF step assms(5)] show ?thesis
  proof cases
    case (1 hs rs ips n pr)
    have two: "ip \<in> pmHolders ?s m" "2 \<le> card (pmHolders ?s m)"
      using request_facts [OF creach_preach [OF reach] 1(1-4)] by simp_all
    then have "\<not> pmHolders ?s m \<subseteq> {ip}" using card_mono [of "{ip}" "pmHolders ?s m"] by auto
    then obtain q where "q \<in> pmHolders ?s m" "q \<noteq> ip" by blast
    moreover from this have "m \<in> clServer c' q" using truth 1(1,2) by auto
    ultimately show ?thesis using srv by auto
  qed
qed

subsection \<open>Two replicas\<close>

text \<open>
  A replica that has polled and is about to look for duplicates: it found \<open>m\<close> on the pods of \<open>H\<close>, and
  \<open>m\<close> alone is ripe.
\<close>

definition just_polled :: "string \<Rightarrow> string set \<Rightarrow> pmachine \<Rightarrow> bool" where
  "just_polled m H s \<longleftrightarrow>
     pmPhase s = Polled \<and> hasPressure (pmT s) \<and> firstPoll (pmT s) \<and> ripe_models (pmT s) = {m} \<and>
     holder_set (pmT s) m = H \<and> (\<forall>k \<in> H. k \<noteq> [] \<and> podIP (pmT s) k = Some k)"

lemma filter_single: "distinct xs \<Longrightarrow> x \<in> set xs \<Longrightarrow> filter (\<lambda>y. y = x) xs = [x]"
  by (induction xs) (auto simp: filter_empty_conv)

lemma single_ripe:
  assumes "wf_tracker t" and "ripe_models t = {m}"
  shows "snd (count_pass sorted_orders (build_dup sorted_orders t) t) = [(m, holders (build_dup sorted_orders t) m)]"
proof -
  let ?ms = "ordDup sorted_orders (dom (build_dup sorted_orders t))"
  have ms: "distinct ?ms" "m \<in> set ?ms"
    using dedup_ranges_sorted finite_dom_build_dup [OF assms(1) dedup_ranges_sorted]
      duplicated_in_dup [OF assms(1) dedup_ranges_sorted] assms(2)
    by (auto simp: dedup_ranges_def range_order_def ripe_models_def)
  show ?thesis
    using count_dups_result(2) [OF assms(1) dedup_ranges_sorted] assms(2) filter_single [OF ms]
    by (simp add: count_pass_def cleared_obs_def)
qed

lemma pass_asks:
  fixes pr :: "string \<Rightarrow> float64"
  assumes "creach c" and "just_polled m H (clPoller c i)"
  defines "l \<equiv> pickLoser pr (sorted_list_of_set H)"
  shows "\<exists>c' c''. cruns {Poll i} c c' \<and> pmSent (clPoller c' i) = pmSent (clPoller c i) \<and> cstep (Poll i) c' c'' \<and>
    clServer c'' = (clServer c)(l := clServer c l - {m}) \<and> clPoller c'' = (clPoller c)(i := clPoller c'' i) \<and>
    pmSent (clPoller c'' i) = pmSent (clPoller c i) @ [(l, m)]"
proof -
  let ?s = "clPoller c i" and ?t = "pmT (clPoller c i)"
  let ?dup = "build_dup sorted_orders ?t"
  have t: "pmPhase ?s = Polled" "hasPressure ?t" "firstPoll ?t" "ripe_models ?t = {m}" "holder_set ?t m = H"
    "\<And>k. k \<in> H \<Longrightarrow> k \<noteq> [] \<and> podIP ?t k = Some k"
    using assms(2) by (auto simp: just_polled_def)
  have wf: "wf_tracker ?t" using preach_pinv [OF creach_preach [OF assms(1)]] by (simp add: pinv_def)
  note hs = holders_build_dup [OF wf dedup_ranges_sorted, of m, unfolded t(5)]
  have "2 \<le> card H" using t(4,5) by (auto simp: ripe_models_def duplicated_def)
  then have "finite H" "H \<noteq> {}" by (auto intro: card_ge_0_finite)
  then have H: "set (sorted_list_of_set H) = H" "sorted_list_of_set H \<noteq> []" by simp_all
  have l: "pickLoser pr (holders ?dup m) = l" unfolding l_def
    by (rule pickLoser_set) (simp_all add: hs(1,2) H(1))
  have "l \<in> H" unfolding l_def using pickLoser_in [OF H(2), of pr] H(1) by simp
  then have ip: "loser_ip (podIP ?t) l = l" "l \<noteq> []" using t(6) by (simp_all add: loser_ip_def)
  obtain obs ripe where res: "count_pass sorted_orders ?dup ?t = (obs, ripe)" by fastforce
  then have ripe: "ripe = [(m, holders ?dup m)]" using single_ripe [OF wf t(4)] by simp
  define s1 where "s1 = ?s\<lparr>pmPhase := Counting ?dup (podIP ?t), pmHolders := holder_set ?t\<rparr>"
  define s2 where "s2 = s1\<lparr>pmT := (pmT s1)\<lparr>dupObs := obs\<rparr>,
    pmPhase := (if ripe = [] then Waiting else Unloading (sort_key fst ripe) (podIP ?t) 0),
    pmStreak := (\<lambda>n. if 2 \<le> card (pmHolders s1 n) then pmStreak s1 n + 1 else 0)\<rparr>"
  define s3 where "s3 = s2\<lparr>pmPhase := Agreed l m [] (podIP ?t) 0, pmSent := pmSent s2 @ [(l, m)]\<rparr>"
  define c1 where "c1 = poller_at i s1 c"
  define c2 where "c2 = poller_at i s2 c1"
  define c3 where "c3 = poller_at i s3 (unload_at l m c2)"
  have "poller_step ?s s1" unfolding s1_def by (rule take_snapshot) (simp_all add: t dedup_ranges_sorted)
  then have 1: "cstep (Poll i) c c1" unfolding c1_def by (rule inside) (simp_all add: t s1_def)
  have "poller_step s1 s2"
    unfolding s2_def by (rule count [of _ ?dup _ sorted_orders]) (simp_all add: s1_def res dedup_ranges_sorted)
  then have 2: "cstep (Poll i) c1 c2" unfolding c2_def by (intro inside) (simp_all add: c1_def s1_def s2_def)
  have "poller_step s2 s3" unfolding s3_def
    by (rule agreed [of _ m "holders ?dup m" _ _ _ pr]) (simp_all add: s2_def ripe l ip MaxUnloadsPerCycle_def)
  then have 3: "cstep (Poll i) c2 c3" unfolding c3_def by (intro request) (simp_all add: c2_def s3_def)
  have "cruns {Poll i} c c2" by (rule cr_step [OF cr_step [OF cr_refl 1] 2]) simp_all
  with 3 show ?thesis
    by (intro exI [of _ c2] exI [of _ c3] conjI) (simp_all add: c3_def c2_def c1_def s3_def s2_def s1_def)
qed

lemma pass_unloads:
  fixes pr :: "string \<Rightarrow> float64"
  assumes "creach c" and "just_polled m H (clPoller c i)"
  defines "l \<equiv> pickLoser pr (sorted_list_of_set H)"
  shows "\<exists>c'. cruns {Poll i} c c' \<and> clServer c' = (clServer c)(l := clServer c l - {m}) \<and>
    clPoller c' = (clPoller c)(i := clPoller c' i) \<and> pmSent (clPoller c' i) = pmSent (clPoller c i) @ [(l, m)]"
  using pass_asks [OF assms(1,2), of pr] cr_step [of "{Poll i}" c _ "Poll i"] unfolding l_def by blast

lemma cruns_trans: "cruns A c' c'' \<Longrightarrow> cruns A c c' \<Longrightarrow> cruns A c c''"
  by (induction rule: cruns.induct) (auto intro: cr_step)

lemma cruns_mono: "cruns A c c' \<Longrightarrow> A \<subseteq> B \<Longrightarrow> cruns B c c'"
  by (induction rule: cruns.induct) (auto intro: cr_refl cr_step)

text \<open>C3: with two replicas the dedup can take both copies. When two replicas have polled and each saw a ripe
  model on the same two pods, the only ones that have it, and their load signals, which each replica
  gathers from its own requests, rank the two pods differently, then the passes that follow, without
  any failure, tell one pod each to unload: no server has the model any more.\<close>

theorem two_replicas_take_both_copies:
  assumes "creach c" and "i \<noteq> j" and "just_polled m {a, b} (clPoller c i)" and "just_polled m {a, b} (clPoller c j)"
    and "pickLoser pr (sorted_list_of_set {a, b}) = a" and "pickLoser pr' (sorted_list_of_set {a, b}) = b"
    and "\<And>q. m \<in> clServer c q \<Longrightarrow> q \<in> {a, b}"
  shows "\<exists>c'. cruns {Poll i, Poll j} c c' \<and> (\<forall>q. m \<notin> clServer c' q) \<and>
    pmSent (clPoller c' i) = pmSent (clPoller c i) @ [(a, m)] \<and>
    pmSent (clPoller c' j) = pmSent (clPoller c j) @ [(b, m)]"
proof -
  from pass_unloads [OF assms(1,3), of pr] obtain c1 where
    1: "cruns {Poll i} c c1" "clServer c1 = (clServer c)(a := clServer c a - {m})"
      "clPoller c1 = (clPoller c)(i := clPoller c1 i)" "pmSent (clPoller c1 i) = pmSent (clPoller c i) @ [(a, m)]"
    unfolding assms(5) by blast
  have same: "clPoller c1 j = clPoller c j" using assms(2) fun_cong [OF 1(3), of j] by simp
  have reach: "creach c1" by (rule creach_runs [OF 1(1) assms(1)])
  from assms(4) have "just_polled m {a, b} (clPoller c1 j)" by (simp add: same)
  from pass_unloads [OF reach this, of pr'] obtain c2 where
    2: "cruns {Poll j} c1 c2" "clServer c2 = (clServer c1)(b := clServer c1 b - {m})"
      "clPoller c2 = (clPoller c1)(j := clPoller c2 j)" "pmSent (clPoller c2 j) = pmSent (clPoller c1 j) @ [(b, m)]"
    unfolding assms(6) by blast
  have "cruns {Poll i, Poll j} c c2"
    by (rule cruns_trans [OF cruns_mono [OF 2(1)] cruns_mono [OF 1(1)]]) auto
  moreover have "m \<notin> clServer c2 q" for q using assms(7) [of q] by (auto simp: 2(2) 1(2))
  moreover have "clPoller c2 i = clPoller c1 i" using assms(2) fun_cong [OF 2(3), of i] by simp
  ultimately show ?thesis using 1(4) 2(4) same by auto
qed

text \<open>
  Two replicas with a grace of one poll, and two servers that hold \<open>llama\<close>. Each replica polls both
  pods and exchanges its maps.
\<close>

definition demo_servers :: "string \<Rightarrow> string set" where
  "demo_servers ip = (if ip = ''10.0.0.1'' \<or> ip = ''10.0.0.2'' then {''llama''} else {})"

definition demo_cluster :: cluster where
  "demo_cluster = \<lparr>clServer = demo_servers, clPoller = (\<lambda>i. demo_pm)\<rparr>"

definition demo_polled :: pmachine where
  "demo_polled = demo_two\<lparr>pmT := poll_swap [''10.0.0.1'' \<mapsto> 0, ''10.0.0.2'' \<mapsto> 1]
     [''10.0.0.1'' \<mapsto> ''10.0.0.1'', ''10.0.0.2'' \<mapsto> ''10.0.0.2''] (pmT demo_two), pmPhase := Polled\<rparr>"

lemma demo_replica_polls:
  assumes "clPoller c i = demo_pm" and "clServer c = demo_servers"
  shows "cruns {Poll i} c (poller_at i demo_polled c)"
proof -
  let ?p1 = "demo_server ''10.0.0.1''" and ?p2 = "demo_server ''10.0.0.2''"
  define s1 where "s1 = demo_pm\<lparr>pmPhase := Querying [?p1, ?p2] Map.empty Map.empty\<rparr>"
  define s2 where "s2 = demo_pm\<lparr>pmT := add_set {''llama''} (pmT demo_pm),
    pmPhase := Querying [?p2] [''10.0.0.1'' \<mapsto> 0] [''10.0.0.1'' \<mapsto> ''10.0.0.1'']\<rparr>"
  define c1 where "c1 = poller_at i s1 c"
  define c2 where "c2 = poller_at i s2 c1"
  define c3 where "c3 = poller_at i demo_two c2"
  have srv: "demo_servers ''10.0.0.1'' = {''llama''}" "demo_servers ''10.0.0.2'' = {''llama''}"
    by (simp_all add: demo_servers_def)
  have at: "clPoller c1 i = s1" "clPoller c2 i = s2" "clPoller c3 i = demo_two"
    "clServer c1 = demo_servers" "clServer c2 = demo_servers"
    by (simp_all add: c1_def c2_def c3_def assms)
  have "poller_step demo_pm s1" unfolding s1_def by (rule list_pods) (simp add: pm_start_def)
  then have 1: "cstep (Poll i) c c1"
    unfolding c1_def by (intro inside) (simp_all add: assms s1_def pm_start_def)
  have "cstep (Poll i) c1 (poller_at i ((clPoller c1 i)\<lparr>pmT := add_set {''llama''} (pmT demo_pm),
      pmPhase := Querying [?p2] [''10.0.0.1'' \<mapsto> 0] [''10.0.0.1'' \<mapsto> ''10.0.0.1'']\<rparr>) c1)"
    by (rule answered [of _ _ ?p1 "[?p2]" Map.empty Map.empty])
      (simp_all add: at s1_def srv poll_pod_def Let_def demo_start_fields(2))
  then have 2: "cstep (Poll i) c1 c2" by (simp add: c2_def at s2_def s1_def)
  have "cstep (Poll i) c2 (poller_at i ((clPoller c2 i)\<lparr>pmT := add_set {''llama''} (pmT s2),
      pmPhase := Querying [] [''10.0.0.1'' \<mapsto> 0, ''10.0.0.2'' \<mapsto> 1]
        [''10.0.0.1'' \<mapsto> ''10.0.0.1'', ''10.0.0.2'' \<mapsto> ''10.0.0.2'']\<rparr>) c2)"
    by (rule answered [of _ _ ?p2 "[]" "[''10.0.0.1'' \<mapsto> 0]" "[''10.0.0.1'' \<mapsto> ''10.0.0.1'']"])
      (simp_all add: at s2_def srv poll_pod_def Let_def demo_start_fields(2))
  then have 3: "cstep (Poll i) c2 c3" by (simp add: c3_def at s2_def demo_two_def)
  have "poller_step demo_two demo_polled" unfolding demo_polled_def by (rule swap_maps) (simp add: demo_two_def)
  then have 4: "cstep (Poll i) c3 (poller_at i demo_polled c3)"
    by (intro inside) (simp_all add: at demo_two_def demo_polled_def)
  have "cruns {Poll i} c (poller_at i demo_polled c3)"
    by (rule cr_step [OF cr_step [OF cr_step [OF cr_step [OF cr_refl 1] 2] 3] 4]) simp_all
  then show ?thesis by (simp add: c3_def c2_def c1_def poller_at_def)
qed

lemma demo_just_polled: "just_polled ''llama'' {''10.0.0.1'', ''10.0.0.2''} demo_polled"
proof -
  have t: "loaded (pmT demo_polled) = [''10.0.0.1'' \<mapsto> 0, ''10.0.0.2'' \<mapsto> 1]" "firstPoll (pmT demo_polled)"
    "podIP (pmT demo_polled) = [''10.0.0.1'' \<mapsto> ''10.0.0.1'', ''10.0.0.2'' \<mapsto> ''10.0.0.2'']"
    "hasPressure (pmT demo_polled)" "dupObs (pmT demo_polled) = Map.empty" "dedupGracePolls (pmT demo_polled) = 1"
    "sets (pmT demo_polled) 0 = {''llama''}" "sets (pmT demo_polled) (Suc 0) = {''llama''}"
    by (simp_all add: demo_polled_def poll_swap_def demo_two_def demo_start_fields(2-))
  have hold: "holder_set (pmT demo_polled) m = (if m = ''llama'' then {''10.0.0.1'', ''10.0.0.2''} else {})" for m
    by (auto simp: holder_set_def pod_set_apply t split: option.splits if_splits)
  have "ripe_models (pmT demo_polled) = {''llama''}"
    by (auto simp: ripe_models_def duplicated_def hold obs_count_def t split: if_splits)
  then show ?thesis by (simp add: just_polled_def t hold) (simp add: demo_polled_def)
qed

lemma demo_cluster_reach: "creach demo_cluster"
  unfolding demo_cluster_def by (rule cl_init)

text \<open>The signals of the two replicas: each has the other pod under load.\<close>

definition demo_load :: "string \<Rightarrow> string \<Rightarrow> float64" where
  "demo_load busy ip = (if ip = busy then Fin 1 else Fin 0)"

lemma demo_losers:
  "pickLoser (demo_load ''10.0.0.2'') [''10.0.0.1'', ''10.0.0.2''] = ''10.0.0.1''"
  "pickLoser (demo_load ''10.0.0.1'') [''10.0.0.1'', ''10.0.0.2''] = ''10.0.0.2''"
  by (simp_all add: pickLoser_def demo_load_def)

theorem two_replicas_take_both_copies_witness:
  "\<exists>c. cruns {Poll 0, Poll 1} demo_cluster c \<and> ''llama'' \<in> clServer demo_cluster ''10.0.0.1'' \<and>
    (\<forall>q. ''llama'' \<notin> clServer c q)"
proof -
  let ?c1 = "poller_at 0 demo_polled demo_cluster"
  let ?c2 = "poller_at 1 demo_polled ?c1"
  have 0: "cruns {Poll 0} demo_cluster ?c1" by (rule demo_replica_polls) (simp_all add: demo_cluster_def)
  have 1: "cruns {Poll 1} ?c1 ?c2" by (rule demo_replica_polls) (simp_all add: demo_cluster_def)
  have run: "cruns {Poll 0, Poll 1} demo_cluster ?c2"
    by (rule cruns_trans [OF cruns_mono [OF 1] cruns_mono [OF 0]]) simp_all
  have reach: "creach ?c2" by (rule creach_runs [OF run demo_cluster_reach])
  have "sorted_list_of_set {''10.0.0.1'', ''10.0.0.2''} = [''10.0.0.1'', ''10.0.0.2'']" by simp
  note losers = demo_losers [folded this]
  have "q \<in> {''10.0.0.1'', ''10.0.0.2''}" if "''llama'' \<in> clServer ?c2 q" for q
    using that by (auto simp: demo_cluster_def demo_servers_def split: if_splits)
  then have "\<exists>c. cruns {Poll 0, Poll 1} ?c2 c \<and> (\<forall>q. ''llama'' \<notin> clServer c q) \<and>
      pmSent (clPoller c 0) = pmSent (clPoller ?c2 0) @ [(''10.0.0.1'', ''llama'')] \<and>
      pmSent (clPoller c 1) = pmSent (clPoller ?c2 1) @ [(''10.0.0.2'', ''llama'')]"
    by (intro two_replicas_take_both_copies [OF reach _ _ _ losers]) (simp_all add: demo_just_polled)
  then obtain c where c: "cruns {Poll 0, Poll 1} ?c2 c" "\<forall>q. ''llama'' \<notin> clServer c q" by blast
  have "''llama'' \<in> clServer demo_cluster ''10.0.0.1''" by (simp add: demo_cluster_def demo_servers_def)
  with c(2) cruns_trans [OF c(1) run] show ?thesis by blast
qed

text \<open>The first replica alone, from the start of its poll to the request.\<close>

theorem lone_replica_keeps_a_copy_witness:
  "\<exists>c. cruns (lone 0) demo_cluster c \<and> pmSent (clPoller c 0) = [(''10.0.0.1'', ''llama'')] \<and>
    (\<exists>q. q \<noteq> ''10.0.0.1'' \<and> ''llama'' \<in> clServer c q)"
proof -
  let ?c1 = "poller_at 0 demo_polled demo_cluster"
  have start: "pmPhase (clPoller demo_cluster 0) = Waiting" by (simp add: demo_cluster_def pm_start_def)
  have sent: "pmSent (clPoller ?c1 0) = []" by (simp add: demo_polled_def demo_two_def demo_start_fields)
  have sub: "{Poll 0} \<subseteq> lone 0" by (simp add: lone_def)
  have 0: "cruns {Poll 0} demo_cluster ?c1" by (rule demo_replica_polls) (simp_all add: demo_cluster_def)
  have polled: "just_polled ''llama'' {''10.0.0.1'', ''10.0.0.2''} (clPoller ?c1 0)" by (simp add: demo_just_polled)
  have loser: "pickLoser (demo_load ''10.0.0.2'') (sorted_list_of_set {''10.0.0.1'', ''10.0.0.2''}) = ''10.0.0.1''"
    using demo_losers(1) by simp
  obtain c c' where c: "cruns {Poll 0} ?c1 c" "pmSent (clPoller c 0) = pmSent (clPoller ?c1 0)"
    "cstep (Poll 0) c c'" "pmSent (clPoller c' 0) = pmSent (clPoller ?c1 0) @ [(''10.0.0.1'', ''llama'')]"
    using pass_asks [OF creach_runs [OF 0 demo_cluster_reach] polled, of "demo_load ''10.0.0.2''"] unfolding loser by blast
  have run: "cruns (lone 0) demo_cluster c"
    by (rule cruns_mono [OF cruns_trans [OF c(1) 0] sub])
  have "\<exists>q. q \<noteq> ''10.0.0.1'' \<and> ''llama'' \<in> clServer c' q"
    by (rule lone_replica_keeps_a_copy [OF demo_cluster_reach start run c(3)]) (simp add: c(2,4))
  moreover have "cruns (lone 0) demo_cluster c'" by (rule cr_step [OF run c(3)]) (simp add: lone_def)
  ultimately show ?thesis using c(4) sent by auto
qed

end
