(* ===== verification/Dedup_Converges.thy ===== *)
theory Dedup_Converges
  imports Tracker_Machine
begin

section \<open>Duplicates disappear\<close>

text \<open>
  What the pass over duplicates is for: that a model which several servers hold ends up on one. Here a
  tracker polls the same listed pods again and again; the pods answer with what they hold, and carry
  out the requests to unload. The orders of Go's maps and the load signals are different in each round.
\<close>

definition unload_all :: "(string \<times> string) list \<Rightarrow> (string \<Rightarrow> string set) \<Rightarrow> (string \<Rightarrow> string set)" where
  "unload_all reqs srv = fold (\<lambda>(ip, m) srv. srv(ip := srv ip - {m})) reqs srv"

definition dedup_round ::
  "pod list \<Rightarrow> dedup_orders \<times> (string \<Rightarrow> float64) \<Rightarrow> tracker \<times> (string \<Rightarrow> string set) \<Rightarrow>
   tracker \<times> (string \<Rightarrow> string set)" where
  "dedup_round pods r ts =
     (case ts of (t, srv) \<Rightarrow>
        case pollOnce (fst r) (\<lambda>opts. Inr pods) (\<lambda>ip. Inr (srv ip)) (snd r) (\<lambda>ip m. None) t of
          (t', lg) \<Rightarrow> (t', unload_all (attempts lg) srv))"

definition dedup_rounds ::
  "pod list \<Rightarrow> (dedup_orders \<times> (string \<Rightarrow> float64)) list \<Rightarrow> tracker \<times> (string \<Rightarrow> string set) \<Rightarrow>
   tracker \<times> (string \<Rightarrow> string set)" where
  "dedup_rounds pods rs ts = fold (dedup_round pods) rs ts"

text \<open>The servers that hold a model, the models that two hold, all copies, and the copies beyond the first.\<close>

definition copies :: "pod list \<Rightarrow> (string \<Rightarrow> string set) \<Rightarrow> string \<Rightarrow> string set" where
  "copies pods srv m = {ip \<in> listed_ips pods. m \<in> srv ip}"

definition doubled :: "pod list \<Rightarrow> (string \<Rightarrow> string set) \<Rightarrow> string set" where
  "doubled pods srv = {m. 2 \<le> card (copies pods srv m)}"

definition all_copies :: "pod list \<Rightarrow> (string \<Rightarrow> string set) \<Rightarrow> nat" where
  "all_copies pods srv = (\<Sum>ip \<in> listed_ips pods. card (srv ip))"

definition all_models :: "pod list \<Rightarrow> (string \<Rightarrow> string set) \<Rightarrow> string set" where
  "all_models pods srv = (\<Union>ip \<in> listed_ips pods. srv ip)"

definition excess :: "pod list \<Rightarrow> (string \<Rightarrow> string set) \<Rightarrow> nat" where
  "excess pods srv = all_copies pods srv - card (all_models pods srv)"

lemma finite_listed_ips [simp]: "finite (listed_ips pods)"
  by (rule finite_subset [of _ "PodIP ` set pods"]) (auto simp: listed_ips_def)

lemma finite_copies [simp]: "finite (copies pods srv m)"
  by (rule finite_subset [OF _ finite_listed_ips]) (auto simp: copies_def)

subsection \<open>One round\<close>

text \<open>A tracker that looks for duplicates, with counters that count.\<close>

definition dedup_ready :: "tracker \<Rightarrow> bool" where
  "dedup_ready t \<longleftrightarrow> wf_tracker t \<and> hasPressure t \<and> (\<forall>m. 0 \<le> obs_count (dupObs t) m)"

lemma choice_frame:
  "hasPressure (apply_choice c t) = hasPressure t" "dedupGracePolls (apply_choice c t) = dedupGracePolls t"
  "0 \<le> obs_count (dupObs t) n \<Longrightarrow> 0 \<le> obs_count (dupObs (apply_choice c t)) n"
  by (auto simp: apply_choice_def forget_obs_def MarkUnloaded_def obs_count_def split: option.splits prod.splits if_splits)

text \<open>
  After the poll the tracker's view of the listed pods is what the servers hold. When no model is ripe
  nothing happens; otherwise the first ripe model is taken from one of its servers.
\<close>

lemma dedup_round_cases:
  assumes ready: "dedup_ready t" and ord: "dedup_ranges (fst r)" and fin: "\<And>ip. finite (srv ip)"
    and round: "dedup_round pods r (t, srv) = (t', srv')"
  obtains (quiet) "srv' = srv" "dedup_ready t'" "dedupGracePolls t' = dedupGracePolls t"
      "\<And>m. m \<in> doubled pods srv \<Longrightarrow>
        obs_count (dupObs t) m + 1 < dedupGracePolls t \<and> obs_count (dupObs t') m = obs_count (dupObs t) m + 1"
  | (unloads) l m where "dedup_ready t'" "dedupGracePolls t' = dedupGracePolls t" "m \<in> doubled pods srv"
      "l \<in> copies pods srv m" "srv' = srv(l := srv l - {m})"
proof -
  let ?query = "\<lambda>ip. Inr (srv ip) :: query_error + string set"
  define t1 where "t1 = poll_update ?query pods t"
  have wf: "wf_tracker t" and pr: "hasPressure t" and pos: "\<And>m. 0 \<le> obs_count (dupObs t) m"
    using ready by (auto simp: dedup_ready_def)
  have poll: "wf_tracker t1" "pod_set t1 = view_poll ?query (listed_ips pods) (pod_set t)"
    "podIP t1 = (\<lambda>p. if p \<in> listed_ips pods then Some p else None)" "firstPoll t1"
    unfolding t1_def by (rule poll_update_correct [OF wf]; use fin in auto)+
  note frame = poll_update_frame [of ?query pods t, folded t1_def]
  have hold: "holder_set t1 m = copies pods srv m" for m
    by (auto simp: holder_set_def poll(2) view_poll_def copies_def split: if_splits)
  have dup: "duplicated t1 = doubled pods srv" by (simp add: duplicated_def doubled_def hold)
  let ?t2 = "t1\<lparr>dupObs := next_obs t1\<rparr>"
  have wf2: "wf_tracker ?t2" by (rule wf_dupObs [OF poll(1) finite_dom_next_obs [OF poll(1)]])
  have pos2: "0 \<le> obs_count (dupObs ?t2) m" for m
    using pos [of m] by (simp add: next_obs_def obs_count_def frame split: if_splits)
  obtain as c where sc: "dedup_scan (snd r) (\<lambda>ip m. None) (podIP t1) (ripe_list t1) = (as, c)" by fastforce
  have "dedup_round pods r (t, srv) = (apply_choice c ?t2, unload_all as srv)"
    by (simp add: dedup_round_def pollOnce_def listPods_def t1_def [symmetric]
        resolveDuplicates_scan [OF poll(1) ord _ poll(4)] frame pr sc)
  then have out: "t' = apply_choice c ?t2" "srv' = unload_all as srv" using round by simp_all
  have ready': "dedup_ready t'"
    using wf2 pos2 pr by (simp add: out dedup_ready_def choice_frame wf_apply_choice frame)
  have grace: "dedupGracePolls t' = dedupGracePolls t" by (simp add: out choice_frame frame)
  show thesis
  proof (cases "ripe_list t1")
    case Nil
    then have "ripe_models t1 = {}" 
      using finite_subset [OF _ finite_duplicated [OF poll(1)], of "ripe_models t1"]
      by (auto simp: ripe_list_def ripe_models_def)
    moreover have "as = []" "c = None" using sc Nil by simp_all
    ultimately show thesis
      by (intro quiet ready' grace)
        (auto simp: out unload_all_def apply_choice_def ripe_models_def dup next_obs_def obs_count_def frame)
  next
    case (Cons e rs)
    obtain m hs where e: "e = (m, hs)" by fastforce
    have ripe: "m \<in> ripe_models t1" "hs = sorted_list_of_set (holder_set t1 m)"
      using ripe_listD [of m hs t1] poll(1) by (simp_all add: Cons e)
    then have m: "m \<in> doubled pods srv" by (simp add: ripe_models_def dup)
    let ?l = "pickLoser (snd r) hs"
    have "hs \<noteq> []" "set hs = copies pods srv m"
      using duplicated_holders [OF poll(1), of m] ripe by (simp_all add: ripe_models_def hold)
    then have l: "?l \<in> copies pods srv m" using pickLoser_in by blast
    then have ip: "podIP t1 ?l = Some ?l" "?l \<noteq> []" by (auto simp: poll(3) copies_def listed_ips_def)
    then have "as = [(?l, m)]" using sc by (simp add: Cons e Let_def)
    then have "srv' = srv(?l := srv ?l - {m})" by (simp add: out unload_all_def)
    then show thesis by (rule unloads [OF ready' grace m l])
  qed
qed

text \<open>What an unload does to the copies: one fewer, and no model is lost.\<close>

lemma unload_effect:
  assumes "m \<in> doubled pods srv" and "l \<in> copies pods srv m" and "\<And>ip. finite (srv ip)"
  defines "srv' \<equiv> srv(l := srv l - {m})"
  shows "all_copies pods srv' < all_copies pods srv" and "all_models pods srv' = all_models pods srv"
    and "copies pods srv' n \<subseteq> copies pods srv n" and "finite (srv' ip)"
proof -
  have l: "l \<in> listed_ips pods" "m \<in> srv l" using assms(2) by (simp_all add: copies_def)
  have less: "card (srv' l) < card (srv l)"
    using card_Diff1_less [OF assms(3) l(2)] by (simp add: srv'_def)
  have "(\<Sum>ip \<in> listed_ips pods - {l}. card (srv' ip)) = (\<Sum>ip \<in> listed_ips pods - {l}. card (srv ip))"
    by (rule sum.cong) (auto simp: srv'_def)
  then show "all_copies pods srv' < all_copies pods srv"
    using less l by (simp add: all_copies_def sum.remove [of _ l])
  have "\<not> copies pods srv m \<subseteq> {l}" using assms(1) card_mono [of "{l}" "copies pods srv m"] by (auto simp: doubled_def)
  then obtain q where "q \<in> listed_ips pods" "m \<in> srv q" "q \<noteq> l" by (auto simp: copies_def)
  then show "all_models pods srv' = all_models pods srv"
    by (auto simp: all_models_def srv'_def split: if_splits)
  show "copies pods srv' n \<subseteq> copies pods srv n" by (auto simp: copies_def srv'_def split: if_splits)
  show "finite (srv' ip)" using assms(3) by (simp add: srv'_def)
qed

subsection \<open>Many rounds\<close>

lemma dedup_rounds_simps [simp]:
  "dedup_rounds pods [] ts = ts"
  "dedup_rounds pods (r # rs) ts = dedup_rounds pods rs (dedup_round pods r ts)"
  "dedup_rounds pods (qs @ rs) ts = dedup_rounds pods rs (dedup_rounds pods qs ts)"
  by (simp_all add: dedup_rounds_def)

text \<open>What rounds never do: add a copy, or lose the last copy of a model.\<close>

definition thinned :: "pod list \<Rightarrow> (string \<Rightarrow> string set) \<Rightarrow> (string \<Rightarrow> string set) \<Rightarrow> bool" where
  "thinned pods srv srv' \<longleftrightarrow> (\<forall>ip. finite (srv' ip)) \<and> all_copies pods srv' \<le> all_copies pods srv \<and>
     all_models pods srv' = all_models pods srv \<and> (\<forall>n. copies pods srv' n \<subseteq> copies pods srv n)"

lemma thinned_refl: "(\<And>ip. finite (srv ip)) \<Longrightarrow> thinned pods srv srv"
  by (simp add: thinned_def)

lemma thinned_trans: "thinned pods a b \<Longrightarrow> thinned pods b c \<Longrightarrow> thinned pods a c"
  unfolding thinned_def by (metis order_trans)

lemma dedup_round_keeps:
  assumes "dedup_ready t" and "dedup_ranges (fst r)" and fin: "\<And>ip. finite (srv ip)"
    and "dedup_round pods r (t, srv) = (t', srv')"
  shows "dedup_ready t' \<and> dedupGracePolls t' = dedupGracePolls t \<and> thinned pods srv srv'"
  using assms
proof (cases rule: dedup_round_cases)
  case quiet
  then show ?thesis using thinned_refl [OF fin] by simp
next
  case (unloads l m)
  then show ?thesis using unload_effect [OF unloads(3,4) fin] by (simp add: thinned_def less_imp_le)
qed

lemma dedup_rounds_keeps:
  assumes "dedup_ready t" and "\<And>r. r \<in> set rs \<Longrightarrow> dedup_ranges (fst r)" and "\<And>ip. finite (srv ip)"
    and "dedup_rounds pods rs (t, srv) = (t', srv')"
  shows "dedup_ready t' \<and> dedupGracePolls t' = dedupGracePolls t \<and> thinned pods srv srv'"
  using assms
proof (induction rs arbitrary: t srv)
  case Nil
  then show ?case by (simp add: thinned_refl)
next
  case (Cons r rs)
  obtain t1 srv1 where one: "dedup_round pods r (t, srv) = (t1, srv1)" by fastforce
  have first: "dedup_ready t1 \<and> dedupGracePolls t1 = dedupGracePolls t \<and> thinned pods srv srv1"
    using dedup_round_keeps [OF Cons.prems(1) _ Cons.prems(3) one] Cons.prems(2) by simp
  then have "\<And>ip. finite (srv1 ip)" by (simp add: thinned_def)
  then have "dedup_ready t' \<and> dedupGracePolls t' = dedupGracePolls t1 \<and> thinned pods srv1 srv'"
    using first Cons.prems(2,4) one by (intro Cons.IH) simp_all
  then show ?case using first by (auto intro: thinned_trans)
qed

text \<open>The grace passes: a model that stays doubled is ripe by then, so a copy has gone, its own or another's.\<close>

lemma within_grace:
  assumes "dedup_ready t" and "\<And>r. r \<in> set rs \<Longrightarrow> dedup_ranges (fst r)" and "\<And>ip. finite (srv ip)"
    and "dedup_rounds pods rs (t, srv) = (t', srv')" and "m \<in> doubled pods srv"
    and "dedupGracePolls t \<le> obs_count (dupObs t) m + int (length rs)" and "rs \<noteq> []"
  shows "all_copies pods srv' < all_copies pods srv"
  using assms
proof (induction rs arbitrary: t srv)
  case Nil
  then show ?case by simp
next
  case (Cons r rs)
  obtain t1 srv1 where one: "dedup_round pods r (t, srv) = (t1, srv1)" by fastforce
  have ord: "dedup_ranges (fst r)" and ords: "\<And>r. r \<in> set rs \<Longrightarrow> dedup_ranges (fst r)"
    using Cons.prems(2) by simp_all
  have rest: "dedup_rounds pods rs (t1, srv1) = (t', srv')" using Cons.prems(4) one by simp
  from Cons.prems(1) ord Cons.prems(3) one show ?case
  proof (cases rule: dedup_round_cases)
    case quiet
    have more: "obs_count (dupObs t) m + 1 < dedupGracePolls t" "obs_count (dupObs t1) m = obs_count (dupObs t) m + 1"
      using quiet(4) [OF Cons.prems(5)] by simp_all
    then have "rs \<noteq> []" using Cons.prems(6) by auto
    then show ?thesis
      using Cons.IH [OF quiet(2) ords, of srv1] Cons.prems(3,5,6) rest more quiet(1,3) by simp
  next
    case (unloads l n)
    note effect = unload_effect [OF unloads(3,4) Cons.prems(3), folded unloads(5)]
    have "thinned pods srv1 srv'" using dedup_rounds_keeps [OF unloads(1) ords effect(4) rest] by simp
    then show ?thesis using effect(1) by (simp add: thinned_def)
  qed
qed

lemma all_models_le: "card (all_models pods srv) \<le> all_copies pods srv"
  by (simp add: all_models_def all_copies_def card_UN_le)

lemma no_doubles: "doubled pods srv = {} \<longleftrightarrow> (\<forall>m. card (copies pods srv m) < 2)"
  by (auto simp: doubled_def not_le)

lemma doubled_excess:
  assumes "m \<in> doubled pods srv" and "\<And>ip. finite (srv ip)"
  shows "0 < excess pods srv"
proof -
  have "copies pods srv m \<noteq> {}" using assms(1) by (auto simp: doubled_def)
  then obtain l where "l \<in> copies pods srv m" by blast
  note effect = unload_effect [OF assms(1) this assms(2)]
  show ?thesis
    using effect(1) all_models_le [of pods "srv(l := srv l - {m})"] effect(2) by (simp add: excess_def)
qed

lemma rounds_end_doubles:
  assumes "dedup_ready t" and "\<And>r. r \<in> set rs \<Longrightarrow> dedup_ranges (fst r)" and "\<And>ip. finite (srv ip)"
    and "dedup_rounds pods rs (t, srv) = (t', srv')"
    and "nat (max 1 (dedupGracePolls t)) * excess pods srv \<le> length rs"
  shows "doubled pods srv' = {}"
  using assms
proof (induction "excess pods srv" arbitrary: t srv rs rule: less_induct)
  case less
  show ?case
  proof (cases "doubled pods srv = {}")
    case True
    have "thinned pods srv srv'" using dedup_rounds_keeps [OF less.prems(1-4)] by simp
    then have "card (copies pods srv' m) \<le> card (copies pods srv m)" for m
      by (simp add: thinned_def card_mono)
    then show ?thesis using True by (auto simp: no_doubles intro: le_less_trans)
  next
    case False
    then obtain m where m: "m \<in> doubled pods srv" by blast
    define G where "G = nat (max 1 (dedupGracePolls t))"
    obtain j where j: "excess pods srv = Suc j" using doubled_excess [OF m less.prems(3)] gr0_conv_Suc by blast
    have long: "G + G * j \<le> length rs" using less.prems(5) by (simp add: G_def [symmetric] j)
    define qs where "qs = take G rs"
    have qs: "length qs = G" "qs \<noteq> []" "\<And>r. r \<in> set qs \<Longrightarrow> dedup_ranges (fst r)"
      using long less.prems(2) by (auto simp: qs_def G_def dest: in_set_takeD)
    obtain t1 srv1 where one: "dedup_rounds pods qs (t, srv) = (t1, srv1)" by fastforce
    have keeps: "dedup_ready t1" "dedupGracePolls t1 = dedupGracePolls t" "thinned pods srv srv1"
      using dedup_rounds_keeps [OF less.prems(1) qs(3) less.prems(3) one] by simp_all
    have "0 \<le> obs_count (dupObs t) m" using less.prems(1) by (simp add: dedup_ready_def)
    then have "dedupGracePolls t \<le> obs_count (dupObs t) m + int (length qs)"
      unfolding qs(1) G_def by linarith
    then have "all_copies pods srv1 < all_copies pods srv"
      using within_grace [OF less.prems(1) qs(3) less.prems(3) one m _ qs(2)] by blast
    then have drop: "excess pods srv1 < excess pods srv"
      using keeps(3) all_models_le [of pods srv1] by (simp add: excess_def thinned_def)
    have "rs = qs @ List.drop G rs" by (simp add: qs_def)
    then have rest: "dedup_rounds pods (List.drop G rs) (t1, srv1) = (t', srv')"
      using less.prems(4) one dedup_rounds_simps(3) [of pods qs "List.drop G rs" "(t, srv)"] by simp
    have "G * excess pods srv1 \<le> G * j" using drop j by (intro mult_le_mono2) simp
    then have "G * excess pods srv1 \<le> length (List.drop G rs)" using long unfolding length_drop by linarith
    then show ?thesis
      using less.hyps [OF drop keeps(1) _ _ rest] less.prems(2) keeps(2,3)
      by (simp add: G_def thinned_def in_set_dropD)
  qed
qed

lemma copies_empty: "copies pods srv m = {} \<longleftrightarrow> m \<notin> all_models pods srv"
  by (auto simp: copies_def all_models_def)

lemma at_most_one: "(a::nat) < 2 \<Longrightarrow> (a = 0 \<longleftrightarrow> b = 0) \<Longrightarrow> a = min 1 b"
  by (cases b) auto

text \<open>C4: Duplicates disappear. The tracker polls listed pods that answer with what they hold and carry
  out its requests to unload; between the polls nothing is loaded. Then after at most grace-many polls for
  each copy beyond the first (one for a grace of zero), in whatever order Go ranges over its maps and whatever
  the load signals are, every model that a server held is held by exactly one of the servers that held it.\<close>

theorem dedup_converges:
  assumes "dedup_ready t" and "\<And>ip. finite (srv ip)" and "\<And>r. r \<in> set rs \<Longrightarrow> dedup_ranges (fst r)"
    and "nat (max 1 (dedupGracePolls t)) * excess pods srv \<le> length rs"
    and "dedup_rounds pods rs (t, srv) = (t', srv')"
  shows "copies pods srv' m \<subseteq> copies pods srv m \<and> card (copies pods srv' m) = min 1 (card (copies pods srv m))"
proof -
  have thin: "thinned pods srv srv'" using dedup_rounds_keeps [OF assms(1,3,2,5)] by simp
  have "card (copies pods srv' m) < 2"
    using rounds_end_doubles [OF assms(1,3,2,5,4)] by (simp add: no_doubles)
  moreover have "card (copies pods srv' m) = 0 \<longleftrightarrow> card (copies pods srv m) = 0"
    using thin copies_empty [of pods srv m] copies_empty [of pods srv' m] by (simp add: thinned_def)
  ultimately have "card (copies pods srv' m) = min 1 (card (copies pods srv m))" by (rule at_most_one)
  then show ?thesis using thin by (simp add: thinned_def)
qed

text \<open>Two servers hold the same model; one round later one of them does.\<close>

lemma dedup_converges_witness:
  defines "pods \<equiv> map demo_server [''10.0.0.1'', ''10.0.0.2'']"
    and "srv \<equiv> (\<lambda>ip. if ip \<in> {''10.0.0.1'', ''10.0.0.2''} then {''llama''} else {})"
  shows "card (copies pods srv ''llama'') = 2 \<and>
    card (copies pods (snd (dedup_rounds pods [(sorted_orders, \<lambda>_. Fin 0)] (NewTracker grace_one, srv))) ''llama'') = 1"
proof -
  let ?t = "NewTracker grace_one" and ?rs = "[(sorted_orders, \<lambda>_. Fin 0)] :: (dedup_orders \<times> (string \<Rightarrow> float64)) list"
  have "listed_ips pods = PodIP ` set pods - {[]}" by (auto simp: listed_ips_def)
  then have ips: "listed_ips pods = {''10.0.0.1'', ''10.0.0.2''}" by (simp add: pods_def)
  have two: "copies pods srv ''llama'' = {''10.0.0.1'', ''10.0.0.2''}"
    by (auto simp: copies_def ips srv_def)
  have ready: "dedup_ready ?t"
    unfolding dedup_ready_def by (intro conjI wf_NewTracker; simp add: NewTracker_def grace_one_def obs_count_def)
  have fin: "finite (srv ip)" for ip by (simp add: srv_def)
  have "excess pods srv = 1" by (simp add: excess_def all_copies_def all_models_def ips srv_def)
  moreover have "dedupGracePolls ?t \<le> 1" by (simp add: NewTracker_def grace_one_def or_default_def)
  ultimately have long: "nat (max 1 (dedupGracePolls ?t)) * excess pods srv \<le> length ?rs" by simp
  obtain t' srv' where run: "dedup_rounds pods ?rs (?t, srv) = (t', srv')" by fastforce
  show ?thesis
    using dedup_converges [OF ready fin _ long run, of "''llama''"] dedup_ranges_sorted two run by simp
qed

end
