(* ===== verification/Epp_Requests.thy ===== *)
theory Epp_Requests
  imports Epp_Types
begin

section \<open>One request through the filter and the loader\<close>

text \<open>
  The way of a request: the framework asks the filter of \<open>internal/plugins/filter\<close> for the pods, picks
  one of those it returns, and calls the loader of \<open>internal/plugins/modelloader\<close> with the pick.
\<close>

text \<open>The pick is the target of the scheduling result, and the filter returned it.\<close>

definition picked_from :: "sched_pod list \<Rightarrow> scheduling_result \<Rightarrow> bool" where
  "picked_from out result \<longleftrightarrow> (\<exists>pod \<in> set out. getTargetPod result = Some pod \<and> sched_addr pod \<noteq> [])"

lemma picked_target:
  assumes "picked_from out result" and "TargetModel req \<noteq> []"
  obtains pod info where "pod \<in> set out" "getTargetPod result = Some pod" "GetPod pod = Some info" "Address info \<noteq> []"
    "validateAndExtractPreRequestInfo (Some req) (Some result) =
      (TargetModel req, Address info, nn_String (NamespacedName info))"
  using assms
  by (auto simp: picked_from_def validateAndExtractPreRequestInfo_def sched_addr_def split: option.splits)

lemma epp_filter_warm:
  assumes "epp_filter now (Some req) pods s = (out, s')" and "TargetModel req \<noteq> []"
    and "\<exists>p \<in> set pods. is_warm (eTracker s) (TargetModel req) p"
  shows "out = filter (is_warm (eTracker s) (TargetModel req)) pods"
    and "eTracker s' = eTracker s" and "eLoader s' = eLoader s"
proof -
  let ?f = "WithPodState (Some (eCache s)) (NewLoadedModelFilter (Some (eTracker s)))"
  have "lfTracker ?f = Some (eTracker s)" by (simp add: WithPodState_def NewLoadedModelFilter_def)
  from filter_Filter_active [OF this assms(2)] assms(1,3)
  show "out = filter (is_warm (eTracker s) (TargetModel req)) pods"
    and "eTracker s' = eTracker s" and "eLoader s' = eLoader s"
    by (auto simp: epp_filter_def Let_def filter_empty_conv)
qed

text \<open>A mark for a pair the tracker has is not visible.\<close>

lemma mark_again:
  assumes "wf_tracker t" and "IsLoaded t p m"
  shows "IsLoaded (MarkLoaded p m t) q n = IsLoaded t q n"
  using assms warm.loaded_mark [OF assms(1), of p m q n] by auto

text \<open>C11: a request that can be served warm never loads anything. In every state the process can reach, when
  one of the candidates has the model according to the tracker, the servers of the pods that the
  tracker lists for it still answer for it, and the framework picks any pod the filter returns, then
  the loader's call returns, it starts no load, the pick is in the loader's cache afterwards, and the
  tracker shows the same models on the same pods as before.\<close>

theorem warm_request_never_loads:
  assumes "epp_reach s" and "TargetModel req \<noteq> []"
    and "\<exists>p \<in> set pods. is_warm (eTracker s) (TargetModel req) p"
    and "\<forall>q. IsLoaded (eTracker s) q (TargetModel req) \<longrightarrow>
      isModelLoaded decode (envQuery env) (ldConfig (eLoader s)) q (TargetModel req)"
    and "epp_filter now (Some req) pods s = (out, s1)" and "picked_from out result"
  shows "\<exists>s2 pod. epp_prerequest decode await env (Some req) (Some result) s1 = Some s2 \<and>
    getTargetPod result = Some pod \<and> is_warm (eTracker s) (TargetModel req) pod \<and>
    nextResult (eLoader s2) = nextResult (eLoader s) \<and>
    lookup_key (loadKey (sched_addr pod) (TargetModel req)) (eLoader s2) = Loaded \<and>
    (\<forall>q n. IsLoaded (eTracker s2) q n = IsLoaded (eTracker s) q n)"
proof -
  let ?m = "TargetModel req"
  note f = epp_filter_warm [OF assms(5,2,3)]
  obtain pod info where pod: "pod \<in> set out" "getTargetPod result = Some pod" "GetPod pod = Some info"
    "Address info \<noteq> []" and v: "validateAndExtractPreRequestInfo (Some req) (Some result) =
      (?m, Address info, nn_String (NamespacedName info))" using picked_target [OF assms(6,2)] by blast
  have w: "is_warm (eTracker s) ?m pod" using pod(1) by (simp add: f(1))
  then have held: "IsLoaded (eTracker s) (Address info) ?m" by (simp add: is_warm_def pod(3))
  note typed = epp_reach_typed [OF assms(1), unfolded process_typed_def]
  have idle: "loadingModels (eLoader s) k = None" for k using typed by simp
  have live: "isModelLoaded decode (envQuery env) (ldConfig (eLoader s)) (Address info) ?m"
    using held assms(4) by blast
  note pr = PreRequest_target [OF v assms(2) pod(4) idle, of decode await env "eTracker s"]
  let ?s2 = "\<lambda>p. s1\<lparr>eLoader := p, eTracker := MarkLoaded (Address info) ?m (eTracker s)\<rparr>"
  have same: "\<forall>q n. IsLoaded (MarkLoaded (Address info) ?m (eTracker s)) q n = IsLoaded (eTracker s) q n"
    using mark_again [OF _ held] typed by blast
  show ?thesis
  proof (cases "loadedModels (eLoader s) (loadKey (Address info) ?m) = None")
    case True
    with pr live w same pod show ?thesis
      by (intro exI [of _ "?s2 (cache_loaded (envNow env) (loadKey (Address info) ?m) (eLoader s))"] exI [of _ pod])
        (simp add: epp_prerequest_def f lookup_key_def cache_loaded_def sched_addr_def)
  next
    case False
    with pr w same pod show ?thesis
      by (intro exI [of _ "?s2 (eLoader s)"] exI [of _ pod])
        (simp add: epp_prerequest_def f lookup_key_def sched_addr_def)
  qed
qed

text \<open>A request has loaded \<open>llama\<close> on its pod; the next request for it, with another pod on offer too.\<close>

definition demo_cold_pod :: sched_pod where
  "demo_cold_pod = \<lparr>GetPod = Some \<lparr>NamespacedName = \<lparr>NnNamespace = ''ns'', NnName = ''llama-1-rank-0''\<rparr>,
     Address = ''10.0.0.2''\<rparr>, GetMetrics = None\<rparr>"

definition demo_warm_pod :: sched_pod where
  "demo_warm_pod = \<lparr>GetPod = Some \<lparr>NamespacedName = \<lparr>NnNamespace = ''ns'', NnName = ''llama-0-rank-0''\<rparr>,
     Address = ''10.0.0.1''\<rparr>, GetMetrics = None\<rparr>"

lemma demo_served_marks:
  assumes "demo_served s"
  shows "IsLoaded (eTracker s) q n \<longleftrightarrow> q = ''10.0.0.1'' \<and> n = ''llama''"
proof -
  have cold: "lookup_key k (eLoader demo_epp) = Cold" for k
    by (simp add: lookup_key_def NewPlugin_def demo_epp_def)
  have wf: "wf_tracker (eTracker demo_epp)" using epp_reach_ok [OF demo_epp_reach] by (simp add: epp_ok_def)
  have none: "\<not> IsLoaded (eTracker demo_epp) q n"
    by (simp add: demo_epp_def startModelTracker_def SetUnloadObserver_def NewTracker_def IsLoaded_def)
  obtain p t where pt: "PreRequest demo_decode (\<lambda>r. Cancelled) demo_env (Some demo_request) (Some demo_schedule)
      (eLoader demo_epp, Some (eTracker demo_epp)) = Some (p, Some t)"
    "IsLoaded t ''10.0.0.1'' ''llama''"
    "(q, n) \<noteq> (''10.0.0.1'', ''llama'') \<Longrightarrow> IsLoaded t q n = IsLoaded (eTracker demo_epp) q n"
    using cold_outcome [OF demo_validate _ wf cold demo_not_loaded, of "\<lambda>r. Cancelled"] demo_primary by auto
  then have "eTracker s = t" using assms by (auto simp: demo_served_def epp_prerequest_def)
  with pt(2,3) none show ?thesis by auto
qed

theorem warm_request_never_loads_witness:
  "\<exists>s out s1 s2. demo_served s \<and>
    epp_filter 3 (Some demo_request) [demo_cold_pod, demo_warm_pod] s = (out, s1) \<and> picked_from out demo_schedule \<and>
    epp_prerequest demo_decode (\<lambda>r. Cancelled) (demo_env\<lparr>envQuery := live_net ''loaded''\<rparr>)
      (Some demo_request) (Some demo_schedule) s1 = Some s2 \<and>
    nextResult (eLoader s2) = nextResult (eLoader s)"
proof -
  obtain s where s: "demo_served s" "epp_reach s" using demo_served by blast
  note marks = demo_served_marks [OF s(1)]
  have warm: "is_warm (eTracker s) ''llama'' demo_warm_pod" "\<not> is_warm (eTracker s) ''llama'' demo_cold_pod"
    by (simp_all add: is_warm_def marks demo_warm_pod_def demo_cold_pod_def)
  have req: "TargetModel demo_request = ''llama''" by (simp add: demo_request_def)
  obtain out s1 where f: "epp_filter 3 (Some demo_request) [demo_cold_pod, demo_warm_pod] s = (out, s1)"
    by fastforce
  have "out = [demo_warm_pod]" using epp_filter_warm(1) [OF f] warm by (simp add: req)
  moreover have "getTargetPod demo_schedule = Some demo_warm_pod"
    by (simp add: getTargetPod_def demo_schedule_def demo_warm_pod_def)
  ultimately have pick: "picked_from out demo_schedule"
    by (simp add: picked_from_def sched_addr_def demo_warm_pod_def)
  have "\<exists>s2 pod. epp_prerequest demo_decode (\<lambda>r. Cancelled) (demo_env\<lparr>envQuery := live_net ''loaded''\<rparr>)
      (Some demo_request) (Some demo_schedule) s1 = Some s2 \<and>
    getTargetPod demo_schedule = Some pod \<and> is_warm (eTracker s) (TargetModel demo_request) pod \<and>
    nextResult (eLoader s2) = nextResult (eLoader s) \<and>
    lookup_key (loadKey (sched_addr pod) (TargetModel demo_request)) (eLoader s2) = Loaded \<and>
    (\<forall>q n. IsLoaded (eTracker s2) q n = IsLoaded (eTracker s) q n)"
    by (rule warm_request_never_loads [OF s(2) _ _ _ f pick])
      (simp_all add: req warm marks demo_checks live_status_def)
  with s(1) f pick show ?thesis by blast
qed

end
