(* ===== verification/Lease_Lock.thy ===== *)
theory Lease_Lock
  imports Prelude
begin

section \<open>Kubernetes leases as a lock between replicas\<close>

text \<open>
  The contract the router wants from \<open>tryAcquireLease\<close> and \<open>releaseLease\<close>: a lock per model.
  \<open>holder c m\<close> is the identity in the lease of model \<open>m\<close> in the cluster state \<open>c\<close>. The
  locale derives mutual exclusion from what one attempt may do, as long as no two attempts under one
  identity overlap; \<open>Router_Correct\<close> interprets it on the code's two functions.
\<close>

datatype ('r, 'm) lock_event = Acquire 'r 'm | Release 'r 'm

locale lease_lock =
  fixes acquire :: "'r \<Rightarrow> 'm \<Rightarrow> 'c \<Rightarrow> ('e + bool) \<times> 'c"
    and release :: "'r \<Rightarrow> 'm \<Rightarrow> 'c \<Rightarrow> 'e option \<times> 'c"
    and holder :: "'c \<Rightarrow> 'm \<Rightarrow> 'i option"
    and ident :: "'r \<Rightarrow> 'i"
    and member :: "'r \<Rightarrow> bool"
  assumes acquired: "member r \<Longrightarrow> acquire r m c = (Inr True, c') \<Longrightarrow>
      holder c' m = Some (ident r) \<and> (holder c m = None \<or> holder c m = Some (ident r))"
    and not_acquired: "member r \<Longrightarrow> acquire r m c = (x, c') \<Longrightarrow> x \<noteq> Inr True \<Longrightarrow> holder c m = Some i \<Longrightarrow>
      holder c' m = Some i"
    and acquire_other: "member r \<Longrightarrow> acquire r m c = (x, c') \<Longrightarrow> n \<noteq> m \<Longrightarrow> holder c' n = holder c n"
    and release_other: "member r \<Longrightarrow> release r m c = (y, c') \<Longrightarrow> n \<noteq> m \<Longrightarrow> holder c' n = holder c n"
begin

lemma held_refuses:
  assumes "member r" and "holder c m = Some i" and "i \<noteq> ident r"
  shows "fst (acquire r m c) \<noteq> Inr True"
  using acquired [OF assms(1), of m c "snd (acquire r m c)"] assms(2,3) by (metis option.distinct(1) option.inject prod.collapse)

text \<open>
  A run of the lock: \<open>inside\<close> is the set of replicas that were told they may load a model and have
  not released it yet. A replica releases only what it is inside of, as the code does, and ends only its
  own stay. No replica tries again under an identity that is inside already.
\<close>

inductive run :: "'c \<Rightarrow> ('r \<times> 'm) set \<Rightarrow> bool" where
  start: "run c {}"
| acquire_ok: "run c inside \<Longrightarrow> member r \<Longrightarrow> (\<And>q. (q, m) \<in> inside \<Longrightarrow> ident q \<noteq> ident r) \<Longrightarrow>
    acquire r m c = (Inr True, c') \<Longrightarrow> run c' (insert (r, m) inside)"
| acquire_no: "run c inside \<Longrightarrow> member r \<Longrightarrow> acquire r m c = (x, c') \<Longrightarrow> x \<noteq> Inr True \<Longrightarrow> run c' inside"
| release: "run c inside \<Longrightarrow> member r \<Longrightarrow> (r, m) \<in> inside \<Longrightarrow> release r m c = (x, c') \<Longrightarrow>
    run c' (inside - {(r, m)})"

text \<open>Whoever is inside is the holder, and is alone.\<close>

lemma inside_holds:
  "run c inside \<Longrightarrow> (r, m) \<in> inside \<Longrightarrow> holder c m = Some (ident r) \<and> (\<forall>q. (q, m) \<in> inside \<longrightarrow> q = r)"
proof (induction arbitrary: r m rule: run.induct)
  case (acquire_ok c inside r' m' c')
  note a = acquired [OF acquire_ok.hyps(2,4)] acquire_other [OF acquire_ok.hyps(2,4)]
  have empty: "(q, m') \<notin> inside" for q
  proof
    assume q: "(q, m') \<in> inside"
    then have "holder c m' = Some (ident q)" using acquire_ok.IH by blast
    then show False using a(1) acquire_ok.hyps(3) [OF q] by auto
  qed
  show ?case
  proof (cases "m = m'")
    case True
    then have "r = r'" "\<And>q. (q, m) \<in> insert (r', m') inside \<Longrightarrow> q = r'" using empty acquire_ok.prems by blast+
    then show ?thesis using a(1) True by blast
  next
    case False
    then have "(r, m) \<in> inside" "\<And>q. (q, m) \<in> insert (r', m') inside \<longleftrightarrow> (q, m) \<in> inside"
      using acquire_ok.prems by simp_all
    then show ?thesis using acquire_ok.IH a(2) [OF False] by simp
  qed
next
  case (acquire_no c inside r' m' x c')
  note old = acquire_no.IH [OF acquire_no.prems]
  show ?case
  proof (cases "m = m'")
    case True
    then show ?thesis using old not_acquired [OF acquire_no.hyps(2-4)] by simp
  next
    case False
    then show ?thesis using old acquire_other [OF acquire_no.hyps(2,3)] by simp
  qed
next
  case (release c inside r' m' x c')
  have old: "holder c m = Some (ident r) \<and> (\<forall>q. (q, m) \<in> inside \<longrightarrow> q = r)"
    using release.IH [of r m] release.prems by simp
  have "m \<noteq> m'" using old release.hyps(3) release.prems by auto
  then show ?case using old release_other [OF release.hyps(2,4)] by simp
qed simp

text \<open>Mutual exclusion: at most one replica is inside for a model.\<close>

lemma mutual_exclusion: "run c inside \<Longrightarrow> (r, m) \<in> inside \<Longrightarrow> (q, m) \<in> inside \<Longrightarrow> r = q"
  using inside_holds by blast

end

end
