(* ===== verification/Router.thy ===== *)
theory Router
  imports Vram_Tracker Lease_Lock
begin

section \<open>The model router\<close>

text \<open>
  \<open>internal/router/router.go\<close>: the router keeps a map of warm models, refreshed from the pods,
  and loads a missing model on the node with the most free memory; requests of one replica wait for
  each other on a channel, replicas exclude each other with a Kubernetes lease. The Kubernetes API is
  an argument: a pod lister, and \<open>lease_api\<close> for the three calls on leases. This theory
  translates the functions with one request running; \<open>Router_Machine\<close> interleaves requests.
\<close>

subsection \<open>State\<close>

record model_info =
  MiName :: string
  MiNodeName :: string
  MiPodName :: string
  MiPodIP :: string
  MiLoadedAt :: "gotime option"
  MiVRAMUsage :: int64

text \<open>\<open>MiLoadedAt = None\<close> is the zero time of an entry that came from discovery.\<close>

datatype router_error =
  RtClientNil
| RtPodHasNoIP
| RtUnexpectedStatus int
| RtNoPodsOnNode string
| RtLoadStatus int string
| RtLeaseHeld
| RtNotAvailableAfterLoad
| RtRequest string
| RtDo string
| RtDecode
| RtFindNode vram_error
| RtSelector
| RtListPods string
| RtCreateLease string
| RtGetLease string
| RtDeleteLease string
| RtAcquireFailed router_error
| RtLoadFailed router_error
| RtConcurrentFailed router_error
| RtCancelled

record router =
  rHasClient :: bool
  rNamespace :: string
  rPodSelector :: labels
  rLoadEndpoint :: string
  rReplica :: string
  rModels :: "string \<rightharpoonup> model_info"
  rReady :: bool
  rLoading :: "string set"

definition modelServerPort :: int where "modelServerPort = 8080"
definition leaseDuration :: int where "leaseDuration = 60"

definition NewRouter :: "bool \<Rightarrow> string \<Rightarrow> string \<Rightarrow> labels \<Rightarrow> string \<Rightarrow> router" where
  "NewRouter hasClient POD_NAME namespace selector loadEndpoint =
     \<lparr>rHasClient = hasClient, rNamespace = namespace, rPodSelector = selector,
      rLoadEndpoint = loadEndpoint,
      rReplica = (if POD_NAME = [] then ''unknown-replica'' else POD_NAME),
      rModels = Map.empty, rReady = True, rLoading = {}\<rparr>"

definition IsReady :: "router \<Rightarrow> bool" where
  "IsReady r = rReady r"

definition router_UpdateNamespace :: "string \<Rightarrow> router \<Rightarrow> router" where
  "router_UpdateNamespace ns r = r\<lparr>rNamespace := ns\<rparr>"

definition GetWarmModels :: "router \<Rightarrow> string \<rightharpoonup> model_info" where
  "GetWarmModels r k =
     (case rModels r k of None \<Rightarrow> None
      | Some v \<Rightarrow> Some \<lparr>MiName = MiName v, MiNodeName = MiNodeName v, MiPodName = MiPodName v,
          MiPodIP = MiPodIP v, MiLoadedAt = MiLoadedAt v, MiVRAMUsage = MiVRAMUsage v\<rparr>)"

definition endpoint_url :: "string \<Rightarrow> string" where
  "endpoint_url ip = ''http://'' @ join_host_port ip (itoa modelServerPort)"

subsection \<open>Discovering warm models\<close>

definition queryPodModels ::
  "transport \<Rightarrow> (string \<Rightarrow> model_entry list option) \<Rightarrow> pod \<Rightarrow> router_error + model_info list" where
  "queryPodModels net decode pod =
     (if PodIP pod = [] then Inl RtPodHasNoIP
      else
        (let url = http_url (PodIP pod) modelServerPort ''/models''
         in if \<not> urlOk net url then Inl (RtRequest url)
            else case doReq net (GET url) of
              Inl e \<Rightarrow> Inl (RtDo e)
            | Inr resp \<Rightarrow>
                if StatusCode resp \<noteq> StatusOK then Inl (RtUnexpectedStatus (StatusCode resp))
                else case (case Body resp of None \<Rightarrow> None | Some body \<Rightarrow> decode body) of
                  None \<Rightarrow> Inl RtDecode
                | Some es \<Rightarrow>
                    Inr (map (\<lambda>e. \<lparr>MiName = ID e, MiNodeName = NodeName pod, MiPodName = PodName pod,
                               MiPodIP = PodIP pod, MiLoadedAt = None, MiVRAMUsage = 0\<rparr>) es)))"

fun warm_of_pods ::
  "(pod \<Rightarrow> router_error + model_info list) \<Rightarrow> pod list \<Rightarrow> (string \<rightharpoonup> model_info) \<Rightarrow> (string \<rightharpoonup> model_info)" where
  "warm_of_pods query [] m = m"
| "warm_of_pods query (pod # pods) m =
     (if Phase pod \<noteq> PodRunning then warm_of_pods query pods m
      else case query pod of
        Inl e \<Rightarrow> warm_of_pods query pods m
      | Inr infos \<Rightarrow> warm_of_pods query pods (fold (\<lambda>i m. m(MiName i \<mapsto> i)) infos m))"

definition discoverWarmModelsWithSelector ::
  "pod lister \<Rightarrow> (pod \<Rightarrow> router_error + model_info list) \<Rightarrow> string \<Rightarrow> labels \<Rightarrow> router \<Rightarrow> router" where
  "discoverWarmModelsWithSelector client query namespace selector r =
     (if \<not> rHasClient r then r
      else case client \<lparr>inNamespace = Some namespace, matchingLabels = selector, fieldNodeName = None\<rparr> of
        Inl e \<Rightarrow> r
      | Inr pods \<Rightarrow> r\<lparr>rModels := warm_of_pods query pods Map.empty\<rparr>)"

definition discoverWarmModels ::
  "pod lister \<Rightarrow> (pod \<Rightarrow> router_error + model_info list) \<Rightarrow> router \<Rightarrow> router" where
  "discoverWarmModels client query r =
     (if \<not> rHasClient r then r
      else discoverWarmModelsWithSelector client query (rNamespace r) (rPodSelector r) r)"

definition syncWarmModels ::
  "(pod lister \<times> (pod \<Rightarrow> router_error + model_info list)) loop_event list \<Rightarrow> router \<Rightarrow> router \<times> bool" where
  "syncWarmModels es r = run_loop (\<lambda>(client, query) r. discoverWarmModels client query r) es r"

text \<open>
  The update of the selector stores it and starts a discovery with the copied values, which
  may run at any later time.
\<close>

definition router_UpdatePodSelector :: "labels \<Rightarrow> router \<Rightarrow> router \<times> (string \<times> labels)" where
  "router_UpdatePodSelector sel r = (r\<lparr>rPodSelector := sel\<rparr>, (rNamespace r, sel))"

subsection \<open>Loading a model\<close>

definition loadModelOnPod :: "transport \<Rightarrow> router \<Rightarrow> pod \<Rightarrow> string \<Rightarrow> router_error option" where
  "loadModelOnPod net r pod modelName =
     (let url = http_url (PodIP pod) modelServerPort (rLoadEndpoint r)
      in if \<not> urlOk net url then Some (RtRequest url)
         else case doReq net (POST url (ModelRequest modelName)) of
           Inl e \<Rightarrow> Some (RtDo e)
         | Inr resp \<Rightarrow>
             if StatusCode resp \<noteq> StatusOK \<and> StatusCode resp \<noteq> StatusCreated
             then Some (RtLoadStatus (StatusCode resp) (case Body resp of None \<Rightarrow> [] | Some b \<Rightarrow> b))
             else None)"

record router_env =
  reNet :: transport
  rePods :: "pod lister"
  reSelectorOk :: "labels \<Rightarrow> bool"
  reBestNode :: "vram_error + string \<times> int64"
  reNow :: gotime

text \<open>
  \<open>reBestNode\<close> is the answer of the VRAM tracker; \<open>reSelectorOk\<close> is the validation of a label set
  by the Kubernetes library. The first part of the function finds the pod, the last one records the
  model: between them is the request to the pod.
\<close>

definition findLoadPod :: "router_env \<Rightarrow> router \<Rightarrow> router_error + pod" where
  "findLoadPod env r =
     (case reBestNode env of
        Inl e \<Rightarrow> Inl (RtFindNode e)
      | Inr (bestNode, availableVRAM) \<Rightarrow>
          if \<not> rHasClient r then Inl RtClientNil
          else if \<not> reSelectorOk env (rPodSelector r) then Inl RtSelector
          else case rePods env \<lparr>inNamespace = Some (rNamespace r), matchingLabels = rPodSelector r,
                      fieldNodeName = Some bestNode\<rparr> of
            Inl e \<Rightarrow> Inl (RtListPods e)
          | Inr [] \<Rightarrow> Inl (RtNoPodsOnNode bestNode)
          | Inr (pod # _) \<Rightarrow> if PodIP pod = [] then Inl RtPodHasNoIP else Inr pod)"

definition recordModel :: "gotime \<Rightarrow> string \<Rightarrow> pod \<Rightarrow> router \<Rightarrow> router" where
  "recordModel now modelName pod r =
     r\<lparr>rModels := (rModels r)(modelName \<mapsto>
         \<lparr>MiName = modelName, MiNodeName = NodeName pod, MiPodName = PodName pod, MiPodIP = PodIP pod,
          MiLoadedAt = Some now, MiVRAMUsage = 0\<rparr>)\<rparr>"

definition loadModelOnBestNode :: "router_env \<Rightarrow> string \<Rightarrow> router \<Rightarrow> (router_error + string) \<times> router" where
  "loadModelOnBestNode env modelName r =
     (case findLoadPod env r of
        Inl e \<Rightarrow> (Inl e, r)
      | Inr pod \<Rightarrow>
          (case loadModelOnPod (reNet env) r pod modelName of
             Some e \<Rightarrow> (Inl e, r)
           | None \<Rightarrow> (Inr (endpoint_url (PodIP pod)), recordModel (reNow env) modelName pod r)))"

subsection \<open>Leases\<close>

record lease =
  lsHolder :: "string option"
  lsDuration :: int
  lsAcquireTime :: gotime
  lsRenewTime :: gotime

datatype create_outcome = LeaseCreated | LeaseExists | LeaseCreateFailed string
datatype delete_outcome = LeaseDeleted | LeaseNotFound | LeaseDeleteFailed string

record 'c lease_api =
  apiCreate :: "string \<Rightarrow> string \<Rightarrow> lease \<Rightarrow> 'c \<Rightarrow> create_outcome \<times> 'c"
  apiGet :: "string \<Rightarrow> string \<Rightarrow> 'c \<Rightarrow> string + lease"
  apiDelete :: "string \<Rightarrow> string \<Rightarrow> 'c \<Rightarrow> delete_outcome \<times> 'c"

definition leaseName :: "string \<Rightarrow> string" where
  "leaseName model = ''extproc-model-load-'' @ model"

definition tryAcquireLease ::
  "'c lease_api \<Rightarrow> gotime \<Rightarrow> router \<Rightarrow> string \<Rightarrow> 'c \<Rightarrow> (router_error + bool) \<times> 'c" where
  "tryAcquireLease api now r model c =
     (if \<not> rHasClient r then (Inr True, c)
      else
        (let l = \<lparr>lsHolder = Some (rReplica r), lsDuration = leaseDuration,
                 lsAcquireTime = now, lsRenewTime = now\<rparr>
         in case apiCreate api (rNamespace r) (leaseName model) l c of
              (LeaseCreated, c') \<Rightarrow> (Inr True, c')
            | (LeaseCreateFailed e, c') \<Rightarrow> (Inl (RtCreateLease e), c')
            | (LeaseExists, c') \<Rightarrow>
                (case apiGet api (rNamespace r) (leaseName model) c' of
                   Inl e \<Rightarrow> (Inl (RtGetLease e), c')
                 | Inr l' \<Rightarrow> if lsHolder l' = Some (rReplica r) then (Inr True, c') else (Inr False, c'))))"

definition releaseLease ::
  "'c lease_api \<Rightarrow> router \<Rightarrow> string \<Rightarrow> 'c \<Rightarrow> router_error option \<times> 'c" where
  "releaseLease api r model c =
     (if \<not> rHasClient r then (None, c)
      else case apiDelete api (rNamespace r) (leaseName model) c of
        (LeaseDeleteFailed e, c') \<Rightarrow> (Some (RtDeleteLease e), c')
      | (_, c') \<Rightarrow> (None, c'))"

subsection \<open>GetModelEndpoint\<close>

text \<open>
  \<open>await\<close> is how the wait on another request's channel ends: a message, or the context. The
  result carries the message sent on this request's own channel, and whether an asynchronous
  discovery was started. The router may change while the request waits: \<open>after\<close> is the router when
  the message arrives.
\<close>

datatype done_outcome = DoneReceived "router_error option" | DoneCancelled

definition GetModelEndpoint ::
  "'c lease_api \<Rightarrow> router_env \<Rightarrow> done_outcome \<Rightarrow> router \<Rightarrow> string \<Rightarrow> router \<times> 'c \<Rightarrow>
   (router_error + string) \<times> (router \<times> 'c) \<times> router_error option list" where
  "GetModelEndpoint api env await after modelName w =
     (case w of (r, c) \<Rightarrow>
        case rModels r modelName of
          Some info \<Rightarrow> (Inr (endpoint_url (MiPodIP info)), w, [])
        | None \<Rightarrow>
            if modelName \<in> rLoading r
            then (case await of
                DoneReceived (Some e) \<Rightarrow> (Inl (RtConcurrentFailed e), (after, c), [])
              | DoneReceived None \<Rightarrow>
                  (case rModels after modelName of
                     None \<Rightarrow> (Inl RtNotAvailableAfterLoad, (after, c), [])
                   | Some info \<Rightarrow> (Inr (endpoint_url (MiPodIP info)), (after, c), []))
              | DoneCancelled \<Rightarrow> (Inl RtCancelled, (after, c), []))
            else
              (let r1 = r\<lparr>rLoading := insert modelName (rLoading r)\<rparr>;
                   unload = (\<lambda>r. r\<lparr>rLoading := rLoading r - {modelName}\<rparr>)
               in case tryAcquireLease api (reNow env) r1 modelName c of
                    (Inl e, c1) \<Rightarrow> (Inl (RtAcquireFailed e), (unload r1, c1), [Some (RtAcquireFailed e)])
                  | (Inr False, c1) \<Rightarrow> (Inl RtLeaseHeld, (unload r1, c1), [Some RtLeaseHeld])
                  | (Inr True, c1) \<Rightarrow>
                      (case loadModelOnBestNode env modelName r1 of
                         (Inl e, r2) \<Rightarrow>
                           (Inl (RtLoadFailed e), (unload r2, snd (releaseLease api r2 modelName c1)),
                            [Some (RtLoadFailed e)])
                       | (Inr url, r2) \<Rightarrow>
                           (Inr url, (unload r2, snd (releaseLease api r2 modelName c1)), [None]))))"

end
