(* ===== verification/Router_Correct.thy ===== *)
theory Router_Correct
  imports Router Vram_Discovery Tracker_Poll Model_Loader
begin

section \<open>Correctness of the router\<close>

text \<open>
  The leases as a lock between replicas, what discovery makes of the pods' answers, and the outcome
  of a request on each of its paths.
\<close>

subsection \<open>The lease API's documented behaviour\<close>

text \<open>
  \<open>look c\<close> is the set of leases in the cluster state \<open>c\<close>. Creating an existing lease is refused; reading
  and deleting act on the stored lease. A creation or a deletion that fails may have taken effect all the
  same (a timeout). Reads are not from a cache, which may be behind.
\<close>

definition lease_api_ok :: "'c lease_api \<Rightarrow> ('c \<Rightarrow> (string \<times> string) \<rightharpoonup> lease) \<Rightarrow> bool" where
  "lease_api_ok api look \<longleftrightarrow>
     (\<forall>ns n l c o' c'. apiCreate api ns n l c = (o', c') \<longrightarrow>
        (case o' of
           LeaseCreated \<Rightarrow> look c (ns, n) = None \<and> look c' = (look c)((ns, n) \<mapsto> l)
         | LeaseExists \<Rightarrow> look c (ns, n) \<noteq> None \<and> look c' = look c
         | LeaseCreateFailed e \<Rightarrow>
             look c' = look c \<or> look c (ns, n) = None \<and> look c' = (look c)((ns, n) \<mapsto> l))) \<and>
     (\<forall>ns n c l. apiGet api ns n c = Inr l \<longrightarrow> look c (ns, n) = Some l) \<and>
     (\<forall>ns n c o' c'. apiDelete api ns n c = (o', c') \<longrightarrow>
        (case o' of
           LeaseDeleted \<Rightarrow> look c' = (look c)((ns, n) := None)
         | LeaseNotFound \<Rightarrow> look c (ns, n) = None \<and> look c' = look c
         | LeaseDeleteFailed e \<Rightarrow> look c' = look c \<or> look c' = (look c)((ns, n) := None)))"

lemma lease_api_okD:
  assumes "lease_api_ok api look"
  shows lease_created: "apiCreate api ns n l c = (LeaseCreated, c') \<Longrightarrow>
      look c (ns, n) = None \<and> look c' = (look c)((ns, n) \<mapsto> l)"
    and lease_exists: "apiCreate api ns n l c = (LeaseExists, c') \<Longrightarrow>
      look c (ns, n) \<noteq> None \<and> look c' = look c"
    and lease_create_failed: "apiCreate api ns n l c = (LeaseCreateFailed e, c') \<Longrightarrow>
      look c' = look c \<or> look c (ns, n) = None \<and> look c' = (look c)((ns, n) \<mapsto> l)"
    and lease_get: "apiGet api ns n c = Inr l \<Longrightarrow> look c (ns, n) = Some l"
    and lease_delete: "apiDelete api ns n c = (d, c') \<Longrightarrow>
      look c' = look c \<or> look c' = (look c)((ns, n) := None)"
    and lease_gone: "apiDelete api ns n c = (d, c') \<Longrightarrow> (\<And>e. d \<noteq> LeaseDeleteFailed e) \<Longrightarrow> look c' (ns, n) = None"
proof -
  show "apiDelete api ns n c = (d, c') \<Longrightarrow> look c' = look c \<or> look c' = (look c)((ns, n) := None)"
    using assms unfolding lease_api_ok_def by (cases d) fastforce+
  show "apiDelete api ns n c = (d, c') \<Longrightarrow> (\<And>e. d \<noteq> LeaseDeleteFailed e) \<Longrightarrow> look c' (ns, n) = None"
    using assms unfolding lease_api_ok_def by (cases d) fastforce+
qed (use assms in \<open>unfold lease_api_ok_def, fastforce+\<close>)

definition lease_holder :: "('c \<Rightarrow> (string \<times> string) \<rightharpoonup> lease) \<Rightarrow> string \<Rightarrow> 'c \<Rightarrow> string \<Rightarrow> string option" where
  "lease_holder look ns c m = (case look c (ns, leaseName m) of None \<Rightarrow> None | Some l \<Rightarrow> lsHolder l)"

definition lease_member :: "'c lease_api \<Rightarrow> ('c \<Rightarrow> (string \<times> string) \<rightharpoonup> lease) \<Rightarrow> string \<Rightarrow> router \<times> gotime \<Rightarrow> bool" where
  "lease_member api look ns rt \<longleftrightarrow> lease_api_ok api look \<and> rHasClient (fst rt) \<and> rNamespace (fst rt) = ns"

text \<open>What one attempt does: the three outcomes of the code.\<close>

lemma tryAcquireLease_cases:
  assumes "lease_member api look ns (r, now)" and "tryAcquireLease api now r m c = (x, c')"
  shows "(x = Inr True \<and> look c (ns, leaseName m) = None \<and>
       look c' = (look c)((ns, leaseName m) \<mapsto> \<lparr>lsHolder = Some (rReplica r), lsDuration = leaseDuration,
         lsAcquireTime = now, lsRenewTime = now\<rparr>)) \<or>
    (x = Inr True \<and> look c' = look c \<and> lease_holder look ns c m = Some (rReplica r)) \<or>
    (x \<noteq> Inr True \<and> (look c' = look c \<or> look c (ns, leaseName m) = None \<and>
       look c' = (look c)((ns, leaseName m) \<mapsto> \<lparr>lsHolder = Some (rReplica r), lsDuration = leaseDuration,
         lsAcquireTime = now, lsRenewTime = now\<rparr>)))"
proof -
  have ok: "lease_api_ok api look" and cl: "rHasClient r" and ns: "rNamespace r = ns"
    using assms(1) by (simp_all add: lease_member_def)
  let ?l = "\<lparr>lsHolder = Some (rReplica r), lsDuration = leaseDuration, lsAcquireTime = now, lsRenewTime = now\<rparr>"
  obtain k c1 where k: "apiCreate api ns (leaseName m) ?l c = (k, c1)" by fastforce
  show ?thesis
  proof (cases k)
    case LeaseCreated
    with k lease_created [OF ok] assms(2) cl ns show ?thesis by (simp add: tryAcquireLease_def)
  next
    case LeaseExists
    note e = lease_exists [OF ok k [unfolded LeaseExists]]
    show ?thesis
    proof (cases "apiGet api ns (leaseName m) c1")
      case (Inl err)
      with k LeaseExists e assms(2) cl ns show ?thesis by (auto simp: tryAcquireLease_def)
    next
      case (Inr l')
      with lease_get [OF ok Inr] k LeaseExists e assms(2) cl ns show ?thesis
        by (auto simp: tryAcquireLease_def lease_holder_def split: if_splits)
    qed
  next
    case (LeaseCreateFailed err)
    with k lease_create_failed [OF ok] assms(2) cl ns show ?thesis by (auto simp: tryAcquireLease_def)
  qed
qed

lemma leaseName_inj [simp]: "leaseName m = leaseName n \<longleftrightarrow> m = n"
  by (simp add: leaseName_def)

lemma releaseLease_look:
  assumes "lease_member api look ns (r, now)" and "releaseLease api r m c = (x, c')"
  shows "look c' = look c \<or> look c' = (look c)((ns, leaseName m) := None)"
  using assms lease_delete [of api look ns "leaseName m" c]
  by (auto simp: releaseLease_def lease_member_def split: prod.splits delete_outcome.splits)

interpretation lease: lease_lock
  "\<lambda>rt m c. tryAcquireLease api (snd rt) (fst rt) m c" "\<lambda>rt m c. releaseLease api (fst rt) m c"
  "lease_holder look ns" "\<lambda>rt. rReplica (fst rt)" "lease_member api look ns"
  for api look ns
proof (unfold_locales, goal_cases)
  case (1 r m c c')
  then show ?case
    using tryAcquireLease_cases [of api look ns "fst r" "snd r" m c "Inr True" c']
    by (auto simp: lease_holder_def)
next
  case (2 r m c x c' i)
  then show ?case
    using tryAcquireLease_cases [of api look ns "fst r" "snd r" m c x c']
    by (auto simp: lease_holder_def split: option.splits)
next
  case (3 r m c x c' n)
  then show ?case
    using tryAcquireLease_cases [of api look ns "fst r" "snd r" m c x c'] by (auto simp: lease_holder_def)
next
  case (4 r m c y c' n)
  then show ?case
    using releaseLease_look [of api look ns "fst r" "snd r" m c y c'] by (auto simp: lease_holder_def)
qed

subsection \<open>A concrete lease store\<close>

type_synonym lease_store = "(string \<times> string) \<rightharpoonup> lease"

definition store_api :: "lease_store lease_api" where
  "store_api =
     \<lparr>apiCreate = (\<lambda>ns n l c. if c (ns, n) = None then (LeaseCreated, c((ns, n) \<mapsto> l)) else (LeaseExists, c)),
      apiGet = (\<lambda>ns n c. case c (ns, n) of None \<Rightarrow> Inl ''not found'' | Some l \<Rightarrow> Inr l),
      apiDelete = (\<lambda>ns n c. if c (ns, n) = None then (LeaseNotFound, c) else (LeaseDeleted, c((ns, n) := None)))\<rparr>"

lemma store_api_ok: "lease_api_ok store_api (\<lambda>c. c)"
  by (auto simp: lease_api_ok_def store_api_def split: if_splits option.splits)

definition demo_router :: "string \<Rightarrow> router" where
  "demo_router podName = NewRouter True podName ''models'' Map.empty ''/models/load''"

lemma demo_router_member: "lease_member store_api (\<lambda>c. c) ''models'' (demo_router podName, now)"
  by (simp add: lease_member_def store_api_ok demo_router_def NewRouter_def)

lemma demo_acquire:
  "tryAcquireLease store_api now (demo_router p) m Map.empty = (Inr True,
     [(''models'', leaseName m) \<mapsto> \<lparr>lsHolder = Some (if p = [] then ''unknown-replica'' else p),
        lsDuration = leaseDuration, lsAcquireTime = now, lsRenewTime = now\<rparr>])"
  by (simp add: tryAcquireLease_def demo_router_def NewRouter_def store_api_def)

subsection \<open>Replicas exclude each other\<close>

text \<open>
  A run of several routers: \<open>inside\<close> is who was told to load which model and has not released the
  lease, a router together with the time of its attempt. A release ends only the load of the caller.
  With \<open>once\<close> no attempt is made in a name that is inside for the model already: within a router
  the registration of a load sees to that (\<open>Router_Machine\<close>), between routers only different names do.
\<close>

inductive lease_run ::
  "bool \<Rightarrow> 'c lease_api \<Rightarrow> ('c \<Rightarrow> (string \<times> string) \<rightharpoonup> lease) \<Rightarrow> string \<Rightarrow> 'c \<Rightarrow>
   ((router \<times> gotime) \<times> string) set \<Rightarrow> bool" for once api look ns where
  lr_start: "lease_run once api look ns c {}"
| lr_acquire: "lease_run once api look ns c inside \<Longrightarrow> lease_member api look ns (r, now) \<Longrightarrow>
    (once \<Longrightarrow> \<forall>q u. ((q, u), m) \<in> inside \<longrightarrow> rReplica q \<noteq> rReplica r) \<Longrightarrow>
    tryAcquireLease api now r m c = (x, c') \<Longrightarrow>
    lease_run once api look ns c' (if x = Inr True then insert ((r, now), m) inside else inside)"
| lr_release: "lease_run once api look ns c inside \<Longrightarrow> lease_member api look ns (r, now) \<Longrightarrow>
    ((r, now), m) \<in> inside \<Longrightarrow> releaseLease api r m c = (x, c') \<Longrightarrow>
    lease_run once api look ns c' (inside - {((r, now), m)})"

lemma lease_run_run: "lease_run True api look ns c inside \<Longrightarrow> lease.run api look ns c inside"
proof (induction rule: lease_run.induct)
  case (lr_acquire c inside r now m x c')
  show ?case
  proof (cases "x = Inr True")
    case True
    have "rReplica (fst p) \<noteq> rReplica (fst (r, now))" if "(p, m) \<in> inside" for p
      using lr_acquire.hyps(3) that by (cases p) auto
    with lr_acquire.IH lr_acquire.hyps(2,4) True show ?thesis
      by (auto intro!: lease.run.acquire_ok)
  next
    case False
    with lr_acquire.IH lr_acquire.hyps(2,4) lease.run.acquire_no [of api look ns c inside "(r, now)" m x c']
    show ?thesis by simp
  qed
next
  case (lr_release c inside r now m x c')
  then show ?case using lease.run.release [of api look ns c inside "(r, now)" m x c'] by simp
qed (rule lease.run.start)

text \<open>C35: mutual exclusion between replicas. If the API server behaves as documented and no attempt is made
  in a name that is loading the model already, then in every interleaving of attempts and releases, with
  calls that fail before or after they took effect, at most one attempt is told to load a model at a time.\<close>

theorem lease_mutual_exclusion:
  assumes "lease_run True api look ns c inside" and "((r, t), m) \<in> inside" and "((q, u), m) \<in> inside"
  shows "r = q \<and> t = u"
  using lease.mutual_exclusion [OF lease_run_run [OF assms(1)] assms(2,3)] by simp

text \<open>One replica loads; another one has tried and was turned away.\<close>

lemma turned_away_run:
  "\<exists>c. lease_run True store_api (\<lambda>c. c) ''models'' c {((demo_router ''a'', 1), ''llama'')} \<and>
    fst (tryAcquireLease store_api 2 (demo_router ''b'') ''llama'' c) = Inr False"
proof -
  let ?l = "\<lparr>lsHolder = Some ''a'', lsDuration = leaseDuration, lsAcquireTime = 1, lsRenewTime = 1\<rparr>"
  let ?c = "[(''models'', leaseName ''llama'') \<mapsto> ?l]"
  have "tryAcquireLease store_api 1 (demo_router ''a'') ''llama'' Map.empty = (Inr True, ?c)"
    by (simp add: demo_acquire)
  from lr_acquire [OF lr_start demo_router_member _ this, of True] have
    run: "lease_run True store_api (\<lambda>c. c) ''models'' ?c {((demo_router ''a'', 1), ''llama'')}" by simp
  have no: "tryAcquireLease store_api 2 (demo_router ''b'') ''llama'' ?c = (Inr False, ?c)"
    by (simp add: tryAcquireLease_def demo_router_def NewRouter_def store_api_def)
  from lr_acquire [OF run demo_router_member _ no] show ?thesis
    by (intro exI [of _ ?c]) (simp add: no run)
qed

theorem lease_mutual_exclusion_witness:
  "\<exists>c inside. lease_run True store_api (\<lambda>c. c) ''models'' c inside \<and>
    fst (tryAcquireLease store_api 2 (demo_router ''b'') ''llama'' c) = Inr False \<and>
    {p. (p, ''llama'') \<in> inside} = {(demo_router ''a'', 1)}"
proof -
  let ?inside = "{((demo_router ''a'', 1), ''llama'')}"
  obtain c where c: "lease_run True store_api (\<lambda>c. c) ''models'' c ?inside"
    "fst (tryAcquireLease store_api 2 (demo_router ''b'') ''llama'' c) = Inr False"
    using turned_away_run by blast
  have "p = (demo_router ''a'', 1)" if "(p, ''llama'') \<in> ?inside" for p :: "router \<times> gotime"
    using lease_mutual_exclusion [OF c(1), of "fst p" "snd p" "''llama''" "demo_router ''a''" 1] that
    by (cases p) simp
  with c show ?thesis by (intro exI [of _ c] exI [of _ ?inside]) auto
qed

text \<open>
  Replica names are the pod names of the downward API. Without it every replica is called
  \<open>unknown-replica\<close>; and the routers of two pools of one process have the same name.
\<close>

text \<open>C36: a shared name breaks the exclusion for everybody. Two routers of one name and a third one of another
  name in the same namespace: the second is let in beside the first, whose release deletes the lease under
  it, so that the third is let in too while the second is still loading.\<close>

theorem shared_name_breaks_exclusion:
  fixes r r' q :: router
  assumes "rHasClient r \<and> rNamespace r = ns" and "rHasClient r' \<and> rNamespace r' = ns"
    and "rHasClient q \<and> rNamespace q = ns" and "rReplica r' = rReplica r" and "rReplica q \<noteq> rReplica r"
    and "t' \<noteq> t"
  shows "\<exists>c. lease_run False store_api (\<lambda>c. c) ns c {((r', t'), m), ((q, u), m)}"
proof -
  have member: "lease_member store_api (\<lambda>c. c) ns (x, now)" if "x \<in> {r, r', q}" for x now
    using that assms(1-3) by (auto simp: lease_member_def store_api_ok)
  let ?l = "\<lambda>x now. \<lparr>lsHolder = Some (rReplica x), lsDuration = leaseDuration, lsAcquireTime = now, lsRenewTime = now\<rparr>"
  let ?c = "[(ns, leaseName m) \<mapsto> ?l r t]" and ?d = "[(ns, leaseName m) \<mapsto> ?l q u]"
  have "tryAcquireLease store_api t r m Map.empty = (Inr True, ?c)"
    using assms(1) by (simp add: tryAcquireLease_def store_api_def)
  from lr_acquire [OF lr_start member _ this] have
    1: "lease_run False store_api (\<lambda>c. c) ns ?c {((r, t), m)}" by simp
  have "tryAcquireLease store_api t' r' m ?c = (Inr True, ?c)"
    using assms(2,4) by (simp add: tryAcquireLease_def store_api_def)
  from lr_acquire [OF 1 member _ this] have
    2: "lease_run False store_api (\<lambda>c. c) ns ?c {((r', t'), m), ((r, t), m)}" by simp
  have "releaseLease store_api r m ?c = (None, Map.empty)"
    using assms(1) by (simp add: releaseLease_def store_api_def)
  from lr_release [OF 2 member _ this, of t] have
    3: "lease_run False store_api (\<lambda>c. c) ns Map.empty {((r', t'), m)}"
    using assms(6) by (simp add: insert_Diff_if)
  have "tryAcquireLease store_api u q m Map.empty = (Inr True, ?d)"
    using assms(3) by (simp add: tryAcquireLease_def store_api_def)
  from lr_acquire [OF 3 member _ this] have
    "lease_run False store_api (\<lambda>c. c) ns ?d {((q, u), m), ((r', t'), m)}" by simp
  then show ?thesis by (intro exI [of _ ?d]) (simp add: insert_commute)
qed

theorem shared_name_breaks_exclusion_witness:
  "\<exists>c. lease_run False store_api (\<lambda>c. c) ''models'' c
    {((demo_router [], 2), ''llama''), ((demo_router ''c'', 3), ''llama'')}"
  by (rule shared_name_breaks_exclusion [where r = "demo_router []" and t = 1])
    (simp_all add: demo_router_def NewRouter_def)

fun try_all ::
  "'c lease_api \<Rightarrow> string \<Rightarrow> (router \<times> gotime) list \<Rightarrow> 'c \<Rightarrow> (router_error + bool) list \<times> 'c" where
  "try_all api m [] c = ([], c)"
| "try_all api m ((r, now) # rs) c =
     (case tryAcquireLease api now r m c of (x, c') \<Rightarrow>
        case try_all api m rs c' of (xs, c'') \<Rightarrow> (x # xs, c''))"

text \<open>C37: leases do not expire. Once a lease of a model names some replica, no sequence of attempts by
  replicas with other names ever succeeds or changes it, however long ago the lease was due: a
  replica that dies while loading keeps every other one from loading that model.\<close>

theorem dead_replica_keeps_lease:
  assumes "lease_api_ok api look" and "look c (ns, leaseName m) = Some l"
    and "\<forall>(r, now) \<in> set tries. rHasClient r \<and> rNamespace r = ns \<and> lsHolder l \<noteq> Some (rReplica r) \<and>
      lsRenewTime l + lsDuration l * 1000000000 < now"
  shows "Inr True \<notin> set (fst (try_all api m tries c)) \<and>
    look (snd (try_all api m tries c)) (ns, leaseName m) = Some l"
  using assms(2,3)
proof (induction tries arbitrary: c)
  case (Cons t tries)
  obtain r now where t: "t = (r, now)" by fastforce
  obtain x c' where x: "tryAcquireLease api now r m c = (x, c')" by fastforce
  have mem: "lease_member api look ns (r, now)"
    using Cons.prems(2) assms(1) by (simp add: t lease_member_def)
  have "x \<noteq> Inr True \<and> look c' = look c"
    using tryAcquireLease_cases [OF mem x] Cons.prems by (auto simp: t lease_holder_def split: if_splits)
  moreover obtain xs d where "try_all api m tries c' = (xs, d)" by fastforce
  ultimately show ?case using Cons.IH [of c'] Cons.prems by (auto simp: t x)
qed simp

theorem dead_replica_keeps_lease_witness:
  "fst (try_all store_api ''llama'' [(demo_router ''b'', 999000000000)]
     [(''models'', leaseName ''llama'') \<mapsto>
       \<lparr>lsHolder = Some ''a'', lsDuration = leaseDuration, lsAcquireTime = 0, lsRenewTime = 0\<rparr>]) \<noteq> [Inr True]"
  using dead_replica_keeps_lease [OF store_api_ok, where ns = "''models''" and m = "''llama''" and
      c = "[(''models'', leaseName ''llama'') \<mapsto>
        \<lparr>lsHolder = Some ''a'', lsDuration = leaseDuration, lsAcquireTime = 0, lsRenewTime = 0\<rparr>]" and
      tries = "[(demo_router ''b'', 999000000000)]"]
  by (auto simp: demo_router_def NewRouter_def leaseDuration_def simp del: try_all.simps)

subsection \<open>Discovery\<close>

lemma fold_infos_some:
  "fold (\<lambda>i m. m(MiName i \<mapsto> i)) infos m k = Some v \<Longrightarrow> m k = Some v \<or> v \<in> set infos \<and> MiName v = k"
proof (induction infos arbitrary: m)
  case (Cons a infos)
  from Cons.IH [of "m(MiName a \<mapsto> a)"] Cons.prems show ?case by (auto split: if_splits)
qed simp

lemma fold_infos_dom:
  "dom (fold (\<lambda>i m. m(MiName i \<mapsto> i)) infos m) = dom m \<union> MiName ` set infos"
  by (induction infos arbitrary: m) auto

text \<open>What a pod contributes: nothing when it does not run or does not answer.\<close>

definition pod_answers :: "(pod \<Rightarrow> router_error + model_info list) \<Rightarrow> pod \<Rightarrow> model_info list" where
  "pod_answers query p =
     (if Phase p = PodRunning then (case query p of Inl e \<Rightarrow> [] | Inr infos \<Rightarrow> infos) else [])"

lemma warm_of_pods_Cons:
  "warm_of_pods query (p # ps) m = warm_of_pods query ps (fold (\<lambda>i m. m(MiName i \<mapsto> i)) (pod_answers query p) m)"
  by (cases "query p") (simp_all add: pod_answers_def)

lemma pod_answers_simps:
  "query p = Inl e \<Longrightarrow> pod_answers query p = []"
  "query p = Inr infos \<Longrightarrow> pod_answers query p = (if Phase p = PodRunning then infos else [])"
  by (simp_all add: pod_answers_def)

lemma pod_answers_iff:
  "v \<in> set (pod_answers query p) \<longleftrightarrow> Phase p = PodRunning \<and> (\<exists>infos. query p = Inr infos \<and> v \<in> set infos)"
  by (cases "query p") (simp_all add: pod_answers_simps)

lemma warm_of_pods_some:
  "warm_of_pods query pods m k = Some v \<Longrightarrow> m k = Some v \<or>
    (\<exists>p \<in> set pods. v \<in> set (pod_answers query p) \<and> MiName v = k)"
proof (induction pods arbitrary: m)
  case (Cons p ps)
  then have "warm_of_pods query ps (fold (\<lambda>i m. m(MiName i \<mapsto> i)) (pod_answers query p) m) k = Some v"
    by (simp only: warm_of_pods_Cons)
  from Cons.IH [OF this] fold_infos_some [of "pod_answers query p" m k v] show ?case by auto
qed simp

lemma warm_of_pods_dom:
  "dom (warm_of_pods query pods m) = dom m \<union> (\<Union>p \<in> set pods. MiName ` set (pod_answers query p))"
proof (induction pods arbitrary: m)
  case (Cons p ps)
  show ?case unfolding warm_of_pods_Cons Cons.IH fold_infos_dom by auto
qed simp

lemma queryPodModels_info:
  "queryPodModels net decode p = Inr infos \<Longrightarrow> v \<in> set infos \<Longrightarrow>
    MiPodIP v = PodIP p \<and> PodIP p \<noteq> [] \<and> MiNodeName v = NodeName p \<and> MiPodName v = PodName p"
  by (auto simp: queryPodModels_def Let_def split: if_splits sum.splits option.splits)

text \<open>After a discovery the warm models are exactly the models that some running pod which answered
  lists, each with the address of such a pod; when the pods cannot be listed nothing changes.\<close>

theorem discovery_shows_listed:
  assumes "rHasClient r"
  defines "opts \<equiv> \<lparr>inNamespace = Some (rNamespace r), matchingLabels = rPodSelector r, fieldNodeName = None\<rparr>"
  shows "case client opts of
      Inl e \<Rightarrow> discoverWarmModels client (queryPodModels net decode) r = r
    | Inr pods \<Rightarrow>
        (let lists = (\<lambda>p m. p \<in> set pods \<and> m \<in> MiName ` set (pod_answers (queryPodModels net decode) p));
             warm = GetWarmModels (discoverWarmModels client (queryPodModels net decode) r)
         in dom warm = {m. \<exists>p. lists p m} \<and>
            (\<forall>m v. warm m = Some v \<longrightarrow> MiName v = m \<and> (\<exists>p. lists p m \<and> MiPodIP v = PodIP p \<and> PodIP p \<noteq> [])))"
proof (cases "client opts")
  case (Inl e)
  then show ?thesis
    using assms by (simp add: discoverWarmModels_def discoverWarmModelsWithSelector_def)
next
  case (Inr pods)
  let ?q = "queryPodModels net decode"
  have "rModels (discoverWarmModels client ?q r) = warm_of_pods ?q pods Map.empty"
    using assms Inr by (simp add: discoverWarmModels_def discoverWarmModelsWithSelector_def)
  then have warm: "GetWarmModels (discoverWarmModels client ?q r) = warm_of_pods ?q pods Map.empty"
    by (auto simp: GetWarmModels_def fun_eq_iff split: option.split)
  have "dom (warm_of_pods ?q pods Map.empty) = {m. \<exists>p. p \<in> set pods \<and> m \<in> MiName ` set (pod_answers ?q p)}"
    unfolding warm_of_pods_dom by auto
  moreover have "MiName v = m \<and> (\<exists>p. (p \<in> set pods \<and> m \<in> MiName ` set (pod_answers ?q p)) \<and>
      MiPodIP v = PodIP p \<and> PodIP p \<noteq> [])" if "warm_of_pods ?q pods Map.empty m = Some v" for m v
  proof -
    from warm_of_pods_some [OF that] obtain p where
      p: "p \<in> set pods" "v \<in> set (pod_answers ?q p)" "MiName v = m" by auto
    then have "MiPodIP v = PodIP p \<and> PodIP p \<noteq> []"
      using queryPodModels_info [of net decode p _ v] by (auto simp: pod_answers_iff)
    with p show ?thesis by auto
  qed
  ultimately show ?thesis by (simp only: Inr sum.case Let_def warm simp_thms) blast
qed

subsection \<open>The outcome of a request\<close>

text \<open>
  The loading set only tells requests apart: neither finding a pod nor the leases read it, and a
  request that ends takes its own mark out again.
\<close>

lemma findLoadPod_loading [simp]: "findLoadPod env (r\<lparr>rLoading := S\<rparr>) = findLoadPod env r"
  by (simp add: findLoadPod_def split: sum.split prod.split list.split)

lemma loadModelOnPod_loading [simp]: "loadModelOnPod net (r\<lparr>rLoading := S\<rparr>) p m = loadModelOnPod net r p m"
  by (simp add: loadModelOnPod_def)

lemma tryAcquireLease_loading [simp]:
  "tryAcquireLease api now (r\<lparr>rLoading := S\<rparr>) m c = tryAcquireLease api now r m c"
  by (simp add: tryAcquireLease_def split: sum.split prod.split create_outcome.split)

lemma releaseLease_loading [simp]: "releaseLease api (r\<lparr>rLoading := S\<rparr>) m c = releaseLease api r m c"
  by (simp add: releaseLease_def)

lemma releaseLease_record [simp]:
  "releaseLease api (recordModel now m p r) n c = releaseLease api r n c"
  by (simp add: releaseLease_def recordModel_def)

lemma recordModel_loading:
  "recordModel now m p (r\<lparr>rLoading := S\<rparr>) = (recordModel now m p r)\<lparr>rLoading := S\<rparr>"
  by (simp add: recordModel_def)

lemma rLoading_restore [simp]:
  "m \<notin> rLoading r \<Longrightarrow> (recordModel now m p r)\<lparr>rLoading := rLoading r\<rparr> = recordModel now m p r"
  by (simp add: recordModel_def)

text \<open>What a request on a cold model does, as one equation.\<close>

lemma GetModelEndpoint_cold:
  assumes "rModels r m = None" and "m \<notin> rLoading r"
  shows "GetModelEndpoint api env await after m (r, c) =
     (case tryAcquireLease api (reNow env) r m c of
        (Inl e, c1) \<Rightarrow> (Inl (RtAcquireFailed e), (r, c1), [Some (RtAcquireFailed e)])
      | (Inr False, c1) \<Rightarrow> (Inl RtLeaseHeld, (r, c1), [Some RtLeaseHeld])
      | (Inr True, c1) \<Rightarrow>
          (case loadModelOnBestNode env m r of
             (Inl e, _) \<Rightarrow> (Inl (RtLoadFailed e), (r, snd (releaseLease api r m c1)), [Some (RtLoadFailed e)])
           | (Inr url, r2) \<Rightarrow> (Inr url, (r2, snd (releaseLease api r m c1)), [None])))"
  using assms
  by (auto simp: GetModelEndpoint_def Let_def loadModelOnBestNode_def recordModel_loading
      split: prod.split sum.split option.split bool.split)

lemma loadModelOnBestNode_cases:
  obtains (failed) e where "loadModelOnBestNode env m r = (Inl e, r)"
  | (loaded) pod where "findLoadPod env r = Inr pod" "loadModelOnPod (reNet env) r pod m = None"
      "loadModelOnBestNode env m r = (Inr (endpoint_url (PodIP pod)), recordModel (reNow env) m pod r)"
  by (cases "findLoadPod env r"; cases "loadModelOnPod (reNet env) r (projr (findLoadPod env r)) m")
    (auto simp: loadModelOnBestNode_def)

text \<open>What one acquire and one release leave in the store, with or without a client.\<close>

lemma acquire_effect:
  assumes "lease_api_ok api look" and "tryAcquireLease api now r m c = (x, c1)"
  shows "k \<noteq> (rNamespace r, leaseName m) \<Longrightarrow> look c1 k = look c k"
    and "look c1 (rNamespace r, leaseName m) = Some l \<Longrightarrow>
      look c (rNamespace r, leaseName m) = Some l \<or> lsHolder l = Some (rReplica r)"
    and "rHasClient r \<Longrightarrow> look c (rNamespace r, leaseName m) = Some l \<Longrightarrow> lsHolder l \<noteq> Some (rReplica r) \<Longrightarrow>
      look c1 = look c \<and> x \<noteq> Inr True"
proof -
  show "k \<noteq> (rNamespace r, leaseName m) \<Longrightarrow> look c1 k = look c k"
    using assms tryAcquireLease_cases [of api look "rNamespace r" r now m c x c1]
    by (cases "rHasClient r") (auto simp: lease_member_def tryAcquireLease_def)
  show "look c (rNamespace r, leaseName m) = Some l \<or> lsHolder l = Some (rReplica r)"
    if "look c1 (rNamespace r, leaseName m) = Some l"
    using assms that tryAcquireLease_cases [of api look "rNamespace r" r now m c x c1]
    by (cases "rHasClient r") (auto simp: lease_member_def tryAcquireLease_def)
  show "look c1 = look c \<and> x \<noteq> Inr True"
    if "rHasClient r" "look c (rNamespace r, leaseName m) = Some l" "lsHolder l \<noteq> Some (rReplica r)"
    using assms that tryAcquireLease_cases [of api look "rNamespace r" r now m c x c1]
    by (auto simp: lease_member_def lease_holder_def)
qed

lemma release_effect:
  assumes "lease_api_ok api look"
  shows "look (snd (releaseLease api r m c)) k = look c k \<or>
    k = (rNamespace r, leaseName m) \<and> look (snd (releaseLease api r m c)) k = None"
proof (cases "rHasClient r")
  case True
  obtain x c' where "releaseLease api r m c = (x, c')" by fastforce
  with True assms releaseLease_look [of api look "rNamespace r" r 0 m c x c'] show ?thesis
    by (auto simp: lease_member_def split: if_splits)
qed (simp add: releaseLease_def)

lemma release_gone:
  assumes "lease_api_ok api look" and "rHasClient r"
    and "\<And>e c'. apiDelete api (rNamespace r) (leaseName m) c \<noteq> (LeaseDeleteFailed e, c')"
  shows "look (snd (releaseLease api r m c)) (rNamespace r, leaseName m) = None"
proof -
  obtain d c' where d: "apiDelete api (rNamespace r) (leaseName m) c = (d, c')" by fastforce
  have "look c' (rNamespace r, leaseName m) = None"
    by (rule lease_gone [OF assms(1) d]) (use assms(3) d in blast)
  moreover have "snd (releaseLease api r m c) = c'" using assms(2) d by (cases d) (simp_all add: releaseLease_def)
  ultimately show ?thesis by simp
qed

text \<open>C21: the outcome of a request on a model that is neither warm nor being loaded. It sends exactly one
  message on its channel, and its own mark is gone when it returns. It succeeds only after a pod of the best node
  accepted the load: then waiters are told so, the model is recorded and the next request is
  answered from memory with the same endpoint. On every error the router is as before and waiters
  are told the error that is returned, which says what failed: the attempt at the lease, the lease of another
  replica, or the load. A request that got the lease has deleted it when it returns, after a failed load
  too, unless the API refuses the deletion; one that did not get it deletes nothing. Other leases are
  untouched, the lease of another replica is respected, and a lease this request leaves behind is its own.\<close>

theorem get_endpoint_cold:
  assumes "rModels r m = None" and "m \<notin> rLoading r" and "lease_api_ok api look"
    and "GetModelEndpoint api env await after m (r, c) = (res, (r', c'), sent)"
  shows "(case res of
       Inr url \<Rightarrow> sent = [None] \<and>
         (\<exists>pod. findLoadPod env r = Inr pod \<and> loadModelOnPod (reNet env) r pod m = None \<and>
            url = endpoint_url (PodIP pod) \<and> r' = recordModel (reNow env) m pod r) \<and>
         GetModelEndpoint api env2 await2 after2 m (r', c') = (Inr url, (r', c'), [])
     | Inl e \<Rightarrow> sent = [Some e] \<and> r' = r \<and>
         (case tryAcquireLease api (reNow env) r m c of
            (Inl f, c1) \<Rightarrow> e = RtAcquireFailed f
          | (Inr False, c1) \<Rightarrow> e = RtLeaseHeld
          | (Inr True, c1) \<Rightarrow> \<exists>f. e = RtLoadFailed f \<and> fst (loadModelOnBestNode env m r) = Inl f)) \<and>
    (case tryAcquireLease api (reNow env) r m c of (x, c1) \<Rightarrow>
       if x = Inr True
       then rHasClient r \<longrightarrow> (\<forall>e c2. apiDelete api (rNamespace r) (leaseName m) c1 \<noteq> (LeaseDeleteFailed e, c2)) \<longrightarrow>
         look c' (rNamespace r, leaseName m) = None
       else c' = c1) \<and>
    (\<forall>k. k \<noteq> (rNamespace r, leaseName m) \<longrightarrow> look c' k = look c k) \<and>
    (\<forall>l. look c (rNamespace r, leaseName m) = Some l \<longrightarrow> rHasClient r \<longrightarrow> lsHolder l \<noteq> Some (rReplica r) \<longrightarrow>
       look c' = look c \<and> (\<exists>e. res = Inl e)) \<and>
    (\<forall>l. look c' (rNamespace r, leaseName m) = Some l \<longrightarrow>
       look c (rNamespace r, leaseName m) = Some l \<or> lsHolder l = Some (rReplica r))"
    (is "?out \<and> ?lease \<and> ?frame \<and> ?respect \<and> ?own")
proof -
  obtain x c1 where x: "tryAcquireLease api (reNow env) r m c = (x, c1)" by fastforce
  note eq = GetModelEndpoint_cold [OF assms(1,2), of api env await "after" c, unfolded x assms(4)]
  have warm: "rModels (recordModel t m pod r) m = Some \<lparr>MiName = m, MiNodeName = NodeName pod,
      MiPodName = PodName pod, MiPodIP = PodIP pod, MiLoadedAt = Some t, MiVRAMUsage = 0\<rparr>" for t pod
    by (simp add: recordModel_def)
  have c': "c' = (if x = Inr True then snd (releaseLease api r m c1) else c1)"
    using eq by (auto split: sum.splits prod.splits bool.splits)
  have err: "\<exists>e. res = Inl e" if "x \<noteq> Inr True"
    using that eq by (auto split: sum.splits bool.splits)
  have out: ?out
    by (rule loadModelOnBestNode_cases [of env m r])
      (use eq in \<open>auto simp: x GetModelEndpoint_def warm split: sum.splits bool.splits\<close>)
  have ?lease
  proof (cases "x = Inr True")
    case True
    have "look (snd (releaseLease api r m c1)) (rNamespace r, leaseName m) = None"
      if "rHasClient r" "\<And>e c2. apiDelete api (rNamespace r) (leaseName m) c1 \<noteq> (LeaseDeleteFailed e, c2)"
      using release_gone [OF assms(3) that] .
    with True show ?thesis by (simp add: x c')
  qed (simp add: x c')
  moreover have ?frame
    using acquire_effect(1) [OF assms(3) x] release_effect [OF assms(3)] by (metis c')
  moreover have ?respect
    using acquire_effect(3) [OF assms(3) x] err by (auto simp: c')
  moreover have ?own
  proof (intro allI impI)
    fix l
    assume "look c' (rNamespace r, leaseName m) = Some l"
    then have "look c1 (rNamespace r, leaseName m) = Some l"
      using release_effect [OF assms(3), of r m c1 "(rNamespace r, leaseName m)"]
      by (auto simp: c' split: if_splits)
    then show "look c (rNamespace r, leaseName m) = Some l \<or> lsHolder l = Some (rReplica r)"
      by (rule acquire_effect(2) [OF assms(3) x])
  qed
  ultimately show ?thesis using out by simp
qed

definition demo_router_env :: router_env where
  "demo_router_env =
     \<lparr>reNet = \<lparr>urlOk = (\<lambda>u. True), doReq = (\<lambda>q. Inr \<lparr>StatusCode = 201, Body = Some []\<rparr>)\<rparr>,
      rePods = (\<lambda>opts. Inr [demo_server]), reSelectorOk = (\<lambda>s. True),
      reBestNode = Inr (''gpu-1'', 1), reNow = 5\<rparr>"

lemma demo_load: "loadModelOnBestNode demo_router_env m (demo_router n) =
    (Inr (endpoint_url ''10.0.0.1''), recordModel 5 m demo_server (demo_router n))"
  by (simp add: loadModelOnBestNode_def findLoadPod_def loadModelOnPod_def demo_router_env_def demo_router_def
      NewRouter_def demo_server_def StatusOK_def StatusCreated_def Let_def)

lemma demo_now [simp]: "reNow demo_router_env = 5"
  by (simp add: demo_router_env_def)

theorem get_endpoint_cold_witness:
  "\<exists>w. GetModelEndpoint store_api demo_router_env DoneCancelled (demo_router ''a'') ''llama'' (demo_router ''a'', Map.empty) =
      (Inr (endpoint_url ''10.0.0.1''), w, [None]) \<and>
    GetModelEndpoint store_api demo_router_env DoneCancelled (demo_router ''a'') ''llama'' w =
      (Inr (endpoint_url ''10.0.0.1''), w, []) \<and>
    snd w (''models'', leaseName ''llama'') = None"
proof -
  have r: "rModels (demo_router ''a'') ''llama'' = None" "''llama'' \<notin> rLoading (demo_router ''a'')"
    "rNamespace (demo_router ''a'') = ''models''" "rReplica (demo_router ''a'') = ''a''"
    by (simp_all add: demo_router_def NewRouter_def)
  obtain c' where c': "GetModelEndpoint store_api demo_router_env DoneCancelled (demo_router ''a'') ''llama''
      (demo_router ''a'', Map.empty) =
      (Inr (endpoint_url ''10.0.0.1''), (recordModel 5 ''llama'' demo_server (demo_router ''a''), c'), [None])"
    by (simp add: GetModelEndpoint_cold r demo_acquire demo_load)
  have "rHasClient (demo_router ''a'')" by (simp add: demo_router_def NewRouter_def)
  moreover have "apiDelete store_api ns n d \<noteq> (LeaseDeleteFailed e, d')" for ns n d e d'
    by (simp add: store_api_def)
  ultimately show ?thesis
    using get_endpoint_cold [OF r(1,2) store_api_ok c'] r(3,4) c' by (auto simp: demo_acquire)
qed

subsection \<open>The router and the status of a listed model\<close>

text \<open>A model server that lists every model it could load, with a status, as llama.cpp's router does.\<close>

definition listing_net :: transport where
  "listing_net = \<lparr>urlOk = (\<lambda>u. True), doReq = (\<lambda>q. Inr \<lparr>StatusCode = 200, Body = Some []\<rparr>)\<rparr>"

definition unloaded_listing :: "string \<Rightarrow> model_entry list option" where
  "unloaded_listing body = Some [\<lparr>ID = ''llama'', StatusValue = ''unloaded''\<rparr>]"

theorem discovery_shows_listed_witness:
  "dom (GetWarmModels (discoverWarmModels (\<lambda>opts. Inr [demo_server]) (queryPodModels listing_net unloaded_listing)
     (demo_router ''a''))) = {''llama''}"
proof -
  let ?q = "queryPodModels listing_net unloaded_listing"
  have r: "rHasClient (demo_router ''a'')" by (simp add: demo_router_def NewRouter_def)
  have "MiName ` set (pod_answers ?q demo_server) = {''llama''}"
    by (simp add: pod_answers_def queryPodModels_def listing_net_def unloaded_listing_def demo_server_def
        StatusOK_def Let_def)
  with discovery_shows_listed [OF r, of "\<lambda>opts. Inr [demo_server]" listing_net unloaded_listing]
  show ?thesis by (simp add: Let_def)
qed

text \<open>The router does not read the status of a listed model. A server that lists a model as unloaded
  makes it warm for the router, which answers requests with that server's endpoint and never asks
  for the load; from the same answer the tracker and the loader conclude that it is not loaded.\<close>

theorem router_ignores_status:
  "let q = queryPodModels listing_net unloaded_listing;
       r = discoverWarmModels (\<lambda>opts. Inr [demo_server]) q (demo_router ''a'')
   in GetModelEndpoint api env await after ''llama'' (r, c) = (Inr (endpoint_url (PodIP demo_server)), (r, c), []) \<and>
     queryPod listing_net unloaded_listing t (PodIP demo_server) = Inr {} \<and>
     \<not> isModelLoaded unloaded_listing listing_net cfg (PodIP demo_server) ''llama''"
  by (simp add: Let_def queryPodModels_def listing_net_def unloaded_listing_def demo_server_def demo_router_def
      NewRouter_def discoverWarmModels_def discoverWarmModelsWithSelector_def GetModelEndpoint_def queryPod_def
      isModelLoaded_def live_status_def StatusOK_def)

end
