(* ===== verification/Router_Machine.thy ===== *)
theory Router_Machine
  imports Router_Correct
begin

section \<open>Concurrent requests in the router\<close>

text \<open>
  Any number of \<open>GetModelEndpoint\<close> calls of one replica at once. A call is a goroutine with a
  number and \<open>job\<close> gives its model; its program counter names its next atomic action: a critical
  section, a channel operation, a call of the Kubernetes API or the exchange with the model server.
  \<open>loadingModels\<close> maps a model to the channel of its \<open>LoadingState\<close>, and a channel holds at most
  one message, as \<open>make(chan error, 1)\<close> does. Discoveries, updates of the selector and the
  namespace, and other replicas act at any time. A step is labelled with the call whose context it
  finds cancelled, if any.
\<close>

datatype rpc =
  RCheck
| RRegister
| RWait nat
| RLookup
| RAcquire nat
| RLoad nat
| RRecord nat pod gotime
| RSend nat "router_error option" bool "router_error + string"
| RRelease "router_error + string"
| RUnregister "router_error + string"
| RReturned "router_error + string"

record 'c rmstate =
  rmRouter :: router
  rmLoading :: "string \<rightharpoonup> nat"
  rmChan :: "nat \<Rightarrow> router_error option option"
  rmNext :: nat
  rmCluster :: 'c
  rpcs :: "nat \<Rightarrow> rpc"

definition rgoto :: "nat \<Rightarrow> rpc \<Rightarrow> 'c rmstate \<Rightarrow> 'c rmstate" where
  "rgoto g c s = s\<lparr>rpcs := (rpcs s)(g := c)\<rparr>"

lemma rgoto_simps [simp]:
  "rmRouter (rgoto g c s) = rmRouter s" "rmLoading (rgoto g c s) = rmLoading s"
  "rmChan (rgoto g c s) = rmChan s" "rmNext (rgoto g c s) = rmNext s"
  "rmCluster (rgoto g c s) = rmCluster s" "rpcs (rgoto g c s) = (rpcs s)(g := c)"
  by (simp_all add: rgoto_def)

text \<open>
  \<open>RSend ch msg rel res\<close> sends \<open>msg\<close>, then releases the lease when \<open>rel\<close> (the lease was
  acquired), and returns \<open>res\<close>. A send blocks while the channel is full.
\<close>

inductive rstep ::
  "'c lease_api \<Rightarrow> (nat \<Rightarrow> string) \<Rightarrow> nat option \<Rightarrow> 'c rmstate \<Rightarrow> 'c rmstate \<Rightarrow> bool"
  for api job where
  r_warm: "rpcs s g = RCheck \<Longrightarrow> rModels (rmRouter s) (job g) = Some info \<Longrightarrow>
    rstep api job None s (rgoto g (RReturned (Inr (endpoint_url (MiPodIP info)))) s)"
| r_cold: "rpcs s g = RCheck \<Longrightarrow> rModels (rmRouter s) (job g) = None \<Longrightarrow>
    rstep api job None s (rgoto g RRegister s)"
| r_join: "rpcs s g = RRegister \<Longrightarrow> rmLoading s (job g) = Some ch \<Longrightarrow>
    rstep api job None s (rgoto g (RWait ch) s)"
| r_register: "rpcs s g = RRegister \<Longrightarrow> rmLoading s (job g) = None \<Longrightarrow>
    rstep api job None s (rgoto g (RAcquire (rmNext s))
      (s\<lparr>rmLoading := (rmLoading s)(job g \<mapsto> rmNext s), rmChan := (rmChan s)(rmNext s := None),
         rmNext := rmNext s + 1,
         rmRouter := (rmRouter s)\<lparr>rLoading := insert (job g) (rLoading (rmRouter s))\<rparr>\<rparr>))"
| r_receive: "rpcs s g = RWait ch \<Longrightarrow> rmChan s ch = Some msg \<Longrightarrow>
    rstep api job None s (rgoto g (case msg of None \<Rightarrow> RLookup | Some e \<Rightarrow> RReturned (Inl (RtConcurrentFailed e)))
      (s\<lparr>rmChan := (rmChan s)(ch := None)\<rparr>))"
| r_cancel: "rpcs s g = RWait ch \<Longrightarrow>
    rstep api job (Some g) s (rgoto g (RReturned (Inl RtCancelled)) s)"
| r_lookup: "rpcs s g = RLookup \<Longrightarrow>
    rstep api job None s (rgoto g (RReturned (case rModels (rmRouter s) (job g) of
        None \<Rightarrow> Inl RtNotAvailableAfterLoad
      | Some info \<Rightarrow> Inr (endpoint_url (MiPodIP info)))) s)"
| r_acquire: "rpcs s g = RAcquire ch \<Longrightarrow>
    tryAcquireLease api now (rmRouter s) (job g) (rmCluster s) = (x, c') \<Longrightarrow>
    rstep api job None s (rgoto g (case x of
        Inl e \<Rightarrow> RSend ch (Some (RtAcquireFailed e)) False (Inl (RtAcquireFailed e))
      | Inr False \<Rightarrow> RSend ch (Some RtLeaseHeld) False (Inl RtLeaseHeld)
      | Inr True \<Rightarrow> RLoad ch) (s\<lparr>rmCluster := c'\<rparr>))"
| r_load_failed: "rpcs s g = RLoad ch \<Longrightarrow>
    (findLoadPod env (rmRouter s) = Inl e \<or>
     (\<exists>pod. findLoadPod env (rmRouter s) = Inr pod \<and> loadModelOnPod (reNet env) (rmRouter s) pod (job g) = Some e)) \<Longrightarrow>
    rstep api job None s (rgoto g (RSend ch (Some (RtLoadFailed e)) True (Inl (RtLoadFailed e))) s)"
| r_loaded: "rpcs s g = RLoad ch \<Longrightarrow> findLoadPod env (rmRouter s) = Inr pod \<Longrightarrow>
    loadModelOnPod (reNet env) (rmRouter s) pod (job g) = None \<Longrightarrow>
    rstep api job None s (rgoto g (RRecord ch pod (reNow env)) s)"
| r_record: "rpcs s g = RRecord ch pod now \<Longrightarrow>
    rstep api job None s (rgoto g (RSend ch None True (Inr (endpoint_url (PodIP pod))))
      (s\<lparr>rmRouter := recordModel now (job g) pod (rmRouter s)\<rparr>))"
| r_send: "rpcs s g = RSend ch msg rel res \<Longrightarrow> rmChan s ch = None \<Longrightarrow>
    rstep api job None s (rgoto g (if rel then RRelease res else RUnregister res)
      (s\<lparr>rmChan := (rmChan s)(ch \<mapsto> msg)\<rparr>))"
| r_release: "rpcs s g = RRelease res \<Longrightarrow> releaseLease api (rmRouter s) (job g) (rmCluster s) = (e, c') \<Longrightarrow>
    rstep api job None s (rgoto g (RUnregister res) (s\<lparr>rmCluster := c'\<rparr>))"
| r_unregister: "rpcs s g = RUnregister res \<Longrightarrow>
    rstep api job None s (rgoto g (RReturned res)
      (s\<lparr>rmLoading := (rmLoading s)(job g := None),
         rmRouter := (rmRouter s)\<lparr>rLoading := rLoading (rmRouter s) - {job g}\<rparr>\<rparr>))"
| r_discover: "rstep api job None s
    (s\<lparr>rmRouter := discoverWarmModelsWithSelector client query ns sel (rmRouter s)\<rparr>)"
| r_selector: "rstep api job None s (s\<lparr>rmRouter := fst (router_UpdatePodSelector sel (rmRouter s))\<rparr>)"
| r_namespace: "rstep api job None s (s\<lparr>rmRouter := router_UpdateNamespace ns (rmRouter s)\<rparr>)"
| r_cluster: "rstep api job None s (s\<lparr>rmCluster := c'\<rparr>)"

definition rinit :: "router \<Rightarrow> 'c \<Rightarrow> 'c rmstate" where
  "rinit r c = \<lparr>rmRouter = r\<lparr>rLoading := {}\<rparr>, rmLoading = Map.empty, rmChan = (\<lambda>_. None), rmNext = 0,
     rmCluster = c, rpcs = (\<lambda>_. RCheck)\<rparr>"

inductive rreach :: "'c lease_api \<Rightarrow> (nat \<Rightarrow> string) \<Rightarrow> 'c rmstate \<Rightarrow> bool" for api job where
  rr_init: "rreach api job (rinit r c)"
| rr_step: "rreach api job s \<Longrightarrow> rstep api job x s s' \<Longrightarrow> rreach api job s'"

text \<open>Runs in which no call of \<open>G\<close> is cancelled.\<close>

inductive rrun :: "'c lease_api \<Rightarrow> (nat \<Rightarrow> string) \<Rightarrow> nat set \<Rightarrow> 'c rmstate \<Rightarrow> 'c rmstate \<Rightarrow> bool"
  for api job G s where
  ru_refl: "rrun api job G s s"
| ru_step: "rrun api job G s s' \<Longrightarrow> rstep api job x s' s'' \<Longrightarrow> set_option x \<inter> G = {} \<Longrightarrow> rrun api job G s s''"

subsection \<open>The invariant\<close>

text \<open>The channel a call still has to send on, and whether a call is between its registration and its end.\<close>

fun sender :: "rpc \<Rightarrow> nat option" where
  "sender (RAcquire ch) = Some ch"
| "sender (RLoad ch) = Some ch"
| "sender (RRecord ch pod now) = Some ch"
| "sender (RSend ch msg rel res) = Some ch"
| "sender _ = None"

fun owner :: "rpc \<Rightarrow> bool" where
  "owner (RRelease res) = True"
| "owner (RUnregister res) = True"
| "owner c = (sender c \<noteq> None)"

text \<open>
  The owners of a model are unique and exactly the registered models have one; a call that has yet
  to send has an empty channel, which is the registered one; channels are used once.
\<close>

definition rinv :: "(nat \<Rightarrow> string) \<Rightarrow> 'c rmstate \<Rightarrow> bool" where
  "rinv job s \<longleftrightarrow>
     rLoading (rmRouter s) = dom (rmLoading s) \<and>
     (\<forall>g. owner (rpcs s g) \<longrightarrow> job g \<in> dom (rmLoading s)) \<and>
     (\<forall>g h. owner (rpcs s g) \<longrightarrow> owner (rpcs s h) \<longrightarrow> job g = job h \<longrightarrow> g = h) \<and>
     (\<forall>m \<in> dom (rmLoading s). \<exists>g. owner (rpcs s g) \<and> job g = m) \<and>
     (\<forall>g ch. sender (rpcs s g) = Some ch \<longrightarrow> rmLoading s (job g) = Some ch \<and> rmChan s ch = None) \<and>
     (\<forall>m n ch. rmLoading s m = Some ch \<longrightarrow> rmLoading s n = Some ch \<longrightarrow> m = n) \<and>
     (\<forall>m ch. rmLoading s m = Some ch \<longrightarrow> ch < rmNext s) \<and>
     (\<forall>g ch. rpcs s g = RWait ch \<longrightarrow> ch < rmNext s)"

lemma rinvD:
  assumes "rinv job s"
  shows rinv_loading: "rLoading (rmRouter s) = dom (rmLoading s)"
    and rinv_owner: "owner (rpcs s g) \<Longrightarrow> job g \<in> dom (rmLoading s)"
    and rinv_unique: "owner (rpcs s g) \<Longrightarrow> owner (rpcs s h) \<Longrightarrow> job g = job h \<Longrightarrow> g = h"
    and rinv_owned: "m \<in> dom (rmLoading s) \<Longrightarrow> \<exists>g. owner (rpcs s g) \<and> job g = m"
    and rinv_sender: "sender (rpcs s g) = Some ch \<Longrightarrow> rmLoading s (job g) = Some ch \<and> rmChan s ch = None"
    and rinv_inj: "rmLoading s m = Some ch \<Longrightarrow> rmLoading s n = Some ch \<Longrightarrow> m = n"
    and rinv_next: "rmLoading s m = Some ch \<Longrightarrow> ch < rmNext s"
    and rinv_wait: "rpcs s g = RWait ch \<Longrightarrow> ch < rmNext s"
  using assms unfolding rinv_def by blast+

lemma sender_owner: "sender c = Some ch \<Longrightarrow> owner c"
  by (cases c) auto

lemma sender_unique:
  assumes "rinv job s" and "sender (rpcs s g) = Some ch" and "sender (rpcs s h) = Some ch"
  shows "g = h"
proof -
  have "rmLoading s (job g) = Some ch" "rmLoading s (job h) = Some ch"
    using assms unfolding rinv_def by blast+
  then have "job g = job h" using assms(1) unfolding rinv_def by blast
  then show ?thesis using assms sender_owner unfolding rinv_def by blast
qed

text \<open>
  Every step other than the registration and its end keeps who owns which model; such a step keeps
  the invariant if it leaves the channels alone that are still to be sent on.
\<close>

lemma rinv_quiet:
  assumes "rinv job s" and "rmLoading s' = rmLoading s" and "rmNext s' = rmNext s"
    and "rLoading (rmRouter s') = rLoading (rmRouter s)"
    and own: "\<And>h. owner (rpcs s' h) = owner (rpcs s h)"
    and send: "\<And>h ch. sender (rpcs s' h) = Some ch \<Longrightarrow> sender (rpcs s h) = Some ch \<and> rmChan s' ch = rmChan s ch"
    and wait: "\<And>h ch. rpcs s' h = RWait ch \<Longrightarrow> ch < rmNext s"
  shows "rinv job s'"
proof -
  have "\<forall>g ch. sender (rpcs s' g) = Some ch \<longrightarrow> rmLoading s (job g) = Some ch \<and> rmChan s' ch = None"
    using send assms(1) unfolding rinv_def by metis
  moreover have "\<forall>h ch. rpcs s' h = RWait ch \<longrightarrow> ch < rmNext s"
    using wait by blast
  ultimately show ?thesis
    using assms(1) unfolding rinv_def assms(2,3,4) own by (elim conjE, intro conjI) assumption+
qed

lemma rinv_register:
  assumes "rinv job s" and "rpcs s g = RRegister" and "rmLoading s (job g) = None"
  shows "rinv job (rgoto g (RAcquire (rmNext s))
      (s\<lparr>rmLoading := (rmLoading s)(job g \<mapsto> rmNext s), rmChan := (rmChan s)(rmNext s := None),
         rmNext := rmNext s + 1,
         rmRouter := (rmRouter s)\<lparr>rLoading := insert (job g) (rLoading (rmRouter s))\<rparr>\<rparr>))"
proof -
  have free: "\<not> (owner (rpcs s h) \<and> job h = job g)" for h
    using rinv_owner [OF assms(1), of h] assms(3) by auto
  have fresh: "rmLoading s m \<noteq> Some (rmNext s)" for m
    using rinv_next [OF assms(1), of m] by blast
  have own: "\<not> owner (rpcs s g)" by (simp add: assms(2))
  show ?thesis
    unfolding rinv_def
  proof (intro conjI, goal_cases)
    case 1
    then show ?case using assms(1) by (simp add: rinv_def)
  next
    case 2
    then show ?case using assms(1) by (auto simp: rinv_def)
  next
    case 3
    then show ?case using assms(1) free unfolding rinv_def by (auto split: if_splits) metis
  next
    case 4
    have "\<exists>h. owner (rpcs s h) \<and> h \<noteq> g \<and> job h = m" if "m \<in> dom (rmLoading s)" for m
      using that assms(1) own unfolding rinv_def by metis
    then show ?case by (auto simp: domIff)
  next
    case 5
    have "rmLoading s (job h) = Some ch \<and> rmChan s ch = None" if "sender (rpcs s h) = Some ch" for h ch
      using that assms(1) unfolding rinv_def by blast
    then show ?case using free fresh sender_owner by (auto split: if_splits)
  next
    case 6
    then show ?case using assms(1) fresh unfolding rinv_def by (auto split: if_splits)
  next
    case 7
    then show ?case using assms(1) unfolding rinv_def by (auto split: if_splits intro: less_SucI)
  next
    case 8
    then show ?case using assms(1) unfolding rinv_def by (auto split: if_splits intro: less_SucI)
  qed
qed

lemma rinv_unregister:
  assumes "rinv job s" and "rpcs s g = RUnregister res"
  shows "rinv job (rgoto g (RReturned res)
      (s\<lparr>rmLoading := (rmLoading s)(job g := None),
         rmRouter := (rmRouter s)\<lparr>rLoading := rLoading (rmRouter s) - {job g}\<rparr>\<rparr>))"
proof -
  have own: "owner (rpcs s g)" by (simp add: assms(2))
  then have uniq: "owner (rpcs s h) \<Longrightarrow> job h = job g \<Longrightarrow> h = g" for h
    using assms(1) unfolding rinv_def by blast
  have snd: "sender (rpcs s g) = None" by (simp add: assms(2))
  show ?thesis
    unfolding rinv_def
  proof (intro conjI, goal_cases)
    case 4
    have "\<exists>h. owner (rpcs s h) \<and> job h = m" if "m \<in> dom (rmLoading s)" for m
      using that assms(1) unfolding rinv_def by blast
    then show ?case by (fastforce split: if_splits)
  next
    case 5
    have "rmLoading s (job h) = Some ch \<and> rmChan s ch = None \<and> (job h = job g \<longrightarrow> h = g)"
      if "sender (rpcs s h) = Some ch" for h ch
      using that assms(1) uniq sender_owner unfolding rinv_def by blast
    then show ?case by (auto split: if_splits) (metis not_None_eq)
  qed (use assms(1) uniq in \<open>auto simp: rinv_def dom_fun_upd split: if_splits\<close>)
qed

lemma loading_fields [simp]:
  "rLoading (discoverWarmModelsWithSelector client query ns sel r) = rLoading r"
  "rLoading (fst (router_UpdatePodSelector sel r)) = rLoading r"
  "rLoading (router_UpdateNamespace ns r) = rLoading r"
  "rLoading (recordModel now m pod r) = rLoading r"
  by (simp_all add: discoverWarmModelsWithSelector_def router_UpdatePodSelector_def router_UpdateNamespace_def
      recordModel_def split: sum.split)

lemma rinv_step:
  assumes "rstep api job x s s'" and inv: "rinv job s"
  shows "rinv job s'"
  using assms(1)
proof (cases rule: rstep.cases)
  case (r_register g)
  then show ?thesis using rinv_register [OF inv] by blast
next
  case (r_unregister g res)
  then show ?thesis using rinv_unregister [OF inv] by blast
next
  case (r_join g ch)
  have "ch < rmNext s" using rinv_next [OF inv] r_join by blast
  then show ?thesis
    by (intro rinv_quiet [OF inv]) (use r_join rinv_wait [OF inv] in \<open>auto split: if_splits\<close>)
next
  case (r_send g ch msg rel res)
  have "sender (rpcs s h) = Some ch \<Longrightarrow> h = g" for h
    using sender_unique [OF inv, of h ch g] r_send by simp
  then show ?thesis
    by (intro rinv_quiet [OF inv]) (use r_send rinv_wait [OF inv] in \<open>auto split: if_splits\<close>)
next
  case (r_receive g ch msg)
  have "sender (rpcs s h) \<noteq> Some ch" for h
    using rinv_sender [OF inv, of h ch] r_receive by auto
  then show ?thesis
    by (intro rinv_quiet [OF inv])
      (use r_receive rinv_wait [OF inv] in \<open>auto split: if_splits option.splits\<close>)
qed ((rule rinv_quiet [OF inv];
    auto dest: rinv_wait [OF inv] split: if_splits sum.splits bool.splits option.splits)+)

lemma rinv_reach: "rreach api job s \<Longrightarrow> rinv job s"
proof (induction rule: rreach.induct)
  case (rr_init r c)
  then show ?case by (simp add: rinv_def rinit_def)
qed (rule rinv_step)

text \<open>C34: single flight in the router. At any moment at most one request of a replica is past the registration
  of its model, that is, acquires the lease, loads, records or releases; and the send on the
  channel that ends the load never blocks.\<close>

theorem router_single_flight:
  assumes "rreach api job s"
  shows "(owner (rpcs s g) \<and> owner (rpcs s h) \<and> job g = job h \<longrightarrow> g = h) \<and>
    (rpcs s g = RSend ch msg rel res \<longrightarrow>
       rstep api job None s (rgoto g (if rel then RRelease res else RUnregister res)
         (s\<lparr>rmChan := (rmChan s)(ch \<mapsto> msg)\<rparr>)))"
proof (intro conjI impI)
  show "g = h" if "owner (rpcs s g) \<and> owner (rpcs s h) \<and> job g = job h"
    using that rinv_unique [OF rinv_reach [OF assms]] by blast
  show "rstep api job None s (rgoto g (if rel then RRelease res else RUnregister res)
      (s\<lparr>rmChan := (rmChan s)(ch \<mapsto> msg)\<rparr>))" if "rpcs s g = RSend ch msg rel res"
    using rinv_sender [OF rinv_reach [OF assms], of g ch] that by (intro rstep.r_send) simp_all
qed

subsection \<open>Waiting\<close>

text \<open>
  The messages a channel can still deliver: the one in its buffer and the one of a call that has yet
  to send. A channel that is in use delivers at most one, and a channel that delivers none is dead.
\<close>

definition pending :: "nat \<Rightarrow> 'c rmstate \<Rightarrow> bool" where
  "pending ch s \<longleftrightarrow> rmChan s ch \<noteq> None \<or> (\<exists>g. sender (rpcs s g) = Some ch)"

lemma no_senderD:
  assumes "\<not> pending ch s"
  shows "rpcs s g \<noteq> RAcquire ch" "rpcs s g \<noteq> RLoad ch" "rpcs s g \<noteq> RRecord ch pod now"
    "rpcs s g \<noteq> RSend ch msg rel res" "rmChan s ch = None" "sender (rpcs s g) \<noteq> Some ch"
proof -
  show *: "sender (rpcs s g) \<noteq> Some ch" "rmChan s ch = None" for g
    using assms unfolding pending_def by blast+
  show "rpcs s g \<noteq> RAcquire ch" "rpcs s g \<noteq> RLoad ch" "rpcs s g \<noteq> RRecord ch pod now"
    "rpcs s g \<noteq> RSend ch msg rel res"
    using *(1) [of g] by auto
qed

lemma dead_step:
  assumes "rstep api job x s s'" and "ch < rmNext s" and "\<not> pending ch s"
  shows "\<not> pending ch s' \<and> (rpcs s g = RWait ch \<longrightarrow> x \<noteq> Some g \<longrightarrow> rpcs s' g = RWait ch)"
  using assms(1,2) no_senderD [OF assms(3)]
  by (cases rule: rstep.cases)
    (auto simp: pending_def split: if_splits sum.splits bool.splits option.splits)

lemma rmNext_step: "rstep api job x s s' \<Longrightarrow> rmNext s \<le> rmNext s'"
  by (cases rule: rstep.cases) auto

text \<open>A message wakes one of two calls that wait on a channel, and then the channel is dead.\<close>

lemma receive_dead:
  assumes "rinv job s" and "rmChan s ch = Some msg" and "sender c = None"
  shows "\<not> pending ch (rgoto g c (s\<lparr>rmChan := (rmChan s)(ch := None)\<rparr>))"
  using assms rinv_sender [OF assms(1), of _ ch] by (auto simp: pending_def)

lemma wait_step:
  assumes "rstep api job x s s'" and "rinv job s" and "rpcs s g = RWait ch" and "rpcs s h = RWait ch"
    and "g \<noteq> h" and "x \<noteq> Some g" and "x \<noteq> Some h"
  shows "rpcs s' g = RWait ch \<and> rpcs s' h = RWait ch \<or>
    \<not> pending ch s' \<and> (rpcs s' g = RWait ch \<or> rpcs s' h = RWait ch)"
  using assms(1)
proof (cases rule: rstep.cases)
  case (r_receive k ch' msg)
  show ?thesis
  proof (cases "k = g \<or> k = h")
    case True
    then have "ch' = ch" using r_receive assms(3,4) by auto
    with r_receive receive_dead [OF assms(2), of ch msg _ k] True assms(3-5) show ?thesis
      by (auto split: option.splits)
  qed (use r_receive assms in auto)
qed (use assms in auto)

text \<open>C13: of two requests that wait for the same load at most one is ever woken. However the run goes on, as
  long as neither request is cancelled, at least one of the two is still waiting: the channel
  carries a single message and is never closed.\<close>

theorem one_waiter_hangs:
  assumes "rreach api job s" and "rpcs s g = RWait ch" and "rpcs s h = RWait ch" and "g \<noteq> h"
    and "rrun api job {g, h} s s'"
  shows "rpcs s' g = RWait ch \<or> rpcs s' h = RWait ch"
proof -
  from assms(5) have "rinv job s' \<and> ch < rmNext s' \<and>
      (rpcs s' g = RWait ch \<and> rpcs s' h = RWait ch \<or>
       \<not> pending ch s' \<and> (rpcs s' g = RWait ch \<or> rpcs s' h = RWait ch))"
  proof (induction rule: rrun.induct)
    case ru_refl
    then show ?case using rinv_reach [OF assms(1)] rinv_wait assms(2,3) by blast
  next
    case (ru_step s' x s'')
    then show ?case
      using rinv_step [of api job x s' s''] rmNext_step [of api job x s' s'']
        wait_step [of api job x s' s'' g ch h] dead_step [of api job x s' s'' ch g]
        dead_step [of api job x s' s'' ch h] assms(4)
      by (cases x) auto
  qed
  then show ?thesis by blast
qed

subsection \<open>A run of three requests\<close>

text \<open>
  Three requests for one model: the first registers it, the other two wait; then the first one
  fails to find a node, sends its error, releases the lease and returns, and the second is woken.
\<close>

abbreviation demo_job :: "nat \<Rightarrow> string" where
  "demo_job \<equiv> \<lambda>_. ''llama''"

definition demo_start :: "lease_store rmstate" where
  "demo_start = rinit (demo_router ''a'') Map.empty"

definition demo_waiting :: "lease_store rmstate" where
  "demo_waiting =
     \<lparr>rmRouter = (demo_router ''a'')\<lparr>rLoading := {''llama''}\<rparr>, rmLoading = [''llama'' \<mapsto> 0],
      rmChan = (\<lambda>_. None), rmNext = 1, rmCluster = Map.empty,
      rpcs = (\<lambda>_. RCheck)(0 := RAcquire 0, 1 := RWait 0, 2 := RWait 0)\<rparr>"

lemma demo_cold: "rModels (demo_router n) m = None" "rLoading (demo_router n) = {}"
  by (simp_all add: demo_router_def NewRouter_def)

lemma demo_waiting_reached: "rreach store_api demo_job demo_waiting"
proof -
  let ?s1 = "rgoto 0 RRegister demo_start"
  let ?s2 = "rgoto 0 (RAcquire 0) (?s1\<lparr>rmLoading := (rmLoading ?s1)(''llama'' \<mapsto> 0), rmChan := (rmChan ?s1)(0 := None),
      rmNext := 0 + 1, rmRouter := (rmRouter ?s1)\<lparr>rLoading := insert ''llama'' (rLoading (rmRouter ?s1))\<rparr>\<rparr>)"
  let ?s3 = "rgoto 1 RRegister ?s2"
  let ?s4 = "rgoto 1 (RWait 0) ?s3"
  let ?s5 = "rgoto 2 RRegister ?s4"
  have 0: "rreach store_api demo_job demo_start"
    unfolding demo_start_def by (rule rr_init)
  have 1: "rreach store_api demo_job ?s1"
    by (rule rr_step [OF 0 r_cold]) (simp_all add: demo_start_def rinit_def demo_cold)
  have "rstep store_api demo_job None ?s1 ?s2"
    using r_register [of ?s1 0 demo_job store_api] by (simp add: demo_start_def rinit_def)
  note 2 = rr_step [OF 1 this]
  have 3: "rreach store_api demo_job ?s3"
    by (rule rr_step [OF 2 r_cold]) (simp_all add: demo_start_def rinit_def demo_cold)
  have 4: "rreach store_api demo_job ?s4"
    by (rule rr_step [OF 3 r_join]) (simp_all add: demo_start_def rinit_def)
  have 5: "rreach store_api demo_job ?s5"
    by (rule rr_step [OF 4 r_cold]) (simp_all add: demo_start_def rinit_def demo_cold)
  have "rreach store_api demo_job (rgoto 2 (RWait 0) ?s5)"
    by (rule rr_step [OF 5 r_join]) (simp_all add: demo_start_def rinit_def)
  moreover have "rgoto 2 (RWait 0) ?s5 = demo_waiting"
    by (simp add: demo_waiting_def demo_start_def rinit_def rgoto_def fun_eq_iff demo_cold)
  ultimately show ?thesis by simp
qed

lemma ru_next: "rrun api job G s s' \<Longrightarrow> rstep api job None s' s'' \<Longrightarrow> rrun api job G s s''"
  by (erule (1) ru_step) simp

lemma demo_run:
  "\<exists>s'. rrun store_api demo_job {1, 2} demo_waiting s' \<and> rpcs s' 0 = RReturned (Inl (RtLoadFailed (RtFindNode e))) \<and>
    rpcs s' 1 = RReturned (Inl (RtConcurrentFailed (RtLoadFailed (RtFindNode e))))"
proof -
  let ?err = "RtLoadFailed (RtFindNode e)"
  let ?env = "demo_router_env\<lparr>reBestNode := Inl e\<rparr>"
  let ?c = "snd (tryAcquireLease store_api 5 (demo_router ''a'') ''llama'' Map.empty)"
  let ?s1 = "rgoto 0 (RLoad 0) (demo_waiting\<lparr>rmCluster := ?c\<rparr>)"
  let ?s2 = "rgoto 0 (RSend 0 (Some ?err) True (Inl ?err)) ?s1"
  let ?s3 = "rgoto 0 (RRelease (Inl ?err)) (?s2\<lparr>rmChan := (rmChan ?s2)(0 \<mapsto> Some ?err)\<rparr>)"
  let ?s4 = "rgoto 0 (RUnregister (Inl ?err)) (?s3\<lparr>rmCluster := snd (releaseLease store_api (rmRouter ?s3) ''llama'' (rmCluster ?s3))\<rparr>)"
  have "rstep store_api demo_job None demo_waiting ?s1"
    using r_acquire [of demo_waiting 0 0 store_api 5 demo_job "Inr True" ?c] by (simp add: demo_waiting_def demo_acquire)
  note 1 = ru_next [OF ru_refl this]
  have "rstep store_api demo_job None ?s1 ?s2"
    by (rule r_load_failed [of _ _ _ ?env]) (simp_all add: findLoadPod_def)
  note 2 = ru_next [OF 1 this]
  have "rstep store_api demo_job None ?s2 ?s3"
    using r_send [of ?s2 0 0 "Some ?err" True "Inl ?err" store_api demo_job] by (simp add: demo_waiting_def)
  note 3 = ru_next [OF 2 this]
  have "rstep store_api demo_job None ?s3 ?s4"
    by (rule r_release) (simp_all add: prod_eq_iff)
  note 4 = ru_next [OF 3 this]
  note 5 = ru_next [OF 4 r_unregister [of ?s4 0 "Inl ?err"]]
  note 6 = ru_next [OF 5 r_receive [of _ 1 0 "Some ?err"]]
  show ?thesis
    by (rule exI, rule conjI [OF 6]) (simp_all add: demo_waiting_def)
qed

theorem one_waiter_hangs_witness:
  "\<forall>e. \<exists>s'. rrun store_api demo_job {1, 2} demo_waiting s' \<and>
    rpcs s' 0 = RReturned (Inl (RtLoadFailed (RtFindNode e))) \<and> rpcs s' 2 = RWait 0"
proof
  fix e
  obtain s' where s': "rrun store_api demo_job {1, 2} demo_waiting s'"
    "rpcs s' 0 = RReturned (Inl (RtLoadFailed (RtFindNode e)))"
    "rpcs s' 1 = RReturned (Inl (RtConcurrentFailed (RtLoadFailed (RtFindNode e))))"
    using demo_run by blast
  with one_waiter_hangs [OF demo_waiting_reached, of 1 0 2 s']
  show "\<exists>s'. rrun store_api demo_job {1, 2} demo_waiting s' \<and>
    rpcs s' 0 = RReturned (Inl (RtLoadFailed (RtFindNode e))) \<and> rpcs s' 2 = RWait 0"
    by (auto simp: demo_waiting_def)
qed

theorem router_single_flight_witness:
  "owner (rpcs demo_waiting 0) \<and> \<not> (owner (rpcs demo_waiting 1) \<and> demo_job 0 = demo_job 1)"
  using router_single_flight [OF demo_waiting_reached, of 0 1] by (simp add: demo_waiting_def)

end
