(* ===== verification/Router_Refinement.thy ===== *)
theory Router_Refinement
  imports Router_Machine
begin

section \<open>The sequential request of the router is a run of its machine\<close>

text \<open>
  \<open>GetModelEndpoint\<close> of \<open>Router\<close> translates the method with one request running;
  \<open>Router_Machine\<close> cuts it into atomic actions. The first is a run of the second in which only that
  request moves.
\<close>

text \<open>
  An action of the request \<open>g\<close> itself moves its program counter and no other. What the environment does
  to router and cluster moves none.
\<close>

definition own_rstep :: "'c lease_api \<Rightarrow> (nat \<Rightarrow> string) \<Rightarrow> nat \<Rightarrow> 'c rmstate \<Rightarrow> 'c rmstate \<Rightarrow> bool" where
  "own_rstep api job g s s' \<longleftrightarrow>
     (\<exists>x. rstep api job x s s') \<and> rpcs s' g \<noteq> rpcs s g \<and> (\<forall>h. h \<noteq> g \<longrightarrow> rpcs s' h = rpcs s h)"

abbreviation rsteps :: "'c lease_api \<Rightarrow> (nat \<Rightarrow> string) \<Rightarrow> nat \<Rightarrow> 'c rmstate \<Rightarrow> 'c rmstate \<Rightarrow> bool" where
  "rsteps api job g \<equiv> (own_rstep api job g)\<^sup>*\<^sup>*"

lemma rs_next:
  assumes "rsteps api job g s s'" and "rstep api job x s' (rgoto g c u)" and "c \<noteq> rpcs s' g" and "rpcs u = rpcs s'"
  shows "rsteps api job g s (rgoto g c u)"
proof -
  have "own_rstep api job g s' (rgoto g c u)" using assms(2-4) by (auto simp: own_rstep_def)
  with assms(1) show ?thesis by (rule rtranclp.rtrancl_into_rtrancl)
qed

lemmas rs_first = rs_next [OF rtranclp.rtrancl_refl]

lemma rreach_rsteps:
  assumes "rreach api job s" and "rsteps api job g s s'"
  shows "rreach api job s'"
  using assms(2,1) by (induction rule: rtranclp_induct) (auto simp: own_rstep_def intro: rr_step)

text \<open>
  The end of a request that has a channel: it sends its message, releases the lease when it has it,
  and unregisters the model.
\<close>

definition sent_state :: "nat \<Rightarrow> string \<Rightarrow> nat \<Rightarrow> router_error option \<Rightarrow> router_error + string \<Rightarrow> 'c \<Rightarrow> 'c rmstate \<Rightarrow> 'c rmstate" where
  "sent_state g m ch msg res c s =
     rgoto g (RReturned res)
       (s\<lparr>rmChan := (rmChan s)(ch \<mapsto> msg), rmCluster := c, rmLoading := (rmLoading s)(m := None),
          rmRouter := (rmRouter s)\<lparr>rLoading := rLoading (rmRouter s) - {m}\<rparr>\<rparr>)"

lemma send_run:
  assumes "rsteps api job g s0 s" and "rpcs s g = RSend ch msg rel res" and "rmChan s ch = None"
  shows "rsteps api job g s0 (sent_state g (job g) ch msg res
    (if rel then snd (releaseLease api (rmRouter s) (job g) (rmCluster s)) else rmCluster s) s)"
proof -
  let ?s1 = "rgoto g (if rel then RRelease res else RUnregister res) (s\<lparr>rmChan := (rmChan s)(ch \<mapsto> msg)\<rparr>)"
  have 1: "rsteps api job g s0 ?s1" by (rule rs_next [OF assms(1) r_send [OF assms(2,3)]]) (simp_all add: assms(2))
  show ?thesis
  proof (cases rel)
    case True
    obtain e c' where rel: "releaseLease api (rmRouter s) (job g) (rmCluster s) = (e, c')" by fastforce
    have "rsteps api job g s0 (rgoto g (RUnregister res) (?s1\<lparr>rmCluster := c'\<rparr>))"
      by (rule rs_next [OF 1 r_release [of _ _ res]]) (simp_all add: True rel)
    from rs_next [OF this r_unregister [of _ g res]] show ?thesis
      by (simp add: sent_state_def rgoto_def True rel)
  next
    case False
    with rs_next [OF 1 r_unregister [of _ g res]] show ?thesis
      by (simp add: sent_state_def rgoto_def)
  qed
qed

text \<open>A request that finds its model cold and not being loaded.\<close>

definition registered_state :: "nat \<Rightarrow> string \<Rightarrow> 'c rmstate \<Rightarrow> 'c rmstate" where
  "registered_state g m s =
     rgoto g (RAcquire (rmNext s))
       (s\<lparr>rmLoading := (rmLoading s)(m \<mapsto> rmNext s), rmChan := (rmChan s)(rmNext s := None),
          rmNext := rmNext s + 1, rmRouter := (rmRouter s)\<lparr>rLoading := insert m (rLoading (rmRouter s))\<rparr>\<rparr>)"

lemma register_run:
  assumes "rpcs s g = RCheck" and "rModels (rmRouter s) (job g) = None" and "rmLoading s (job g) = None"
  shows "rsteps api job g s (registered_state g (job g) s)"
proof -
  have "rsteps api job g s (rgoto g RRegister s)"
    by (rule rs_first [OF r_cold [where job = job, OF assms(1,2)]]) (simp_all add: assms(1))
  from rs_next [OF this r_register [of _ g]] show ?thesis
    using assms(3) by (simp add: registered_state_def rgoto_def)
qed

text \<open>What the request has done when it returns: the shape of every state below.\<close>

definition returned_like ::
  "nat \<Rightarrow> 'c rmstate \<Rightarrow> router_error + string \<Rightarrow> router \<Rightarrow> 'c \<Rightarrow> router_error option list \<Rightarrow> 'c rmstate \<Rightarrow> bool" where
  "returned_like g s res r c sent s' \<longleftrightarrow>
     rpcs s' = (rpcs s)(g := RReturned res) \<and> rmRouter s' = r \<and> rmCluster s' = c \<and>
     rmLoading s' = rmLoading s \<and> (\<forall>msg \<in> set sent. rmChan s' (rmNext s) = Some msg)"

text \<open>The set of models being loaded does not matter to the other parts of a request.\<close>

lemma busy_frame:
  "tryAcquireLease api now (r\<lparr>rLoading := L\<rparr>) m c = tryAcquireLease api now r m c"
  "releaseLease api (r\<lparr>rLoading := L\<rparr>) m c = releaseLease api r m c"
  "findLoadPod env (r\<lparr>rLoading := L\<rparr>) = findLoadPod env r"
  "loadModelOnPod net (r\<lparr>rLoading := L\<rparr>) pod m = loadModelOnPod net r pod m"
  by (auto simp: tryAcquireLease_def releaseLease_def findLoadPod_def loadModelOnPod_def
      split: create_outcome.split sum.split prod.split list.split)

lemma recordModel_busy:
  "recordModel now m pod (r\<lparr>rLoading := L\<rparr>) = (recordModel now m pod r)\<lparr>rLoading := L\<rparr>"
  "releaseLease api (recordModel now m pod r) k c = releaseLease api r k c"
  "rLoading (recordModel now m pod r) = rLoading r"
  by (simp_all add: recordModel_def releaseLease_def)

text \<open>A request that has the lease and finds a pod that answers.\<close>

definition loaded_state :: "nat \<Rightarrow> string \<Rightarrow> nat \<Rightarrow> pod \<Rightarrow> gotime \<Rightarrow> 'c rmstate \<Rightarrow> 'c rmstate" where
  "loaded_state g m ch pod now s =
     rgoto g (RSend ch None True (Inr (endpoint_url (PodIP pod))))
       (s\<lparr>rmRouter := recordModel now m pod (rmRouter s)\<rparr>)"

lemma loaded_run:
  assumes "rsteps api job g s0 s" and "rpcs s g = RLoad ch" and "findLoadPod env (rmRouter s) = Inr pod"
    and "loadModelOnPod (reNet env) (rmRouter s) pod (job g) = None"
  shows "rsteps api job g s0 (loaded_state g (job g) ch pod (reNow env) s)"
proof -
  have "rsteps api job g s0 (rgoto g (RRecord ch pod (reNow env)) s)"
    by (rule rs_next [OF assms(1) r_loaded [where job = job, OF assms(2-4)]]) (simp_all add: assms(2))
  from rs_next [OF this r_record [of _ g ch pod "reNow env"]] show ?thesis
    by (simp add: loaded_state_def rgoto_def)
qed

lemma load_fails:
  "loadModelOnBestNode env m r = (Inl e, r) \<Longrightarrow>
   findLoadPod env r = Inl e \<or>
   (\<exists>pod. findLoadPod env r = Inr pod \<and> loadModelOnPod (reNet env) r pod m = Some e)"
  by (auto simp: loadModelOnBestNode_def split: sum.splits option.splits)

text \<open>The request after its attempt on the lease, which had the outcome \<open>x\<close>.\<close>

definition acquired_state :: "nat \<Rightarrow> string \<Rightarrow> router_error + bool \<Rightarrow> 'c \<Rightarrow> 'c rmstate \<Rightarrow> 'c rmstate" where
  "acquired_state g m x c s =
     rgoto g (case x of
         Inl e \<Rightarrow> RSend (rmNext s) (Some (RtAcquireFailed e)) False (Inl (RtAcquireFailed e))
       | Inr False \<Rightarrow> RSend (rmNext s) (Some RtLeaseHeld) False (Inl RtLeaseHeld)
       | Inr True \<Rightarrow> RLoad (rmNext s)) ((registered_state g m s)\<lparr>rmCluster := c\<rparr>)"

lemma acquired_simps:
  "rmRouter (acquired_state g m x c s) = (rmRouter s)\<lparr>rLoading := insert m (rLoading (rmRouter s))\<rparr>"
  "rmCluster (acquired_state g m x c s) = c" "rmChan (acquired_state g m x c s) (rmNext s) = None"
  "rmLoading (acquired_state g m x c s) = (rmLoading s)(m \<mapsto> rmNext s)"
  "rpcs (acquired_state g m (Inl e) c s) =
     (rpcs s)(g := RSend (rmNext s) (Some (RtAcquireFailed e)) False (Inl (RtAcquireFailed e)))"
  "rpcs (acquired_state g m (Inr False) c s) = (rpcs s)(g := RSend (rmNext s) (Some RtLeaseHeld) False (Inl RtLeaseHeld))"
  "rpcs (acquired_state g m (Inr True) c s) = (rpcs s)(g := RLoad (rmNext s))"
  by (simp_all add: acquired_state_def registered_state_def)

lemma acquire_run:
  assumes "rpcs s g = RCheck" and "rModels (rmRouter s) (job g) = None" and "rmLoading s (job g) = None"
    and "tryAcquireLease api now (rmRouter s) (job g) (rmCluster s) = (x, c)"
  shows "rsteps api job g s (acquired_state g (job g) x c s)"
proof -
  let ?s1 = "registered_state g (job g) s"
  have start: "rsteps api job g s ?s1" by (rule register_run [where job = job, OF assms(1-3)])
  have pc: "rpcs ?s1 g = RAcquire (rmNext s)" by (simp add: registered_state_def)
  have "tryAcquireLease api now (rmRouter ?s1) (job g) (rmCluster ?s1) = (x, c)"
    using assms(4) by (simp add: registered_state_def busy_frame)
  then have "rstep api job None ?s1 (acquired_state g (job g) x c s)"
    unfolding acquired_state_def by (rule r_acquire [OF pc])
  with start show ?thesis
    unfolding acquired_state_def by (rule rs_next) (auto simp: pc split: sum.split bool.split)
qed

text \<open>The end of a request that registered its model in \<open>s\<close>, from the state in which it sends.\<close>

lemma return_run:
  assumes "rsteps api job g s u" and "rpcs u = (rpcs s)(g := RSend (rmNext s) msg rel res)"
    and "rmChan u (rmNext s) = None" and "rmLoading u = (rmLoading s)(job g \<mapsto> rmNext s)" and "rmLoading s (job g) = None"
  shows "\<exists>s'. rsteps api job g s s' \<and>
    returned_like g s res ((rmRouter u)\<lparr>rLoading := rLoading (rmRouter u) - {job g}\<rparr>)
      (if rel then snd (releaseLease api (rmRouter u) (job g) (rmCluster u)) else rmCluster u) [msg] s'"
proof -
  have "rpcs u g = RSend (rmNext s) msg rel res" using assms(2) by simp
  from send_run [OF assms(1) this assms(3)] show ?thesis
    by (intro exI conjI, assumption)
      (use assms(2,4,5) in \<open>auto simp: returned_like_def sent_state_def\<close>)
qed

lemma cold_failed_run:
  assumes "rpcs s g = RCheck" and "rModels (rmRouter s) (job g) = None" and "rmLoading s (job g) = None"
    and "job g \<notin> rLoading (rmRouter s)" and "tryAcquireLease api now (rmRouter s) (job g) (rmCluster s) = (x, c)"
    and "x \<noteq> Inr True"
  defines "e \<equiv> (case x of Inl e \<Rightarrow> RtAcquireFailed e | Inr b \<Rightarrow> RtLeaseHeld)"
  shows "\<exists>s'. rsteps api job g s s' \<and> returned_like g s (Inl e) (rmRouter s) c [Some e] s'"
proof -
  note run = acquire_run [where job = job, OF assms(1-3,5)]
  have "rpcs (acquired_state g (job g) x c s) = (rpcs s)(g := RSend (rmNext s) (Some e) False (Inl e))"
    using assms(6) by (cases x) (auto simp: acquired_simps e_def)
  from return_run [OF run this acquired_simps(3,4) assms(3)] show ?thesis
    using assms(4) by (simp add: acquired_simps)
qed

lemma cold_load_run:
  assumes "rpcs s g = RCheck" and "rModels (rmRouter s) (job g) = None" and "rmLoading s (job g) = None"
    and "job g \<notin> rLoading (rmRouter s)"
    and "tryAcquireLease api (reNow env) (rmRouter s) (job g) (rmCluster s) = (Inr True, c)"
    and "loadModelOnBestNode env (job g) (rmRouter s) = (x, r)"
  shows "\<exists>s'. rsteps api job g s s' \<and>
    (case x of
       Inl e \<Rightarrow> returned_like g s (Inl (RtLoadFailed e)) (rmRouter s)
         (snd (releaseLease api (rmRouter s) (job g) c)) [Some (RtLoadFailed e)] s'
     | Inr url \<Rightarrow> returned_like g s (Inr url) r (snd (releaseLease api (rmRouter s) (job g) c)) [None] s')"
proof -
  let ?n = "rmNext s" and ?s2 = "acquired_state g (job g) (Inr True) c s"
  note acquired = acquire_run [where job = job, OF assms(1-3,5)]
  have load: "rpcs ?s2 g = RLoad ?n" by (simp add: acquired_simps)
  from loadModelOnBestNode_cases [of env "job g" "rmRouter s"] show ?thesis
  proof cases
    case (failed e)
    let ?u = "rgoto g (RSend ?n (Some (RtLoadFailed e)) True (Inl (RtLoadFailed e))) ?s2"
    have "rstep api job None ?s2 ?u"
      by (rule r_load_failed [OF load, of env]) (use failed in \<open>simp add: acquired_simps busy_frame load_fails\<close>)
    with acquired have "rsteps api job g s ?u" by (rule rs_next) (simp_all add: load)
    from return_run [OF this, of "Some (RtLoadFailed e)" True "Inl (RtLoadFailed e)"] failed show ?thesis
      using assms(3,4,6) by (simp add: acquired_simps busy_frame)
  next
    case (loaded pod)
    let ?u = "loaded_state g (job g) ?n pod (reNow env) ?s2"
    have "rsteps api job g s ?u"
      by (rule loaded_run [OF acquired load]) (use loaded in \<open>simp_all add: acquired_simps busy_frame\<close>)
    from return_run [OF this, of None True "Inr (endpoint_url (PodIP pod))"] loaded show ?thesis
      using assms(3,4,6)
      by (simp add: loaded_state_def acquired_simps recordModel_busy(2,3) recordModel_busy(1) [symmetric] busy_frame)
  qed
qed

lemma cold_run:
  assumes "rpcs s g = RCheck" and "rModels (rmRouter s) (job g) = None" and "rmLoading s (job g) = None"
    and "job g \<notin> rLoading (rmRouter s)"
    and run: "GetModelEndpoint api env await after (job g) (rmRouter s, rmCluster s) = (res, (r', c'), sent)"
  shows "\<exists>s'. rsteps api job g s s' \<and> returned_like g s res r' c' sent s'"
proof -
  note eq = GetModelEndpoint_cold [OF assms(2,4), of api env await "after" "rmCluster s", unfolded run, symmetric]
  obtain x c where x: "tryAcquireLease api (reNow env) (rmRouter s) (job g) (rmCluster s) = (x, c)" by fastforce
  show ?thesis
  proof (cases "x = Inr True")
    case True
    obtain y r where y: "loadModelOnBestNode env (job g) (rmRouter s) = (y, r)" by fastforce
    from cold_load_run [where job = job, OF assms(1-4) x [unfolded True] y] eq x y True show ?thesis
      by (cases y) auto
  next
    case False
    from cold_failed_run [where job = job, OF assms(1-4) x False] eq x False show ?thesis
      by (cases x) (auto split: bool.splits)
  qed
qed

text \<open>A request that finds another one loading its model.\<close>

lemma waiting_run:
  fixes s :: "'c rmstate"
  assumes "rpcs s g = RCheck" and cold: "rModels (rmRouter s) (job g) = None" and some: "rmLoading s (job g) = Some ch"
    and busy: "job g \<in> rLoading (rmRouter s)" and msg: "\<And>msg. await = DoneReceived msg \<Longrightarrow> rmChan s ch = Some msg"
    and run: "GetModelEndpoint api env await (rmRouter s) (job g) (rmRouter s, rmCluster s) = (res, (r', c'), sent)"
  shows "\<exists>s'. rsteps api job g s s' \<and> returned_like g s res r' c' sent s'"
proof -
  let ?s2 = "rgoto g (RWait ch) (rgoto g RRegister s)"
  have "rsteps api job g s (rgoto g RRegister s)"
    by (rule rs_first [OF r_cold [where job = job, OF assms(1) cold]]) (simp_all add: assms(1))
  from rs_next [OF this r_join [of _ g]] have wait: "rsteps api job g s ?s2" using some by simp
  note out = run [unfolded GetModelEndpoint_def] cold busy
  show ?thesis
  proof (cases await)
    case (DoneReceived m)
    let ?c = "case m of None \<Rightarrow> RLookup | Some e \<Rightarrow> RReturned (Inl (RtConcurrentFailed e))"
    let ?s3 = "rgoto g ?c (?s2\<lparr>rmChan := (rmChan ?s2)(ch := None)\<rparr>)"
    have woken: "rsteps api job g s ?s3"
      by (rule rs_next [OF wait r_receive [of _ _ _ m]]) (simp_all add: msg [OF DoneReceived] split: option.split)
    show ?thesis
    proof (cases m)
      case None
      let ?s4 = "rgoto g (RReturned (case rModels (rmRouter ?s3) (job g) of None \<Rightarrow> Inl RtNotAvailableAfterLoad
        | Some info \<Rightarrow> Inr (endpoint_url (MiPodIP info)))) ?s3"
      have "rsteps api job g s ?s4" by (rule rs_next [OF woken r_lookup]) (simp_all add: None)
      then show ?thesis
        by (intro exI conjI, assumption)
          (use out DoneReceived None in \<open>auto simp: returned_like_def split: option.splits\<close>)
    next
      case (Some e)
      show ?thesis
        by (rule exI, rule conjI [OF woken]) (use out DoneReceived Some in \<open>auto simp: returned_like_def\<close>)
    qed
  next
    case DoneCancelled
    have "rsteps api job g s (rgoto g (RReturned (Inl RtCancelled)) ?s2)"
      by (rule rs_next [OF wait r_cancel [of _ g ch]]) simp_all
    then show ?thesis
      by (intro exI conjI, assumption) (use out DoneCancelled in \<open>auto simp: returned_like_def\<close>)
  qed
qed

text \<open>C40: the sequential \<open>GetModelEndpoint\<close> is a run of the machine of concurrent requests. From any state in which
  the set of models being loaded is that of the channels, the result, the router, the cluster and the
  message it sends are those the machine has after steps of that request alone; a request that finds
  another one loading ends as that one's message, when it is on the channel, or its own context says.\<close>

theorem GetModelEndpoint_is_a_run:
  fixes s :: "'c rmstate" and updated :: router
  assumes "rpcs s g = RCheck" and "rLoading (rmRouter s) = dom (rmLoading s)"
    and "\<And>ch. rmLoading s (job g) = Some ch \<Longrightarrow>
      updated = rmRouter s \<and> (\<forall>msg. await = DoneReceived msg \<longrightarrow> rmChan s ch = Some msg)"
    and "GetModelEndpoint api env await updated (job g) (rmRouter s, rmCluster s) = (res, (r', c'), sent)"
  shows "\<exists>s'. rsteps api job g s s' \<and> returned_like g s res r' c' sent s'"
proof (cases "rModels (rmRouter s) (job g)")
  case (Some info)
  have "rsteps api job g s (rgoto g (RReturned (Inr (endpoint_url (MiPodIP info)))) s)"
    by (rule rs_first [OF r_warm [where job = job, OF assms(1) Some]]) (simp_all add: assms(1))
  then show ?thesis
    by (intro exI conjI, assumption) (use assms(4) Some in \<open>auto simp: GetModelEndpoint_def returned_like_def\<close>)
next
  case cold: None
  show ?thesis
  proof (cases "rmLoading s (job g)")
    case None
    then show ?thesis using cold_run [where job = job, OF assms(1) cold _ _ assms(4)] assms(2) by auto
  next
    case (Some ch)
    then have "updated = rmRouter s" "job g \<in> rLoading (rmRouter s)" using assms(2,3) by auto
    then show ?thesis
      using waiting_run [where job = job, OF assms(1) cold Some, of await api env res r' c' sent] assms(3) [OF Some] assms(4)
      by simp
  qed
qed

theorem GetModelEndpoint_is_a_run_witness:
  "\<exists>s'. rsteps store_api demo_job 0 demo_start s' \<and> rpcs s' 0 = RReturned (Inr (endpoint_url ''10.0.0.1'')) \<and>
    rmChan s' 0 = Some None \<and> rModels (rmRouter s') ''llama'' \<noteq> None"
proof -
  have start: "rpcs demo_start 0 = RCheck" "rmLoading demo_start = Map.empty" "rmNext demo_start = 0"
    "rmRouter demo_start = demo_router ''a''" "rmCluster demo_start = Map.empty"
    by (simp_all add: demo_start_def rinit_def demo_router_def NewRouter_def)
  obtain c' where run: "GetModelEndpoint store_api demo_router_env DoneCancelled (demo_router ''a'') ''llama''
      (demo_router ''a'', Map.empty) =
      (Inr (endpoint_url ''10.0.0.1''), (recordModel 5 ''llama'' demo_server (demo_router ''a''), c'), [None])"
    by (simp add: GetModelEndpoint_cold demo_cold demo_acquire demo_load)
  have "\<exists>s'. rsteps store_api demo_job 0 demo_start s' \<and>
      returned_like 0 demo_start (Inr (endpoint_url ''10.0.0.1''))
        (recordModel 5 ''llama'' demo_server (demo_router ''a'')) c' [None] s'"
    by (rule GetModelEndpoint_is_a_run [of demo_start 0 demo_job]) (use run in \<open>simp_all add: start demo_cold\<close>)
  then show ?thesis by (auto simp: returned_like_def start recordModel_def)
qed

end
