(* ===== verification/Router_Races.thy ===== *)
theory Router_Races
  imports Router_Refinement
begin

section \<open>Requests that meet another request's load at the wrong moment\<close>

text \<open>
  \<open>GetModelEndpoint\<close> reads \<open>models\<close> under one mutex and \<open>loadingModels\<close> under another, and
  discovery replaces \<open>models\<close> as a whole. This theory shows what that allows on the machine of
  concurrent requests, and what the names of the leases and the statuses of the model server do to
  single requests.
\<close>

subsection \<open>The model becomes warm between the two checks\<close>

text \<open>An action of a request that is about to register a model nobody is loading: it registers it.\<close>

lemma registers:
  assumes "own_rstep api job g s s'" and "rpcs s g = RRegister" and "rmLoading s (job g) = None"
  shows "rpcs s' g = RAcquire (rmNext s)"
proof -
  obtain x where "rstep api job x s s'" and moved: "rpcs s' g \<noteq> rpcs s g" using assms(1) by (auto simp: own_rstep_def)
  then show ?thesis by (cases rule: rstep.cases) (use moved assms(2,3) in \<open>auto split: if_splits\<close>)
qed

text \<open>C14: a request that found its model cold does not look again. When another request has finished the
  load before this one looks into \<open>loadingModels\<close>, its next action is to register the model, although it
  is warm; then, with a cluster that grants the lease, it takes the lease and has a pod load the model a second
  time, all while the model is known, and replaces the entry of the first copy by that of the second.\<close>

theorem stale_check_loads_again:
  assumes "rreach api job s" and "rpcs s g = RRegister" and "rModels (rmRouter s) (job g) = Some info"
    and "rmLoading s (job g) = None"
    and "tryAcquireLease api (reNow env) (rmRouter s) (job g) (rmCluster s) = (Inr True, c1)"
    and "findLoadPod env (rmRouter s) = Inr pod"
    and "loadModelOnPod (reNet env) (rmRouter s) pod (job g) = None"
  shows "(\<forall>s'. own_rstep api job g s s' \<longrightarrow> rpcs s' g = RAcquire (rmNext s)) \<and>
    (\<exists>s1 s2 s'. rsteps api job g s s1 \<and> rpcs s1 g = RLoad (rmNext s) \<and> rmCluster s1 = c1 \<and>
       rModels (rmRouter s1) (job g) = Some info \<and>
       rsteps api job g s1 s2 \<and> rpcs s2 g = RRecord (rmNext s) pod (reNow env) \<and>
       rsteps api job g s2 s' \<and> rpcs s' g = RReturned (Inr (endpoint_url (PodIP pod))) \<and>
       rmRouter s' = recordModel (reNow env) (job g) pod (rmRouter s) \<and> rmLoading s' = rmLoading s)"
proof (intro conjI allI impI)
  fix s' assume "own_rstep api job g s s'"
  from registers [where job = job, OF this assms(2,4)] show "rpcs s' g = RAcquire (rmNext s)" .
next
  let ?m = "job g" and ?n = "rmNext s"
  let ?s1 = "registered_state g ?m s"
  let ?s2 = "rgoto g (RLoad ?n) (?s1\<lparr>rmCluster := c1\<rparr>)"
  let ?s3 = "rgoto g (RRecord ?n pod (reNow env)) ?s2"
  let ?s4 = "loaded_state g ?m ?n pod (reNow env) ?s2"
  have r1: "rmRouter ?s1 = (rmRouter s)\<lparr>rLoading := insert ?m (rLoading (rmRouter s))\<rparr>"
    and pc: "rpcs ?s1 g = RAcquire ?n" and c: "rmCluster ?s1 = rmCluster s" and ch: "rmChan ?s1 ?n = None"
    by (simp_all add: registered_state_def)
  have "rsteps api job g s ?s1"
    unfolding registered_state_def by (rule rs_first [OF r_register [where job = job, OF assms(2,4)]]) (simp_all add: assms(2))
  moreover have "rstep api job None ?s1 ?s2"
    using r_acquire [OF pc, where api = api and job = job and now = "reNow env" and x = "Inr True" and c' = c1] assms(5)
    by (simp add: r1 c busy_frame)
  ultimately have 2: "rsteps api job g s ?s2" by (rule rs_next) (simp_all add: pc)
  have 3: "rsteps api job g ?s2 ?s3"
    by (rule rs_first [OF r_loaded [where job = job and env = env]]) (simp_all add: assms(6,7) r1 busy_frame)
  have "rsteps api job g ?s3 ?s4"
    using rs_first [OF r_record [of ?s3 g ?n pod "reNow env" api job]]
    by (simp add: loaded_state_def rgoto_def)
  moreover have "rpcs ?s4 g = RSend ?n None True (Inr (endpoint_url (PodIP pod)))" "rmChan ?s4 ?n = None"
    by (simp_all add: loaded_state_def ch)
  ultimately obtain s' where run: "rsteps api job g ?s3 s'"
    and s': "s' = sent_state g ?m ?n None (Inr (endpoint_url (PodIP pod)))
      (snd (releaseLease api (rmRouter ?s4) ?m (rmCluster ?s4))) ?s4"
    using send_run [of api job g ?s3 ?s4] by auto
  have "?m \<notin> rLoading (rmRouter s)"
    using rinv_loading [OF rinv_reach [OF assms(1)]] assms(4) by auto
  then have "rmRouter s' = recordModel (reNow env) ?m pod (rmRouter s)"
    by (simp add: s' sent_state_def loaded_state_def r1 recordModel_busy(1,3))
  moreover have "rmLoading s' = rmLoading s"
    using assms(4) by (auto simp: s' sent_state_def loaded_state_def registered_state_def)
  ultimately show "\<exists>s1 s2 s'. rsteps api job g s s1 \<and> rpcs s1 g = RLoad ?n \<and> rmCluster s1 = c1 \<and>
       rModels (rmRouter s1) ?m = Some info \<and>
       rsteps api job g s1 s2 \<and> rpcs s2 g = RRecord ?n pod (reNow env) \<and>
       rsteps api job g s2 s' \<and> rpcs s' g = RReturned (Inr (endpoint_url (PodIP pod))) \<and>
       rmRouter s' = recordModel (reNow env) ?m pod (rmRouter s) \<and> rmLoading s' = rmLoading s"
    using 2 3 run by (intro exI [of _ ?s2] exI [of _ ?s3] exI [of _ s']) (simp add: r1 assms(3), simp add: s' sent_state_def)
qed

text \<open>
  Request 1 finds the model cold; request 0 then loads it, records it and returns; request 1 goes on.
\<close>

lemma demo_release:
  "snd (releaseLease store_api (demo_router p) m [(''models'', leaseName m) \<mapsto> l]) = Map.empty"
  by (simp add: releaseLease_def demo_router_def NewRouter_def store_api_def)

lemma stale_check_reached:
  "\<exists>s. rreach store_api demo_job s \<and> rpcs s 0 = RReturned (Inr (endpoint_url ''10.0.0.1'')) \<and> rpcs s 1 = RRegister \<and>
    rmRouter s = recordModel 5 ''llama'' demo_server (demo_router ''a'') \<and> rmLoading s = Map.empty \<and> rmCluster s = Map.empty"
proof -
  let ?s = "rgoto 1 RRegister demo_start"
  have s: "rpcs ?s 0 = RCheck" "rpcs ?s 1 = RRegister" "rmRouter ?s = demo_router ''a''" "rmLoading ?s = Map.empty"
    "rmCluster ?s = Map.empty"
    by (simp_all add: demo_start_def rinit_def demo_router_def NewRouter_def)
  have start: "rreach store_api demo_job demo_start" unfolding demo_start_def by (rule rr_init)
  have reach: "rreach store_api demo_job ?s"
    by (rule rr_step [OF start r_cold]) (simp_all add: demo_start_def rinit_def demo_cold)
  let ?r = "recordModel 5 ''llama'' demo_server (demo_router ''a'')"
  have "GetModelEndpoint store_api demo_router_env DoneCancelled undefined ''llama'' (demo_router ''a'', Map.empty) =
      (Inr (endpoint_url ''10.0.0.1''), (?r, Map.empty), [None])"
    by (simp add: GetModelEndpoint_cold demo_cold demo_acquire demo_load recordModel_busy(2) demo_release)
  then obtain s' where "rsteps store_api demo_job 0 ?s s'" and
    "returned_like 0 ?s (Inr (endpoint_url ''10.0.0.1'')) ?r Map.empty [None] s'"
    using cold_run [where job = demo_job and g = 0 and s = ?s and api = store_api] s
    by (fastforce simp: demo_cold)
  with s rreach_rsteps [OF reach this(1)] show ?thesis
    by (intro exI [of _ s']) (simp add: returned_like_def)
qed

theorem stale_check_loads_again_witness:
  "\<exists>s s1 s2. rreach store_api demo_job s \<and> rModels (rmRouter s) ''llama'' \<noteq> None \<and>
    rsteps store_api demo_job 1 s s1 \<and> rpcs s1 1 = RLoad (rmNext s) \<and>
    rsteps store_api demo_job 1 s1 s2 \<and> rpcs s2 1 = RRecord (rmNext s) demo_server 5"
proof -
  obtain s where s: "rreach store_api demo_job s" "rpcs s 1 = RRegister"
    "rmRouter s = recordModel 5 ''llama'' demo_server (demo_router ''a'')" "rmLoading s = Map.empty"
    "rmCluster s = Map.empty"
    using stale_check_reached by blast
  obtain info where warm: "rModels (rmRouter s) ''llama'' = Some info" by (simp add: s recordModel_def)
  let ?c = "snd (tryAcquireLease store_api 5 (rmRouter s) ''llama'' (rmCluster s))"
  have lease: "tryAcquireLease store_api (reNow demo_router_env) (rmRouter s) ''llama'' (rmCluster s) = (Inr True, ?c)"
    by (simp add: s tryAcquireLease_def recordModel_def demo_router_def NewRouter_def store_api_def)
  have pod: "findLoadPod demo_router_env (rmRouter s) = Inr demo_server"
    "loadModelOnPod (reNet demo_router_env) (rmRouter s) demo_server ''llama'' = None"
    by (simp_all add: s findLoadPod_def loadModelOnPod_def demo_router_env_def recordModel_def demo_router_def
        NewRouter_def demo_server_def StatusOK_def StatusCreated_def Let_def)
  have idle: "rmLoading s ''llama'' = None" by (simp add: s)
  from stale_check_loads_again [where job = demo_job, OF s(1,2) warm idle lease pod]
  obtain s1 s2 where "rsteps store_api demo_job 1 s s1" "rpcs s1 1 = RLoad (rmNext s)"
    "rsteps store_api demo_job 1 s1 s2" "rpcs s2 1 = RRecord (rmNext s) demo_server 5"
    by auto
  with s(1) warm show ?thesis by blast
qed

subsection \<open>A discovery between the load and the waiter\<close>

text \<open>
  A waiter that the end of a load has woken looks into \<open>models\<close> again. A discovery whose list
  shows no pod (or whose answers were read before the load ended) has replaced the map by then, and
  the waiter gets \<open>ErrModelNotAvailableAfterLoad\<close>.
\<close>

theorem woken_after_discovery:
  fixes pods :: "pod list" and query :: "pod \<Rightarrow> router_error + model_info list"
  assumes "rpcs s g = RLookup" and "rHasClient (rmRouter s)"
    and "\<And>pod infos i. pod \<in> set pods \<Longrightarrow> query pod = Inr infos \<Longrightarrow> i \<in> set infos \<Longrightarrow> MiName i \<noteq> job g"
  shows "\<exists>s'. rrun api job {g} s s' \<and> rpcs s' g = RReturned (Inl RtNotAvailableAfterLoad)"
proof -
  let ?s1 = "s\<lparr>rmRouter := discoverWarmModelsWithSelector (\<lambda>opts. Inr pods) query ns sel (rmRouter s)\<rparr>"
  have cold: "rModels (rmRouter ?s1) (job g) = None"
    using assms(2,3) warm_of_pods_some [of query pods Map.empty "job g"]
    by (cases "warm_of_pods query pods Map.empty (job g)")
      (auto simp: discoverWarmModelsWithSelector_def pod_answers_iff)
  have pc: "rpcs ?s1 g = RLookup" using assms(1) by simp
  show ?thesis
    by (rule exI, rule conjI, rule ru_next [OF ru_next [OF ru_refl r_discover] r_lookup [OF pc]]) (use cold in simp)
qed

subsection \<open>Model names that name no lease\<close>

text \<open>
  The name of the lease is the name of the model behind a prefix. Kubernetes accepts as the name of
  an object a DNS subdomain only: lower case letters, digits, the minus sign and the dot.
\<close>

definition dns_char :: "char \<Rightarrow> bool" where
  "dns_char c \<longleftrightarrow> CHR ''a'' \<le> c \<and> c \<le> CHR ''z'' \<or> CHR ''0'' \<le> c \<and> c \<le> CHR ''9'' \<or> c = CHR ''-'' \<or> c = CHR ''.''"

text \<open>What the API does with another name: it refuses it, whatever it stores.\<close>

definition refuses_names :: "'c lease_api \<Rightarrow> bool" where
  "refuses_names api \<longleftrightarrow>
     (\<forall>ns n l c. \<not> list_all dns_char n \<longrightarrow> (\<exists>e. apiCreate api ns n l c = (LeaseCreateFailed e, c)))"

lemma leaseName_invalid: "\<not> list_all dns_char m \<Longrightarrow> \<not> list_all dns_char (leaseName m)"
  by (simp add: leaseName_def)

theorem unnameable_model_never_loads:
  assumes "refuses_names api" and "\<not> list_all dns_char m" and "rHasClient r"
    and "rModels r m = None" and "m \<notin> rLoading r"
  shows "\<exists>e. GetModelEndpoint api env await after m (r, c) =
    (Inl (RtAcquireFailed (RtCreateLease e)), (r, c), [Some (RtAcquireFailed (RtCreateLease e))])"
proof -
  let ?l = "\<lparr>lsHolder = Some (rReplica r), lsDuration = leaseDuration, lsAcquireTime = reNow env, lsRenewTime = reNow env\<rparr>"
  obtain e where "apiCreate api (rNamespace r) (leaseName m) ?l c = (LeaseCreateFailed e, c)"
    using assms(1) leaseName_invalid [OF assms(2)] unfolding refuses_names_def by blast
  then have "tryAcquireLease api (reNow env) r m c = (Inl (RtCreateLease e), c)"
    using assms(3) by (simp add: tryAcquireLease_def)
  then show ?thesis using assms(4,5) by (simp add: GetModelEndpoint_cold)
qed

definition strict_api :: "lease_store lease_api" where
  "strict_api = store_api\<lparr>apiCreate := \<lambda>ns n l c.
     if list_all dns_char n then apiCreate store_api ns n l c else (LeaseCreateFailed ''Invalid value'', c)\<rparr>"

theorem unnameable_model_never_loads_witness:
  "\<exists>e. fst (GetModelEndpoint strict_api demo_router_env DoneCancelled (demo_router ''a'') ''Qwen/Qwen3-8B''
    (demo_router ''a'', Map.empty)) = Inl (RtAcquireFailed (RtCreateLease e))"
proof -
  have "refuses_names strict_api" by (simp add: refuses_names_def strict_api_def)
  moreover have "\<not> list_all dns_char ''Qwen/Qwen3-8B''" by (simp add: dns_char_def)
  moreover have "rHasClient (demo_router ''a'')" "''Qwen/Qwen3-8B'' \<notin> rLoading (demo_router ''a'')"
    by (simp_all add: demo_router_def NewRouter_def)
  ultimately have "\<exists>e. GetModelEndpoint strict_api demo_router_env DoneCancelled (demo_router ''a'') ''Qwen/Qwen3-8B''
      (demo_router ''a'', Map.empty) =
    (Inl (RtAcquireFailed (RtCreateLease e)), (demo_router ''a'', Map.empty), [Some (RtAcquireFailed (RtCreateLease e))])"
    using demo_cold(1) by (intro unnameable_model_never_loads) assumption+
  then show ?thesis by auto
qed

subsection \<open>Statuses of the model server\<close>

text \<open>
  The loader accepts the status 202 of an asynchronous load and waits for the model; the router
  takes the same answer for a failure.
\<close>

lemma router_refuses_202:
  assumes "urlOk net (http_url (PodIP pod) modelServerPort (rLoadEndpoint r))"
    and "doReq net (POST (http_url (PodIP pod) modelServerPort (rLoadEndpoint r)) (ModelRequest m)) = Inr resp"
    and "StatusCode resp = StatusAccepted"
  shows "loadModelOnPod net r pod m = Some (RtLoadStatus 202 (case Body resp of None \<Rightarrow> [] | Some b \<Rightarrow> b))"
  using assms by (simp add: loadModelOnPod_def Let_def StatusOK_def StatusCreated_def StatusAccepted_def)

end
