(* ===== verification/Pool_Manager.thy ===== *)
theory Pool_Manager
  imports Router
begin

section \<open>Inference pools\<close>

text \<open>
  \<open>internal/pool/manager.go\<close> and \<open>internal/controller/inferencepool_controller.go\<close>: the manager
  keeps a router and a VRAM tracker for each InferencePool, the controller tells it of the
  pools it finds in the cluster. A \<open>*PoolConfig\<close> is shared between the map of pools and
  \<open>defaultPool\<close>, so the configurations live in a store, indexed by numbers, and both hold numbers.
\<close>

subsection \<open>Pool keys\<close>

datatype pool_key = PoolKey (pkNamespace: string) (pkName: string)

text \<open>Ordered by namespace, then by name, so that the keys of a map can be listed.\<close>

instantiation pool_key :: linorder
begin

definition less_eq_pool_key :: "pool_key \<Rightarrow> pool_key \<Rightarrow> bool" where
  "less_eq_pool_key a b \<longleftrightarrow> pkNamespace a < pkNamespace b \<or> pkNamespace a = pkNamespace b \<and> pkName a \<le> pkName b"

definition less_pool_key :: "pool_key \<Rightarrow> pool_key \<Rightarrow> bool" where
  "less_pool_key a b \<longleftrightarrow> a \<le> b \<and> \<not> b \<le> (a :: pool_key)"

instance
  by standard (auto simp: less_eq_pool_key_def less_pool_key_def pool_key.expand)

end

definition PoolKey_String :: "pool_key \<Rightarrow> string" where
  "PoolKey_String k = pkNamespace k @ ''/'' @ pkName k"

text \<open>Kubernetes names contain no slash, so the string of a key determines it.\<close>

lemma PoolKey_String_inj:
  assumes "CHR ''/'' \<notin> set (pkNamespace a)" and "CHR ''/'' \<notin> set (pkNamespace b)"
  shows "PoolKey_String a = PoolKey_String b \<longleftrightarrow> a = b"
  using split_at_sep [OF assms] by (auto simp: PoolKey_String_def pool_key.expand)

subsection \<open>State\<close>

record pool_config =
  pcKey :: pool_key
  pcPodSelector :: labels
  pcTargetPorts :: "int32 list"
  pcRouter :: router
  pcVRAMTracker :: vram_tracker

datatype pool_error = ErrNoPoolAvailable | ErrNoDefaultPoolAvailable

record manager =
  mgHasClient :: bool
  mgExporterNamespace :: string
  mgExporterPodSelector :: labels
  mgModelLoadEndpoint :: string
  mgPools :: "pool_key \<rightharpoonup> nat"
  mgDefault :: "nat option"
  mgStore :: "nat \<Rightarrow> pool_config option"
  mgNext :: nat
  mgLoops :: "nat list"

text \<open>\<open>mgLoops\<close> lists the pools whose scrape and discovery loops were started.\<close>

definition NewManager :: "bool \<Rightarrow> string \<Rightarrow> labels \<Rightarrow> string \<Rightarrow> manager" where
  "NewManager hasClient exporterNamespace exporterPodSelector modelLoadEndpoint =
     \<lparr>mgHasClient = hasClient, mgExporterNamespace = exporterNamespace,
      mgExporterPodSelector = exporterPodSelector, mgModelLoadEndpoint = modelLoadEndpoint,
      mgPools = Map.empty, mgDefault = None, mgStore = (\<lambda>_. None), mgNext = 0, mgLoops = []\<rparr>"

subsection \<open>Updates\<close>

text \<open>The selectors of an existing pool, and the discovery its router starts with copied values.\<close>

definition update_config :: "pool_key \<Rightarrow> labels \<Rightarrow> int32 list \<Rightarrow> pool_config \<Rightarrow> pool_config \<times> (string \<times> labels)" where
  "update_config key sel ports pc =
     (case router_UpdatePodSelector sel (pcRouter pc) of
        (r, rediscover) \<Rightarrow>
          (pc\<lparr>pcPodSelector := sel, pcTargetPorts := ports,
              pcRouter := router_UpdateNamespace (pkNamespace key) r,
              pcVRAMTracker := vram_UpdateNamespace (pkNamespace key)
                (vram_UpdatePodSelector sel (pcVRAMTracker pc))\<rparr>, rediscover))"

definition new_config :: "string \<Rightarrow> manager \<Rightarrow> pool_key \<Rightarrow> labels \<Rightarrow> int32 list \<Rightarrow> pool_config" where
  "new_config POD_NAME m key sel ports =
     \<lparr>pcKey = key, pcPodSelector = sel, pcTargetPorts = ports,
      pcRouter = NewRouter (mgHasClient m) POD_NAME (pkNamespace key) sel (mgModelLoadEndpoint m),
      pcVRAMTracker = vram_NewTracker
        \<lparr>cfgClient = mgHasClient m, cfgNamespace = pkNamespace key, cfgPodSelector = sel,
         cfgNodeSelector = Map.empty, cfgExporterNamespace = mgExporterNamespace m,
         cfgExporterPodSelector = mgExporterPodSelector m\<rparr> DefaultScrapeInterval\<rparr>"

definition UpsertPool ::
  "string \<Rightarrow> pool_key \<Rightarrow> labels \<Rightarrow> int32 list \<Rightarrow> manager \<Rightarrow> manager \<times> (string \<times> labels) option" where
  "UpsertPool POD_NAME key sel ports m =
     (case mgPools m key of
        Some p \<Rightarrow>
          (case mgStore m p of
             None \<Rightarrow> (m, None)
           | Some pc \<Rightarrow>
               (case update_config key sel ports pc of
                  (pc', rediscover) \<Rightarrow> (m\<lparr>mgStore := (mgStore m)(p \<mapsto> pc')\<rparr>, Some rediscover)))
      | None \<Rightarrow>
          (let p = mgNext m
           in (m\<lparr>mgStore := (mgStore m)(p \<mapsto> new_config POD_NAME m key sel ports), mgNext := p + 1,
                 mgPools := (mgPools m)(key \<mapsto> p), mgLoops := mgLoops m @ [p],
                 mgDefault := (if mgDefault m = None then Some p else mgDefault m)\<rparr>, None)))"

definition DeletePool :: "(pool_key set \<Rightarrow> pool_key list) \<Rightarrow> pool_key \<Rightarrow> manager \<Rightarrow> manager" where
  "DeletePool ord key m =
     (case mgPools m key of
        None \<Rightarrow> m
      | Some p \<Rightarrow>
          (let pools = (mgPools m)(key := None);
               m' = m\<lparr>mgPools := pools\<rparr>
           in if mgDefault m = Some p
              then m'\<lparr>mgDefault := (case ord (dom pools) of [] \<Rightarrow> None | k # _ \<Rightarrow> pools k)\<rparr>
              else m'))"

subsection \<open>Queries\<close>

definition deref :: "manager \<Rightarrow> nat option \<Rightarrow> pool_config option" where
  "deref m p = Option.bind p (mgStore m)"

definition GetPool :: "manager \<Rightarrow> pool_key \<Rightarrow> pool_config option" where
  "GetPool m key = deref m (mgPools m key)"

definition GetPoolByNamespacedName :: "manager \<Rightarrow> string \<times> string \<Rightarrow> pool_config option" where
  "GetPoolByNamespacedName m key = GetPool m (PoolKey (fst key) (snd key))"

definition GetDefaultPool :: "manager \<Rightarrow> pool_config option" where
  "GetDefaultPool m = deref m (mgDefault m)"

definition GetRouter :: "manager \<Rightarrow> pool_key \<Rightarrow> pool_error + router" where
  "GetRouter m key =
     (case GetPool m key of
        Some pc \<Rightarrow> Inr (pcRouter pc)
      | None \<Rightarrow> (case GetDefaultPool m of None \<Rightarrow> Inl ErrNoPoolAvailable | Some pc \<Rightarrow> Inr (pcRouter pc)))"

definition GetDefaultRouter :: "manager \<Rightarrow> pool_error + router" where
  "GetDefaultRouter m =
     (case GetDefaultPool m of None \<Rightarrow> Inl ErrNoDefaultPoolAvailable | Some pc \<Rightarrow> Inr (pcRouter pc))"

definition ListPools :: "(pool_key set \<Rightarrow> pool_key list) \<Rightarrow> manager \<Rightarrow> pool_key list" where
  "ListPools ord m = ord (dom (mgPools m))"

definition PoolCount :: "manager \<Rightarrow> nat" where
  "PoolCount m = card (dom (mgPools m))"

definition manager_IsReady :: "(pool_key set \<Rightarrow> pool_key list) \<Rightarrow> manager \<Rightarrow> bool" where
  "manager_IsReady ord m =
     list_ex (\<lambda>k. case GetPool m k of None \<Rightarrow> False | Some pc \<Rightarrow> IsReady (pcRouter pc)) (ord (dom (mgPools m)))"

subsection \<open>The controller\<close>

text \<open>
  What the API server answers about an InferencePool: its selector and its port numbers, that it
  does not exist, or another error. An error is returned, so that the request is queued again.
\<close>

datatype pool_lookup =
  PoolFound labels "int32 list"
| PoolNotFound
| PoolGetFailed string

definition Reconcile ::
  "string \<Rightarrow> (pool_key set \<Rightarrow> pool_key list) \<Rightarrow> pool_key \<Rightarrow> pool_lookup \<Rightarrow> manager \<Rightarrow> string option \<times> manager" where
  "Reconcile POD_NAME ord key answer m =
     (case answer of
        PoolGetFailed e \<Rightarrow> (Some e, m)
      | PoolNotFound \<Rightarrow> (None, DeletePool ord key m)
      | PoolFound sel ports \<Rightarrow> (None, fst (UpsertPool POD_NAME key sel ports m)))"

text \<open>The controller's registration; \<open>built\<close> is the error of the framework's builder.\<close>

definition SetupWithManager :: "string option \<Rightarrow> string option" where
  "SetupWithManager built = map_option (\<lambda>e. ''failed to setup controller: '' @ e) built"

definition reconcile_all ::
  "string \<Rightarrow> (pool_key set \<Rightarrow> pool_key list) \<Rightarrow> (pool_key \<times> pool_lookup) list \<Rightarrow> manager \<Rightarrow> manager" where
  "reconcile_all POD_NAME ord es m = fold (\<lambda>(key, answer) m. snd (Reconcile POD_NAME ord key answer m)) es m"

end
