(* ===== verification/Pool_Correct.thy ===== *)
theory Pool_Correct
  imports Pool_Manager
begin

section \<open>Correctness of the pool manager\<close>

subsection \<open>Reconciling a registry\<close>

text \<open>
  What the controller needs of the registry it reconciles: registering and removing act on the
  view of the registry as updates of a map. Then the last decisive answer about a key decides what
  the registry holds for it, whatever happened before or to other keys, which is what makes a
  level-triggered controller converge.
\<close>

locale registry =
  fixes upsert :: "'k \<Rightarrow> 'v \<Rightarrow> 'm \<Rightarrow> 'm" and remove :: "'k \<Rightarrow> 'm \<Rightarrow> 'm"
    and view :: "'m \<Rightarrow> 'k \<Rightarrow> 'v option" and ok :: "'m \<Rightarrow> bool"
  assumes upsert_ok: "ok m \<Longrightarrow> ok (upsert k v m)"
    and remove_ok: "ok m \<Longrightarrow> ok (remove k m)"
    and upsert_view: "ok m \<Longrightarrow> view (upsert k v m) = (view m)(k \<mapsto> v)"
    and remove_view: "ok m \<Longrightarrow> view (remove k m) = (view m)(k := None)"
begin

definition react :: "'k \<times> 'v option option \<Rightarrow> 'm \<Rightarrow> 'm" where
  "react e m = (case snd e of None \<Rightarrow> m | Some None \<Rightarrow> remove (fst e) m | Some (Some v) \<Rightarrow> upsert (fst e) v m)"

lemma react_ok: "ok m \<Longrightarrow> ok (react e m)"
  by (simp add: react_def upsert_ok remove_ok split: option.split)

lemma react_view:
  "ok m \<Longrightarrow> view (react e m) = (case snd e of None \<Rightarrow> view m | Some x \<Rightarrow> (view m)(fst e := x))"
  by (simp add: react_def upsert_view remove_view split: option.split)

lemma reacts_ok: "ok m \<Longrightarrow> ok (fold react es m)"
  by (induction es arbitrary: m) (simp_all add: react_ok)

lemma reacts_silent:
  "ok m \<Longrightarrow> (\<And>a. (k, a) \<in> set es \<Longrightarrow> a = None) \<Longrightarrow> view (fold react es m) k = view m k"
proof (induction es arbitrary: m)
  case (Cons e es)
  have "view (react e m) k = view m k"
    using Cons.prems by (cases e) (auto simp: react_view split: option.split)
  then show ?case using Cons.IH [OF react_ok [OF Cons.prems(1)]] Cons.prems(2) by simp
qed simp

lemma last_answer:
  assumes "ok m" and "\<And>b. (k, b) \<in> set ys \<Longrightarrow> b = None"
  shows "view (fold react (xs @ (k, Some x) # ys) m) k = x"
  using reacts_silent [OF react_ok [OF reacts_ok [OF assms(1)]] assms(2)]
    react_view [OF reacts_ok [OF assms(1)]]
  by simp

end

subsection \<open>The invariant\<close>

text \<open>
  Every registered pool has a configuration of its own, whose router and tracker look at the
  namespace of the pool and select with its selector; the default pool is a registered one, and
  there is one as soon as a pool is registered.
\<close>

definition config_ok :: "pool_config \<Rightarrow> bool" where
  "config_ok pc \<longleftrightarrow>
     rNamespace (pcRouter pc) = pkNamespace (pcKey pc) \<and> rPodSelector (pcRouter pc) = pcPodSelector pc \<and>
     IsReady (pcRouter pc) \<and>
     (\<exists>d. vtK8s (pcVRAMTracker pc) = Some d \<and> dNamespace d = pkNamespace (pcKey pc) \<and> dPodSelector d = pcPodSelector pc)"

definition pool_ok :: "manager \<Rightarrow> bool" where
  "pool_ok m \<longleftrightarrow>
     finite (dom (mgPools m)) \<and>
     (\<forall>k p. mgPools m k = Some p \<longrightarrow> p < mgNext m \<and> (\<exists>pc. mgStore m p = Some pc \<and> pcKey pc = k \<and> config_ok pc)) \<and>
     (mgDefault m = None \<longleftrightarrow> mgPools m = Map.empty) \<and>
     (\<forall>p. mgDefault m = Some p \<longrightarrow> (\<exists>k. mgPools m k = Some p))"

lemma pool_okD:
  assumes "pool_ok m"
  shows pool_finite: "finite (dom (mgPools m))"
    and pool_entry: "mgPools m k = Some p \<Longrightarrow>
      p < mgNext m \<and> (\<exists>pc. mgStore m p = Some pc \<and> pcKey pc = k \<and> config_ok pc)"
    and pool_default_none: "mgDefault m = None \<longleftrightarrow> mgPools m = Map.empty"
    and pool_default: "mgDefault m = Some p \<Longrightarrow> \<exists>k. mgPools m k = Some p"
  using assms by (simp_all add: pool_ok_def)

lemma pool_inj: "pool_ok m \<Longrightarrow> mgPools m k = Some p \<Longrightarrow> mgPools m l = Some p \<Longrightarrow> k = l"
  by (metis option.inject pool_entry)

lemma new_manager_ok: "pool_ok (NewManager client ns sel load)"
  by (simp add: pool_ok_def NewManager_def)

lemma new_config_ok: "config_ok (new_config n m key sel ports)" "pcKey (new_config n m key sel ports) = key"
  by (simp_all add: config_ok_def new_config_def NewRouter_def vram_NewTracker_def NewKubernetesDiscovery_def
      IsReady_def)

lemma update_config_ok:
  assumes "config_ok pc" and "pcKey pc = key"
  shows "config_ok (fst (update_config key sel ports pc)) \<and> pcKey (fst (update_config key sel ports pc)) = key \<and>
    pcPodSelector (fst (update_config key sel ports pc)) = sel \<and>
    pcTargetPorts (fst (update_config key sel ports pc)) = ports"
  using assms
  by (auto simp: config_ok_def update_config_def router_UpdatePodSelector_def router_UpdateNamespace_def
      IsReady_def vram_UpdateNamespace_def vram_UpdatePodSelector_def discovery_UpdateNamespace_def
      discovery_UpdatePodSelector_def)

lemma upsert_new:
  "mgPools m key = None \<Longrightarrow> fst (UpsertPool n key sel ports m) =
    m\<lparr>mgStore := (mgStore m)(mgNext m \<mapsto> new_config n m key sel ports), mgNext := mgNext m + 1,
      mgPools := (mgPools m)(key \<mapsto> mgNext m), mgLoops := mgLoops m @ [mgNext m],
      mgDefault := (if mgDefault m = None then Some (mgNext m) else mgDefault m)\<rparr>"
  by (simp add: UpsertPool_def Let_def)

lemma upsert_existing:
  "mgPools m key = Some p \<Longrightarrow> mgStore m p = Some pc \<Longrightarrow> fst (UpsertPool n key sel ports m) =
    m\<lparr>mgStore := (mgStore m)(p \<mapsto> fst (update_config key sel ports pc))\<rparr>"
  by (simp add: UpsertPool_def split: prod.split)

lemma UpsertPool_ok:
  assumes "pool_ok m"
  shows "pool_ok (fst (UpsertPool n key sel ports m))"
proof (cases "mgPools m key")
  case None
  have "mgNext m \<noteq> p" if "mgPools m k = Some p" for k p
    using pool_entry [OF assms that] by simp
  then show ?thesis
    using assms new_config_ok [of n m key sel ports] unfolding upsert_new [OF None] pool_ok_def
    by (auto intro: less_SucI split: if_splits) (metis None option.distinct(1))
next
  case (Some p)
  with pool_entry [OF assms] obtain pc where
    pc: "mgStore m p = Some pc" "pcKey pc = key" "config_ok pc" by blast
  have "k = key" if "mgPools m k = Some p" for k
    using pool_inj [OF assms that Some] .
  then show ?thesis
    using assms update_config_ok [OF pc(3,2), of sel ports]
    unfolding upsert_existing [OF Some pc(1)] pool_ok_def by auto
qed

lemma DeletePool_ok:
  assumes "pool_ok m" and "range_order ord"
  shows "pool_ok (DeletePool ord key m)"
proof (cases "mgPools m key")
  case None
  then show ?thesis using assms(1) by (simp add: DeletePool_def)
next
  case (Some p)
  let ?pools = "(mgPools m)(key := None)"
  have fin: "finite (dom ?pools)" using pool_finite [OF assms(1)] by simp
  note ord = range_orderD(2) [OF assms(2) fin]
  show ?thesis
  proof (cases "mgDefault m = Some p")
    case True
    show ?thesis
    proof (cases "ord (dom ?pools)")
      case Nil
      then have "?pools = Map.empty" using ord by (metis dom_eq_empty_conv list.set(1))
      with Nil True Some assms(1) show ?thesis by (auto simp: DeletePool_def Let_def pool_ok_def)
    next
      case (Cons k ks)
      then have "k \<in> dom ?pools" using ord by auto
      moreover from this have "?pools \<noteq> Map.empty" by (metis dom_empty empty_iff)
      ultimately show ?thesis using Cons True Some assms(1) fin
        by (auto simp: DeletePool_def Let_def pool_ok_def split: if_splits)
    qed
  next
    case False
    then obtain q where q: "mgDefault m = Some q" "q \<noteq> p"
      using Some pool_default_none [OF assms(1)] by (cases "mgDefault m") auto
    then obtain k where "mgPools m k = Some q" "k \<noteq> key"
      using pool_default [OF assms(1)] Some by force
    with q False Some assms(1) fin show ?thesis
      by (auto simp: DeletePool_def Let_def pool_ok_def fun_eq_iff split: if_splits)
  qed
qed

subsection \<open>The manager is a registry\<close>

definition pool_view :: "manager \<Rightarrow> pool_key \<Rightarrow> (labels \<times> int32 list) option" where
  "pool_view m k = map_option (\<lambda>pc. (pcPodSelector pc, pcTargetPorts pc)) (GetPool m k)"

lemma UpsertPool_view:
  assumes "pool_ok m"
  shows "pool_view (fst (UpsertPool n key sel ports m)) = (pool_view m)(key \<mapsto> (sel, ports))"
proof (cases "mgPools m key")
  case None
  have "mgNext m \<noteq> p" if "mgPools m k = Some p" for k p
    using pool_entry [OF assms that] by simp
  then show ?thesis unfolding upsert_new [OF None]
    by (auto simp: fun_eq_iff pool_view_def GetPool_def deref_def new_config_def split: bind_splits)
next
  case (Some p)
  with pool_entry [OF assms] obtain pc where
    pc: "mgStore m p = Some pc" "pcKey pc = key" "config_ok pc" by blast
  let ?m = "fst (UpsertPool n key sel ports m)"
  have "GetPool ?m k = GetPool m k" if "k \<noteq> key" for k
    using that pool_inj [OF assms _ Some, of k] unfolding upsert_existing [OF Some pc(1)]
    by (cases "mgPools m k") (auto simp: GetPool_def deref_def)
  moreover have "GetPool ?m key = Some (fst (update_config key sel ports pc))"
    unfolding upsert_existing [OF Some pc(1)] by (simp add: GetPool_def deref_def Some)
  ultimately show ?thesis
    using update_config_ok [OF pc(3,2), of sel ports] by (simp add: fun_eq_iff pool_view_def)
qed

lemma DeletePool_view: "pool_view (DeletePool ord key m) = (pool_view m)(key := None)"
  by (auto simp: fun_eq_iff pool_view_def GetPool_def deref_def DeletePool_def Let_def split: option.split)

interpretation pools: registry
  "\<lambda>k v m. fst (UpsertPool n k (fst v) (snd v) m)" "DeletePool ord" pool_view "\<lambda>m. pool_ok m \<and> range_order ord"
  for n ord
  by unfold_locales (auto simp: UpsertPool_ok DeletePool_ok UpsertPool_view DeletePool_view)

fun decisive :: "pool_lookup \<Rightarrow> (labels \<times> int32 list) option option" where
  "decisive (PoolFound sel ports) = Some (Some (sel, ports))"
| "decisive PoolNotFound = Some None"
| "decisive (PoolGetFailed e) = None"

lemma Reconcile_react:
  "snd (Reconcile n ord key answer m) = pools.react n ord (key, decisive answer) m"
  by (cases answer) (simp_all add: Reconcile_def pools.react_def)

lemma reconcile_all_reacts:
  "reconcile_all n ord es m = fold (pools.react n ord) (map (\<lambda>(k, a). (k, decisive a)) es) m"
  by (induction es arbitrary: m) (auto simp: reconcile_all_def Reconcile_react)

lemma reconcile_all_ok: "range_order ord \<Longrightarrow> pool_ok m \<Longrightarrow> pool_ok (reconcile_all n ord es m)"
  using pools.reacts_ok [of m ord n] by (simp add: reconcile_all_reacts)

lemma reconcile_all_last:
  assumes "range_order ord" and "pool_ok m" and "\<And>a. (key, a) \<in> set ys \<Longrightarrow> decisive a = None"
    and "decisive answer = Some x"
  shows "pool_view (reconcile_all n ord (xs @ (key, answer) # ys) m) key = x"
proof -
  let ?f = "map (\<lambda>(k, a). (k, decisive a))"
  have "b = None" if "(key, b) \<in> set (?f ys)" for b
    using that assms(3) by auto
  from pools.last_answer [of m ord key "?f ys" n "?f xs" x, OF _ this] assms(1,2,4)
  show ?thesis by (simp add: reconcile_all_reacts)
qed

lemma GetPool_ok: "pool_ok m \<Longrightarrow> GetPool m key = Some pc \<Longrightarrow> pcKey pc = key \<and> config_ok pc"
  using pool_entry [of m key] by (auto simp: GetPool_def deref_def split: bind_splits)

lemma GetDefaultPool_ok:
  assumes "pool_ok m"
  shows "GetDefaultPool m = None \<longleftrightarrow> PoolCount m = 0"
    and "GetDefaultPool m = Some pc \<Longrightarrow> GetPool m (pcKey pc) = Some pc"
proof -
  have entry: "\<exists>k pc. mgPools m k = Some p \<and> mgStore m p = Some pc \<and> pcKey pc = k" if "mgDefault m = Some p" for p
    using pool_default [OF assms that] pool_entry [OF assms] by blast
  show "GetDefaultPool m = None \<longleftrightarrow> PoolCount m = 0"
    using entry pool_default_none [OF assms] pool_finite [OF assms]
    by (cases "mgDefault m") (auto simp: GetDefaultPool_def deref_def PoolCount_def)
  show "GetDefaultPool m = Some pc \<Longrightarrow> GetPool m (pcKey pc) = Some pc"
    using entry by (cases "mgDefault m") (auto simp: GetDefaultPool_def GetPool_def deref_def)
qed

text \<open>The target ports of a pool are kept and never read: its router and its tracker are the same for all of them.\<close>

lemma target_ports_unused:
  "pcRouter (fst (update_config key sel ports pc)) = pcRouter (fst (update_config key sel ports' pc))"
  "pcVRAMTracker (fst (update_config key sel ports pc)) = pcVRAMTracker (fst (update_config key sel ports' pc))"
  "pcRouter (new_config n m key sel ports) = pcRouter (new_config n m key sel ports')"
  "pcVRAMTracker (new_config n m key sel ports) = pcVRAMTracker (new_config n m key sel ports')"
  by (simp_all add: update_config_def new_config_def split: prod.split)

text \<open>C23: the pools converge to the cluster. Whatever was reconciled before, and whatever happens to other
  pools or fails afterwards, the last decisive answer about a pool decides: a pool that was
  found is registered with its selector and ports, and requests for it go to a router that looks at
  its namespace with that selector; a pool that is gone is not registered, and requests for
  it go to the router of a registered default pool, and fail only when no pool is left.\<close>

theorem pools_converge:
  assumes "range_order ord"
    and "\<forall>a. (key, a) \<in> set ys \<longrightarrow> (\<exists>e. a = PoolGetFailed e)"
    and "m = reconcile_all n ord (xs @ (key, answer) # ys) (NewManager client ns expSel load)"
  shows "case answer of
      PoolFound sel ports \<Rightarrow>
        (\<exists>pc. GetPool m key = Some pc \<and> pcPodSelector pc = sel \<and> pcTargetPorts pc = ports \<and>
           GetRouter m key = Inr (pcRouter pc) \<and>
           rNamespace (pcRouter pc) = pkNamespace key \<and> rPodSelector (pcRouter pc) = sel)
    | PoolNotFound \<Rightarrow> GetPool m key = None \<and>
        (case GetRouter m key of
           Inl e \<Rightarrow> e = ErrNoPoolAvailable \<and> PoolCount m = 0
         | Inr r \<Rightarrow> (\<exists>k pc. k \<noteq> key \<and> GetPool m k = Some pc \<and> GetDefaultPool m = Some pc \<and> r = pcRouter pc))
    | PoolGetFailed e \<Rightarrow> True"
proof (cases answer)
  case (PoolFound sel ports)
  have ok: "pool_ok m" using reconcile_all_ok [OF assms(1) new_manager_ok] by (simp add: assms(3))
  have "decisive a = None" if "(key, a) \<in> set ys" for a using assms(2) that by auto
  then have "pool_view m key = Some (sel, ports)"
    using reconcile_all_last [OF assms(1) new_manager_ok, of key ys answer "Some (sel, ports)"]
    by (simp add: assms(3) PoolFound)
  then obtain pc where pc: "GetPool m key = Some pc" "pcPodSelector pc = sel" "pcTargetPorts pc = ports"
    by (auto simp: pool_view_def)
  with GetPool_ok [OF ok pc(1)] show ?thesis by (auto simp: PoolFound GetRouter_def config_ok_def)
next
  case PoolNotFound
  have ok: "pool_ok m" using reconcile_all_ok [OF assms(1) new_manager_ok] by (simp add: assms(3))
  have "decisive a = None" if "(key, a) \<in> set ys" for a using assms(2) that by auto
  then have "pool_view m key = None"
    using reconcile_all_last [OF assms(1) new_manager_ok, of key ys answer None]
    by (simp add: assms(3) PoolNotFound)
  then have none: "GetPool m key = None" by (simp add: pool_view_def)
  show ?thesis
  proof (cases "GetDefaultPool m")
    case None
    with none GetDefaultPool_ok(1) [OF ok] show ?thesis by (simp add: PoolNotFound GetRouter_def)
  next
    case (Some pc)
    note reg = GetDefaultPool_ok(2) [OF ok Some]
    with none have "pcKey pc \<noteq> key" by auto
    with reg none Some show ?thesis by (auto simp: PoolNotFound GetRouter_def)
  qed
qed simp

theorem pools_converge_witness:
  "let m = reconcile_all ''epp-0'' sorted_list_of_set
        [(PoolKey ''llm'' ''a'', PoolFound (\<lambda>_. None) [8080]), (PoolKey ''llm'' ''b'', PoolFound [''app'' \<mapsto> ''b''] [8081]),
         (PoolKey ''llm'' ''b'', PoolFound [''app'' \<mapsto> ''c''] [9090]), (PoolKey ''llm'' ''a'', PoolNotFound),
         (PoolKey ''llm'' ''b'', PoolGetFailed ''timeout'')] (NewManager True ''kube-system'' Map.empty ''/models/load'')
   in \<exists>pc. GetPool m (PoolKey ''llm'' ''b'') = Some pc \<and> rPodSelector (pcRouter pc) = [''app'' \<mapsto> ''c'']"
proof -
  let ?k = "PoolKey ''llm'' ''b''"
  let ?xs = "[(PoolKey ''llm'' ''a'', PoolFound (\<lambda>_. None) [8080]), (?k, PoolFound [''app'' \<mapsto> ''b''] [8081])]"
  let ?ys = "[(PoolKey ''llm'' ''a'', PoolNotFound), (?k, PoolGetFailed ''timeout'')]"
  have "\<forall>a. (?k, a) \<in> set ?ys \<longrightarrow> (\<exists>e. a = PoolGetFailed e)"
    by auto
  from pools_converge [OF range_order_sorted this refl, where xs = ?xs and n = "''epp-0''" and
      answer = "PoolFound [''app'' \<mapsto> ''c''] [9090]" and client = True and ns = "''kube-system''" and
      expSel = Map.empty and load = "''/models/load''"]
  show ?thesis by (auto simp: Let_def)
qed

end
