(* ===== verification/Pool_Machine.thy ===== *)
theory Pool_Machine
  imports Pool_Correct Router_Correct
begin

section \<open>Pools at work\<close>

text \<open>
  The pool manager with the goroutines it starts: reconciliations, the discoveries of the pools'
  routers, and requests, in any order. A discovery copies namespace and selector when it starts, then lists
  and asks the pods, and stores what it found at the end; other discoveries of the same router
  may start and end in between. Each of the three steps is an action here. A request is one action, its own
  interleavings are in \<open>Router_Machine\<close>. \<open>clients\<close> are the states of the cluster that a list call may see.
\<close>

record 'c pool_sys =
  psManager :: manager
  psStarted :: "(nat \<times> string \<times> labels) list"
  psFetched :: "(nat \<times> (string \<rightharpoonup> model_info)) list"
  psCluster :: 'c

definition router_at :: "manager \<Rightarrow> nat \<Rightarrow> router option" where
  "router_at m p = map_option pcRouter (mgStore m p)"

definition put_router :: "nat \<Rightarrow> router \<Rightarrow> manager \<Rightarrow> manager" where
  "put_router p r m = m\<lparr>mgStore := (mgStore m)(p := map_option (\<lambda>pc. pc\<lparr>pcRouter := r\<rparr>) (mgStore m p))\<rparr>"

text \<open>The pool that serves a key, and the discovery that a reconciliation starts.\<close>

definition route :: "manager \<Rightarrow> pool_key \<Rightarrow> nat option" where
  "route m key = (case mgPools m key of Some p \<Rightarrow> Some p | None \<Rightarrow> mgDefault m)"

definition rediscovery :: "string \<Rightarrow> pool_key \<Rightarrow> pool_lookup \<Rightarrow> manager \<Rightarrow> (nat \<times> string \<times> labels) list" where
  "rediscovery n key answer m =
     (case answer of
        PoolFound sel ports \<Rightarrow>
          (case (mgPools m key, snd (UpsertPool n key sel ports m)) of (Some p, Some d) \<Rightarrow> [(p, d)] | _ \<Rightarrow> [])
      | _ \<Rightarrow> [])"

definition reconciled ::
  "string \<Rightarrow> (pool_key set \<Rightarrow> pool_key list) \<Rightarrow> pool_key \<Rightarrow> pool_lookup \<Rightarrow> 'c pool_sys \<Rightarrow> 'c pool_sys" where
  "reconciled n ord key answer s =
     s\<lparr>psManager := snd (Reconcile n ord key answer (psManager s)),
       psStarted := psStarted s @ rediscovery n key answer (psManager s)\<rparr>"

abbreviation discovery_opts :: "string \<Rightarrow> labels \<Rightarrow> list_opts" where
  "discovery_opts ns sel \<equiv> \<lparr>inNamespace = Some ns, matchingLabels = sel, fieldNodeName = None\<rparr>"

text \<open>\<open>pool_run es s\<close>: the state \<open>s\<close> after the answers \<open>es\<close> were reconciled.\<close>

inductive pool_run ::
  "string \<Rightarrow> (pool_key set \<Rightarrow> pool_key list) \<Rightarrow> pod lister set \<Rightarrow> 'c lease_api \<Rightarrow>
   (pool_key \<times> pool_lookup) list \<Rightarrow> 'c pool_sys \<Rightarrow> bool"
  for n ord clients api where
  pr_start: "pool_run n ord clients api []
    \<lparr>psManager = NewManager hasClient ns expSel load, psStarted = [], psFetched = [], psCluster = c\<rparr>"
| pr_reconcile: "pool_run n ord clients api es s \<Longrightarrow>
    pool_run n ord clients api (es @ [(key, answer)]) (reconciled n ord key answer s)"
| pr_tick: "pool_run n ord clients api es s \<Longrightarrow> p \<in> set (mgLoops (psManager s)) \<Longrightarrow>
    router_at (psManager s) p = Some r \<Longrightarrow>
    pool_run n ord clients api es (s\<lparr>psStarted := psStarted s @ [(p, rNamespace r, rPodSelector r)]\<rparr>)"
| pr_fetch: "pool_run n ord clients api es s \<Longrightarrow> psStarted s = xs @ (p, ns, sel) # ys \<Longrightarrow>
    router_at (psManager s) p = Some r \<Longrightarrow> rHasClient r \<Longrightarrow> client \<in> clients \<Longrightarrow>
    client (discovery_opts ns sel) = Inr pods \<Longrightarrow>
    pool_run n ord clients api es (s\<lparr>psStarted := xs @ ys,
      psFetched := psFetched s @ [(p, warm_of_pods (queryPodModels net decode) pods Map.empty)]\<rparr>)"
| pr_give_up: "pool_run n ord clients api es s \<Longrightarrow> psStarted s = xs @ (p, ns, sel) # ys \<Longrightarrow>
    router_at (psManager s) p = Some r \<Longrightarrow>
    \<not> rHasClient r \<or> client \<in> clients \<and> client (discovery_opts ns sel) = Inl e \<Longrightarrow>
    pool_run n ord clients api es (s\<lparr>psStarted := xs @ ys\<rparr>)"
| pr_store: "pool_run n ord clients api es s \<Longrightarrow> psFetched s = xs @ (p, warm) # ys \<Longrightarrow>
    router_at (psManager s) p = Some r \<Longrightarrow>
    pool_run n ord clients api es
      (s\<lparr>psFetched := xs @ ys, psManager := put_router p (r\<lparr>rModels := warm\<rparr>) (psManager s)\<rparr>)"
| pr_request: "pool_run n ord clients api es s \<Longrightarrow> route (psManager s) key = Some p \<Longrightarrow>
    router_at (psManager s) p = Some r \<Longrightarrow> rePods env \<in> clients \<Longrightarrow>
    GetModelEndpoint api env await after m (r, psCluster s) = (res, (r', c'), sent) \<Longrightarrow>
    pool_run n ord clients api es (s\<lparr>psManager := put_router p r' (psManager s), psCluster := c'\<rparr>)"
| pr_cluster: "pool_run n ord clients api es s \<Longrightarrow> pool_run n ord clients api es (s\<lparr>psCluster := c'\<rparr>)"

text \<open>The two last steps of a discovery are the function of the router, and the route is that of \<open>GetRouter\<close>.\<close>

lemma discovery_in_steps:
  "rHasClient r \<Longrightarrow> client (discovery_opts ns sel) = Inr pods \<Longrightarrow>
    r\<lparr>rModels := warm_of_pods q pods Map.empty\<rparr> = discoverWarmModelsWithSelector client q ns sel r"
  by (simp add: discoverWarmModelsWithSelector_def)

lemma route_GetRouter:
  assumes "pool_ok m"
  shows "GetRouter m key = Inr r \<longleftrightarrow> (\<exists>p. route m key = Some p \<and> router_at m p = Some r)"
proof (cases "mgPools m key")
  case None
  then show ?thesis
    by (cases "mgDefault m")
      (auto simp: GetRouter_def GetPool_def GetDefaultPool_def deref_def route_def router_at_def split: option.splits)
next
  case (Some p)
  then show ?thesis using pool_entry [OF assms Some]
    by (auto simp: GetRouter_def GetPool_def deref_def route_def router_at_def)
qed

subsection \<open>The invariant\<close>

text \<open>The list calls of a cluster that may change between them.\<close>

definition clients_list :: "pod lister set \<Rightarrow> bool" where
  "clients_list clients \<longleftrightarrow> (\<forall>client \<in> clients. \<exists>cluster. lists_cluster client cluster)"

text \<open>Every model a router knows is on a pod of its pool: of its namespace, with a selector it had.\<close>

definition found_with :: "(pool_key \<times> pool_lookup) list \<Rightarrow> pool_key \<Rightarrow> labels \<Rightarrow> bool" where
  "found_with es key sel \<longleftrightarrow> (\<exists>ports. (key, PoolFound sel ports) \<in> set es)"

text \<open>A pod in an answer of the API server to a list call for the namespace of the pool and the selector.\<close>

definition listed_pod :: "pod lister set \<Rightarrow> pool_key \<Rightarrow> labels \<Rightarrow> pod \<Rightarrow> bool" where
  "listed_pod clients key sel pod \<longleftrightarrow>
     (\<exists>client \<in> clients. \<exists>opts pods. inNamespace opts = Some (pkNamespace key) \<and> matchingLabels opts = sel \<and>
        client opts = Inr pods \<and> pod \<in> set pods)"

definition models_ok ::
  "pod lister set \<Rightarrow> (pool_key \<times> pool_lookup) list \<Rightarrow> pool_key \<Rightarrow> (string \<rightharpoonup> model_info) \<Rightarrow> bool" where
  "models_ok clients es key ms \<longleftrightarrow>
     (\<forall>m info. ms m = Some info \<longrightarrow>
        (\<exists>sel pod. found_with es key sel \<and> listed_pod clients key sel pod \<and> MiPodIP info = PodIP pod))"

definition config_inv :: "pod lister set \<Rightarrow> (pool_key \<times> pool_lookup) list \<Rightarrow> pool_config \<Rightarrow> bool" where
  "config_inv clients es pc \<longleftrightarrow> config_ok pc \<and> found_with es (pcKey pc) (pcPodSelector pc) \<and> rLoading (pcRouter pc) = {} \<and>
     models_ok clients es (pcKey pc) (rModels (pcRouter pc))"

definition job_inv :: "(pool_key \<times> pool_lookup) list \<Rightarrow> manager \<Rightarrow> nat \<times> string \<times> labels \<Rightarrow> bool" where
  "job_inv es m = (\<lambda>(p, ns, sel). \<exists>pc. mgStore m p = Some pc \<and> ns = pkNamespace (pcKey pc) \<and> found_with es (pcKey pc) sel)"

definition result_inv :: "pod lister set \<Rightarrow> (pool_key \<times> pool_lookup) list \<Rightarrow> manager \<Rightarrow> nat \<times> (string \<rightharpoonup> model_info) \<Rightarrow> bool" where
  "result_inv clients es m = (\<lambda>(p, ms). \<exists>pc. mgStore m p = Some pc \<and> models_ok clients es (pcKey pc) ms)"

definition pool_inv :: "pod lister set \<Rightarrow> (pool_key \<times> pool_lookup) list \<Rightarrow> 'c pool_sys \<Rightarrow> bool" where
  "pool_inv clients es s \<longleftrightarrow> pool_ok (psManager s) \<and>
     (\<forall>p pc. mgStore (psManager s) p = Some pc \<longrightarrow> p < mgNext (psManager s) \<and> config_inv clients es pc) \<and>
     (\<forall>j \<in> set (psStarted s). job_inv es (psManager s) j) \<and> (\<forall>j \<in> set (psFetched s). result_inv clients es (psManager s) j)"

text \<open>More answers keep what holds of the pods; so does a manager that keeps the keys of its pools.\<close>

lemma found_more: "found_with es key sel \<Longrightarrow> found_with (es @ es') key sel"
  by (auto simp: found_with_def)

lemma models_ok_more: "models_ok clients es key ms \<Longrightarrow> models_ok clients (es @ es') key ms"
  unfolding models_ok_def by (meson found_more)

lemma config_inv_more: "config_inv clients es pc \<Longrightarrow> config_inv clients (es @ es') pc"
  by (simp add: config_inv_def found_more models_ok_more)

definition keeps_keys :: "manager \<Rightarrow> manager \<Rightarrow> bool" where
  "keeps_keys m m' \<longleftrightarrow> (\<forall>p pc. mgStore m p = Some pc \<longrightarrow> (\<exists>pc'. mgStore m' p = Some pc' \<and> pcKey pc' = pcKey pc))"

lemma jobs_kept:
  assumes "keeps_keys m m'"
  shows "job_inv es m j \<Longrightarrow> job_inv (es @ es') m' j" and "result_inv clients es m k \<Longrightarrow> result_inv clients (es @ es') m' k"
  using assms unfolding keeps_keys_def job_inv_def result_inv_def
  by (fastforce simp: found_more models_ok_more split: prod.splits)+

lemma keeps_keys_put: "keeps_keys m (put_router p r m)"
  by (auto simp: keeps_keys_def put_router_def)

lemma pool_ok_put:
  assumes "pool_ok m" and "router_at m p = Some r" and "rNamespace r' = rNamespace r" "rPodSelector r' = rPodSelector r"
    "rReady r' = rReady r"
  shows "pool_ok (put_router p r' m)"
  using assms by (fastforce simp: pool_ok_def put_router_def router_at_def config_ok_def IsReady_def)

text \<open>What one reconciliation does to the store.\<close>

lemma Reconcile_store:
  assumes "pool_ok m" and "mgStore (snd (Reconcile n ord key answer m)) p = Some pc"
  obtains (kept) "mgStore m p = Some pc"
  | (created) sel ports where "answer = PoolFound sel ports" "mgPools m key = None" "p = mgNext m"
      "pc = new_config n m key sel ports"
  | (updated) sel ports pc0 where "answer = PoolFound sel ports" "mgPools m key = Some p" "mgStore m p = Some pc0"
      "pc = fst (update_config key sel ports pc0)"
proof (cases answer)
  case (PoolFound sel ports)
  then show ?thesis
  proof (cases "mgPools m key")
    case None
    have "(mgStore m)(mgNext m \<mapsto> new_config n m key sel ports) = mgStore (snd (Reconcile n ord key answer m))"
      by (simp add: Reconcile_def PoolFound upsert_new [OF None])
    then show ?thesis
      using assms(2) kept created [OF PoolFound None] by (metis fun_upd_apply option.inject)
  next
    case (Some q)
    obtain pc0 where pc0: "mgStore m q = Some pc0" using pool_entry [OF assms(1) Some] by blast
    have "(mgStore m)(q \<mapsto> fst (update_config key sel ports pc0)) = mgStore (snd (Reconcile n ord key answer m))"
      by (simp add: Reconcile_def PoolFound upsert_existing [OF Some pc0])
    then show ?thesis
      using assms(2) kept updated [OF PoolFound] Some pc0 by (metis fun_upd_apply option.inject)
  qed
qed (use assms(2) kept in \<open>auto simp: Reconcile_def DeletePool_def Let_def split: option.splits if_splits\<close>)

lemma Reconcile_next: "mgNext m \<le> mgNext (snd (Reconcile n ord key answer m))"
  by (auto simp: Reconcile_def UpsertPool_def DeletePool_def Let_def split: pool_lookup.split option.split prod.split)

lemma Reconcile_created: "mgPools m key = None \<Longrightarrow> mgNext (snd (Reconcile n ord key (PoolFound sel ports) m)) = mgNext m + 1"
  by (simp add: Reconcile_def upsert_new)

lemma Reconcile_keeps_keys:
  assumes "pool_ok m" and "\<And>p. mgStore m p \<noteq> None \<Longrightarrow> p < mgNext m"
  shows "keeps_keys m (snd (Reconcile n ord key answer m))"
proof -
  have fresh: "mgStore m (mgNext m) = None" using assms(2) [of "mgNext m"] by (cases "mgStore m (mgNext m)") simp_all
  show ?thesis
  proof (cases answer)
    case (PoolFound sel ports)
    show ?thesis
    proof (cases "mgPools m key")
      case None
      then show ?thesis using fresh by (auto simp: keeps_keys_def Reconcile_def PoolFound upsert_new)
    next
      case (Some q)
      obtain pc0 where pc0: "mgStore m q = Some pc0" "config_ok pc0" "pcKey pc0 = key"
        using pool_entry [OF assms(1) Some] by blast
      then show ?thesis using update_config_ok [OF pc0(2,3), of sel ports]
        by (auto simp: keeps_keys_def Reconcile_def PoolFound upsert_existing [OF Some])
    qed
  qed (auto simp: keeps_keys_def Reconcile_def DeletePool_def Let_def split: option.split)
qed

lemma Reconcile_ok: "range_order ord \<Longrightarrow> pool_ok m \<Longrightarrow> pool_ok (snd (Reconcile n ord key answer m))"
  by (simp add: Reconcile_def UpsertPool_ok DeletePool_ok split: pool_lookup.split)

lemma found_new: "found_with (es @ [(key, PoolFound sel ports)]) key sel"
  by (auto simp: found_with_def)

lemma config_inv_new: "config_inv clients (es @ [(key, PoolFound sel ports)]) (new_config n m key sel ports)"
  using new_config_ok [of n m key sel ports]
  by (simp add: config_inv_def found_new models_ok_def new_config_def NewRouter_def)

lemma config_inv_update:
  assumes "config_inv clients es pc" and "pcKey pc = key"
  shows "config_inv clients (es @ [(key, PoolFound sel ports)]) (fst (update_config key sel ports pc))"
proof -
  have "rLoading (pcRouter (fst (update_config key sel ports pc))) = rLoading (pcRouter pc)"
    "rModels (pcRouter (fst (update_config key sel ports pc))) = rModels (pcRouter pc)"
    by (simp_all add: update_config_def router_UpdatePodSelector_def router_UpdateNamespace_def)
  then show ?thesis
    using assms update_config_ok [of pc key sel ports] by (auto simp: config_inv_def found_new models_ok_more)
qed

lemma rediscovery_inv:
  assumes "pool_ok m" and "j \<in> set (rediscovery n key answer m)"
  shows "job_inv (es @ [(key, answer)]) m j"
proof -
  obtain sel ports p d where a: "answer = PoolFound sel ports" "mgPools m key = Some p" "j = (p, d)"
      "snd (UpsertPool n key sel ports m) = Some d"
    using assms(2) by (cases answer; cases "mgPools m key")
      (auto simp: rediscovery_def split: option.splits dest: sym)
  obtain pc where pc: "mgStore m p = Some pc" "pcKey pc = key" "config_ok pc"
    using pool_entry [OF assms(1) a(2)] by blast
  with a(2,4) have "d = (pkNamespace key, sel)"
    by (simp add: UpsertPool_def update_config_def router_UpdatePodSelector_def config_ok_def)
  with pc a(1,3) show ?thesis by (simp add: job_inv_def found_new)
qed

text \<open>What a discovery finds, and what a request does, in a pool.\<close>

lemma discovered_ok:
  assumes "client \<in> clients" and "client (discovery_opts (pkNamespace key) sel) = Inr pods" and "found_with es key sel"
  shows "models_ok clients es key (warm_of_pods (queryPodModels net decode) pods Map.empty)"
proof -
  have "\<exists>pod. listed_pod clients key sel pod \<and> MiPodIP info = PodIP pod"
    if entry: "warm_of_pods (queryPodModels net decode) pods Map.empty m = Some info" for m info
  proof -
    obtain pod infos where pod: "pod \<in> set pods" "queryPodModels net decode pod = Inr infos" "info \<in> set infos"
      using warm_of_pods_some [OF entry] by (auto simp: pod_answers_iff)
    have "listed_pod clients key sel pod"
      unfolding listed_pod_def
      by (intro bexI [of _ client] exI [of _ "discovery_opts (pkNamespace key) sel"] exI [of _ pods])
        (simp_all add: assms pod(1))
    with queryPodModels_info [OF pod(2,3)] show ?thesis by auto
  qed
  with assms(3) show ?thesis by (auto simp: models_ok_def)
qed

lemma findLoadPod_listed:
  assumes "findLoadPod env r = Inr pod"
  obtains node free pods where "reBestNode env = Inr (node, free)"
    "rePods env \<lparr>inNamespace = Some (rNamespace r), matchingLabels = rPodSelector r, fieldNodeName = Some node\<rparr> =
      Inr (pod # pods)"
  using assms by (auto simp: findLoadPod_def split: sum.splits prod.splits if_splits list.splits)

lemma findLoadPod_pool:
  assumes "findLoadPod env r = Inr pod" and "rePods env \<in> clients" and "rNamespace r = pkNamespace key"
  shows "listed_pod clients key (rPodSelector r) pod"
proof -
  obtain node free pods where "rePods env \<lparr>inNamespace = Some (rNamespace r), matchingLabels = rPodSelector r,
      fieldNodeName = Some node\<rparr> = Inr (pod # pods)"
    by (rule findLoadPod_listed [OF assms(1)])
  then show ?thesis
    unfolding listed_pod_def using assms(2,3)
    by (intro bexI [of _ "rePods env"] exI [of _ "\<lparr>inNamespace = Some (rNamespace r),
        matchingLabels = rPodSelector r, fieldNodeName = Some node\<rparr>"] exI [of _ "pod # pods"]) simp_all
qed

text \<open>A listed pod is one of the pool.\<close>

lemma listed_in_pool:
  assumes "clients_list clients" and "listed_pod clients key sel pod" and "pkNamespace key \<noteq> []"
  shows "PodNamespace pod = pkNamespace key \<and> labels_match sel (PodLabels pod)"
proof -
  obtain client opts pods where "client \<in> clients" and opts: "inNamespace opts = Some (pkNamespace key)"
      "matchingLabels opts = sel" and pods: "client opts = Inr pods" "pod \<in> set pods"
    using assms(2) by (auto simp: listed_pod_def)
  then obtain cluster where "lists_cluster client cluster" using assms(1) by (auto simp: clients_list_def)
  then have "pods = filter (pod_matches opts) cluster" using pods(1) by (simp add: lists_cluster_def)
  then have "pod_matches opts pod" using pods(2) by simp
  with opts assms(3) show ?thesis by (simp add: pod_matches_def in_namespace_def)
qed

lemma request_cases:
  assumes "rLoading r = {}" and "GetModelEndpoint api env await after m (r, c) = (res, (r', c'), sent)"
  obtains (warm) info where "rModels r m = Some info" "res = Inr (endpoint_url (MiPodIP info))" "r' = r"
  | (failed) e where "rModels r m = None" "res = Inl e" "r' = r"
  | (loaded) pod where "rModels r m = None" "findLoadPod env r = Inr pod" "res = Inr (endpoint_url (PodIP pod))"
      "r' = recordModel (reNow env) m pod r"
proof (cases "rModels r m")
  case None
  have idle: "m \<notin> rLoading r" by (simp add: assms(1))
  obtain x c1 where x: "tryAcquireLease api (reNow env) r m c = (x, c1)" by fastforce
  note eq = GetModelEndpoint_cold [OF None idle, of api env await "after" c, unfolded assms(2) x prod.case]
  show thesis
  proof (cases "x = Inr True")
    case True
    show thesis
      by (rule loadModelOnBestNode_cases [of env m r]) (use eq None failed loaded True in auto)
  next
    case False
    then consider e where "x = Inl e" | "x = Inr False" by (cases x) auto
    then have "\<exists>e. res = Inl e \<and> r' = r"
    proof cases
      case 1
      with eq show ?thesis by simp
    next
      case 2
      with eq show ?thesis by simp
    qed
    then show thesis using failed [OF None] by blast
  qed
next
  case (Some info)
  then have "GetModelEndpoint api env await after m (r, c) = (Inr (endpoint_url (MiPodIP info)), (r, c), [])"
    by (simp add: GetModelEndpoint_def)
  with assms(2) have "res = Inr (endpoint_url (MiPodIP info)) \<and> r' = r" by simp
  then show thesis using warm [OF Some] by blast
qed

text \<open>A router in the store is replaced by one of the same pool.\<close>

lemma pool_inv_put:
  assumes "pool_inv clients es s" and "mgStore (psManager s) p = Some pc"
    and "rNamespace r' = rNamespace (pcRouter pc)" "rPodSelector r' = rPodSelector (pcRouter pc)"
    and "rReady r' = rReady (pcRouter pc)" "rLoading r' = {}" and "models_ok clients es (pcKey pc) (rModels r')"
  shows "pool_inv clients es (s\<lparr>psManager := put_router p r' (psManager s)\<rparr>)"
proof -
  let ?m = "psManager s" and ?m' = "put_router p r' (psManager s)"
  have ok: "pool_ok ?m'"
    by (rule pool_ok_put) (use assms in \<open>simp_all add: pool_inv_def router_at_def\<close>)
  have "config_inv clients es (pc\<lparr>pcRouter := r'\<rparr>)"
    using assms by (simp add: pool_inv_def config_inv_def config_ok_def IsReady_def)
  then have "q < mgNext ?m' \<and> config_inv clients es c" if "mgStore ?m' q = Some c" for q c
    using that assms(1,2) by (auto simp: pool_inv_def put_router_def split: if_splits)
  moreover have "job_inv es ?m' j" if "j \<in> set (psStarted s)" for j
    using that jobs_kept(1) [OF keeps_keys_put, where es' = "[]"] assms(1) by (simp add: pool_inv_def)
  moreover have "result_inv clients es ?m' j" if "j \<in> set (psFetched s)" for j
    using that jobs_kept(2) [OF keeps_keys_put, where es' = "[]"] assms(1) by (simp add: pool_inv_def)
  ultimately show ?thesis using ok by (simp add: pool_inv_def)
qed

lemma pool_inv_reconciled:
  assumes "range_order ord" and "pool_inv clients es s"
  shows "pool_inv clients (es @ [(key, answer)]) (reconciled n ord key answer s)"
proof -
  let ?m = "psManager s" and ?m' = "snd (Reconcile n ord key answer (psManager s))"
  have ok: "pool_ok ?m" and below: "\<And>p. mgStore ?m p \<noteq> None \<Longrightarrow> p < mgNext ?m"
    using assms(2) by (auto simp: pool_inv_def)
  have keeps: "keeps_keys ?m ?m'" by (rule Reconcile_keeps_keys [OF ok below])
  have "p < mgNext ?m' \<and> config_inv clients (es @ [(key, answer)]) pc" if "mgStore ?m' p = Some pc" for p pc
    using ok that
  proof (cases rule: Reconcile_store)
    case kept
    then have "p < mgNext ?m \<and> config_inv clients es pc" using assms(2) by (simp add: pool_inv_def)
    then show ?thesis using Reconcile_next [of ?m n ord key answer] by (simp add: config_inv_more)
  next
    case (created sel ports)
    then show ?thesis by (simp add: Reconcile_created config_inv_new)
  next
    case (updated sel ports pc0)
    have "pcKey pc0 = key" using pool_entry [OF ok updated(2)] updated(3) by simp
    moreover have "config_inv clients es pc0" "p < mgNext ?m" using assms(2) updated(3) by (auto simp: pool_inv_def)
    ultimately show ?thesis
      using updated(1,4) Reconcile_next [of ?m n ord key answer] by (simp add: config_inv_update)
  qed
  moreover have "job_inv (es @ [(key, answer)]) ?m' j"
    if "j \<in> set (psStarted s) \<union> set (rediscovery n key answer ?m)" for j
  proof (cases "j \<in> set (psStarted s)")
    case True
    then have "job_inv es ?m j" using assms(2) by (simp add: pool_inv_def)
    then show ?thesis by (rule jobs_kept(1) [OF keeps])
  next
    case False
    then have "job_inv (es @ [(key, answer)]) ?m j" using that by (intro rediscovery_inv [OF ok]) simp
    then show ?thesis using jobs_kept(1) [OF keeps, of "es @ [(key, answer)]" j "[]"] by simp
  qed
  moreover have "result_inv clients (es @ [(key, answer)]) ?m' j" if "j \<in> set (psFetched s)" for j
    using that jobs_kept(2) [OF keeps] assms(2) by (simp add: pool_inv_def)
  ultimately show ?thesis
    using Reconcile_ok [OF assms(1) ok] by (auto simp: pool_inv_def reconciled_def)
qed

lemma pool_inv_run:
  assumes "range_order ord" and "pool_run n ord clients api es s"
  shows "pool_inv clients es s"
  using assms(2)
proof induction
  case (pr_start hasClient ns expSel load c)
  show ?case using new_manager_ok [of hasClient ns expSel load] by (simp add: pool_inv_def NewManager_def)
next
  case (pr_reconcile es s key answer)
  then show ?case by (intro pool_inv_reconciled assms(1))
next
  case (pr_tick es s p r)
  then obtain pc where pc: "mgStore (psManager s) p = Some pc" "r = pcRouter pc" by (auto simp: router_at_def)
  have "config_inv clients es pc" using pr_tick.IH pc(1) by (simp add: pool_inv_def)
  then show ?case using pr_tick.IH pc by (auto simp: pool_inv_def job_inv_def config_inv_def config_ok_def)
next
  case (pr_fetch es s xs p ns sel ys r client pods net decode)
  have "job_inv es (psManager s) (p, ns, sel)" using pr_fetch by (simp add: pool_inv_def)
  then have "result_inv clients es (psManager s) (p, warm_of_pods (queryPodModels net decode) pods Map.empty)"
    using discovered_ok pr_fetch.hyps(5,6) by (auto simp: job_inv_def result_inv_def)
  then show ?case using pr_fetch.IH pr_fetch.hyps(2) by (simp add: pool_inv_def)
next
  case (pr_give_up es s xs p ns sel ys r client e)
  then show ?case by (simp add: pool_inv_def)
next
  case (pr_store es s xs p warm ys r)
  have "result_inv clients es (psManager s) (p, warm)" using pr_store by (simp add: pool_inv_def)
  then obtain pc where pc: "mgStore (psManager s) p = Some pc" "models_ok clients es (pcKey pc) warm"
    by (auto simp: result_inv_def)
  then have r: "r = pcRouter pc" using pr_store.hyps(3) by (simp add: router_at_def)
  have inv: "pool_inv clients es (s\<lparr>psFetched := xs @ ys\<rparr>)" using pr_store by (simp add: pool_inv_def)
  have "rLoading (pcRouter pc) = {}" using pr_store.IH pc(1) by (simp add: pool_inv_def config_inv_def)
  then show ?case using pool_inv_put [OF inv, of p pc "r\<lparr>rModels := warm\<rparr>"] pc r by simp
next
  case (pr_request es s key p r env await "after" m res r' c' sent)
  then obtain pc where pc: "mgStore (psManager s) p = Some pc" "r = pcRouter pc" by (auto simp: router_at_def)
  have ci: "config_inv clients es pc" using pr_request.IH pc(1) by (simp add: pool_inv_def)
  have "rLoading r = {}" using ci pc(2) by (simp add: config_inv_def)
  then have "rNamespace r' = rNamespace r \<and> rPodSelector r' = rPodSelector r \<and> rReady r' = rReady r \<and>
      rLoading r' = {} \<and> models_ok clients es (pcKey pc) (rModels r')"
    using pr_request.hyps(5)
  proof (cases rule: request_cases)
    case (loaded pod)
    have "listed_pod clients (pcKey pc) (pcPodSelector pc) pod"
      using findLoadPod_pool [OF loaded(2) pr_request.hyps(4), of "pcKey pc"] ci pc(2) by (simp add: config_inv_def config_ok_def)
    then show ?thesis
      using ci pc(2) loaded(4) by (auto simp: recordModel_def config_inv_def models_ok_def)
  qed (use ci pc(2) in \<open>simp_all add: config_inv_def\<close>)
  then have "pool_inv clients es (s\<lparr>psManager := put_router p r' (psManager s)\<rparr>)"
    using pool_inv_put [OF pr_request.IH pc(1), of r'] pc(2) by simp
  then show ?case by (simp add: pool_inv_def)
next
  case (pr_cluster es s c')
  then show ?case by (simp add: pool_inv_def)
qed

subsection \<open>Requests stay in their pool\<close>

text \<open>The registry of a run is that of its answers alone.\<close>

lemma pool_view_put: "router_at m p = Some r \<Longrightarrow> pool_view (put_router p r' m) = pool_view m"
  by (auto simp: fun_eq_iff pool_view_def GetPool_def deref_def put_router_def router_at_def split: bind_splits option.splits)

lemma run_view:
  assumes "range_order ord" and "pool_run n ord clients api es s"
  shows "pool_view (psManager s) = pool_view (reconcile_all n ord es (NewManager hasClient ns expSel load))"
  using assms(2)
proof induction
  case (pr_start hasClient' ns' expSel' load' c)
  show ?case by (auto simp: fun_eq_iff reconcile_all_def pool_view_def GetPool_def deref_def NewManager_def)
next
  case (pr_reconcile es s key answer)
  let ?m = "reconcile_all n ord es (NewManager hasClient ns expSel load)"
  have "pool_ok (psManager s)" using pool_inv_run [OF assms(1) pr_reconcile.hyps] by (simp add: pool_inv_def)
  moreover have "pool_ok ?m" by (rule reconcile_all_ok [OF assms(1) new_manager_ok])
  ultimately have "pool_view (snd (Reconcile n ord key answer (psManager s))) = pool_view (snd (Reconcile n ord key answer ?m))"
    by (simp add: Reconcile_react pools.react_view assms(1) pr_reconcile.IH split: option.split)
  then show ?case by (simp add: reconciled_def reconcile_all_def)
qed (simp_all add: pool_view_put)

text \<open>C15: Requests stay in their pool. Whatever reconciliations, discoveries and requests went before, in any
  order: when the last decisive answer about a pool was that it exists with selector \<open>sel\<close>, a request for it is
  answered with the endpoint of a pod that the API server lists for the namespace of this pool and a
  selector the pool was once found with, so the pod is in that namespace and carries those labels. A request that
  has a model loaded gets the first pod that is listed at that moment for the namespace, the selector
  \<open>sel\<close> and the node that the VRAM tracker names.\<close>

theorem pool_requests_stay:
  assumes "range_order ord" and "clients_list clients"
    and "pool_run n ord clients api (xs @ (key, PoolFound sel ports) # ys) s"
    and "\<And>a. (key, a) \<in> set ys \<Longrightarrow> \<exists>e. a = PoolGetFailed e" and "pkNamespace key \<noteq> []"
    and "GetRouter (psManager s) key = Inr r" and "rePods env \<in> clients"
    and "GetModelEndpoint api env await after m (r, c) = (Inr url, w, sent)"
  shows "\<exists>pod sel'. url = endpoint_url (PodIP pod) \<and> listed_pod clients key sel' pod \<and>
    found_with (xs @ (key, PoolFound sel ports) # ys) key sel' \<and>
    PodNamespace pod = pkNamespace key \<and> labels_match sel' (PodLabels pod) \<and>
    (rModels r m = None \<longrightarrow> sel' = sel \<and>
      (\<exists>node free pods. reBestNode env = Inr (node, free) \<and>
         rePods env \<lparr>inNamespace = Some (pkNamespace key), matchingLabels = sel, fieldNodeName = Some node\<rparr> =
           Inr (pod # pods)))"
proof -
  let ?es = "xs @ (key, PoolFound sel ports) # ys"
  have inv: "pool_inv clients ?es s" by (rule pool_inv_run [OF assms(1,3)])
  have "decisive a = None" if "(key, a) \<in> set ys" for a using assms(4) [OF that] by auto
  then have "pool_view (psManager s) key = Some (sel, ports)"
    using reconcile_all_last [OF assms(1) new_manager_ok, of key ys "PoolFound sel ports" "Some (sel, ports)"]
    unfolding run_view [OF assms(1,3), of True "[]" Map.empty "[]"] by simp
  then obtain pc where pc: "GetPool (psManager s) key = Some pc" "pcPodSelector pc = sel" by (auto simp: pool_view_def)
  then have r: "r = pcRouter pc" using assms(6) by (simp add: GetRouter_def)
  have key: "pcKey pc = key" using GetPool_ok [OF _ pc(1)] inv by (simp add: pool_inv_def)
  have ci: "config_inv clients ?es pc"
    using pc(1) inv by (auto simp: pool_inv_def GetPool_def deref_def split: bind_splits)
  have own: "rNamespace r = pkNamespace key" "rPodSelector r = sel" "rLoading r = {}"
    using ci by (simp_all add: r config_inv_def config_ok_def key pc(2))
  note in_pool = listed_in_pool [OF assms(2) _ assms(5)]
  obtain r' c' where w: "w = (r', c')" by fastforce
  from own(3) assms(8) [unfolded w] show ?thesis
  proof (cases rule: request_cases)
    case (warm info)
    then obtain sel' pod where pod: "found_with ?es key sel'" "listed_pod clients key sel' pod" "MiPodIP info = PodIP pod"
      using ci warm(1) unfolding r config_inv_def models_ok_def key by blast
    with in_pool [OF pod(2)] warm show ?thesis by (intro exI [of _ pod] exI [of _ sel']) simp
  next
    case (loaded pod)
    have pod: "listed_pod clients key sel pod"
      using findLoadPod_pool [OF loaded(2) assms(7) own(1)] by (simp add: own(2))
    have "\<exists>node free pods. reBestNode env = Inr (node, free) \<and>
        rePods env \<lparr>inNamespace = Some (pkNamespace key), matchingLabels = sel, fieldNodeName = Some node\<rparr> = Inr (pod # pods)"
      using findLoadPod_listed [OF loaded(2)] by (metis own(1,2))
    with in_pool [OF pod] pod loaded(3) show ?thesis
      by (intro exI [of _ pod] exI [of _ sel]) (auto simp: found_with_def)
  qed simp
qed

text \<open>A cluster with one model server, and a pool that selects it.\<close>

definition demo_list :: "pod lister" where
  "demo_list = (\<lambda>opts. Inr (filter (pod_matches opts) [demo_server]))"

definition demo_pools :: "lease_store pool_sys" where
  "demo_pools = reconciled ''epp-0'' sorted_list_of_set (PoolKey ''models'' ''a'') (PoolFound [''app'' \<mapsto> ''llama''] [8080])
     \<lparr>psManager = NewManager True ''kube-system'' Map.empty ''/models/load'', psStarted = [], psFetched = [],
      psCluster = Map.empty\<rparr>"

lemma demo_pools_run:
  "pool_run ''epp-0'' sorted_list_of_set {demo_list} store_api
    [(PoolKey ''models'' ''a'', PoolFound [''app'' \<mapsto> ''llama''] [8080])] demo_pools"
  using pr_reconcile [OF pr_start] unfolding demo_pools_def by fastforce

lemma demo_pools_state:
  "psStarted demo_pools = []" "psFetched demo_pools = []"
  "GetRouter (psManager demo_pools) (PoolKey ''models'' ''a'') =
    Inr (NewRouter True ''epp-0'' ''models'' [''app'' \<mapsto> ''llama''] ''/models/load'')"
  by (simp_all add: demo_pools_def reconciled_def rediscovery_def Reconcile_def UpsertPool_def NewManager_def Let_def
      GetRouter_def GetPool_def deref_def new_config_def)

lemma demo_list_ok: "clients_list {demo_list}"
  unfolding clients_list_def lists_cluster_def demo_list_def by (auto intro: exI [of _ "[demo_server]"])

lemma demo_pool_request:
  "\<exists>w. GetModelEndpoint store_api (demo_router_env\<lparr>rePods := demo_list\<rparr>) DoneCancelled undefined ''llama''
      (NewRouter True ''epp-0'' ''models'' [''app'' \<mapsto> ''llama''] ''/models/load'', Map.empty) =
    (Inr (endpoint_url ''10.0.0.1''), w, [None])"
  by (simp add: GetModelEndpoint_cold NewRouter_def tryAcquireLease_def store_api_def loadModelOnBestNode_def
      findLoadPod_def loadModelOnPod_def demo_router_env_def demo_list_def demo_server_def pod_matches_def in_namespace_def
      labels_match_def map_le_def StatusOK_def StatusCreated_def Let_def)

theorem pool_requests_stay_witness:
  "\<exists>pod. endpoint_url ''10.0.0.1'' = endpoint_url (PodIP pod) \<and>
    listed_pod {demo_list} (PoolKey ''models'' ''a'') [''app'' \<mapsto> ''llama''] pod \<and> PodNamespace pod = ''models''"
proof -
  let ?r = "NewRouter True ''epp-0'' ''models'' [''app'' \<mapsto> ''llama''] ''/models/load''"
  obtain w where w: "GetModelEndpoint store_api (demo_router_env\<lparr>rePods := demo_list\<rparr>) DoneCancelled undefined ''llama''
      (?r, Map.empty) = (Inr (endpoint_url ''10.0.0.1''), w, [None])"
    using demo_pool_request by blast
  have cold: "rModels ?r ''llama'' = None" by (simp add: NewRouter_def)
  show ?thesis
    using pool_requests_stay [OF range_order_sorted demo_list_ok, where xs = "[]" and ys = "[]" and s = demo_pools and
        r = ?r and n = "''epp-0''" and api = store_api and sel = "[''app'' \<mapsto> ''llama'']" and ports = "[8080]",
        OF _ _ _ demo_pools_state(3) _ w]
      demo_pools_run cold by auto
qed

subsection \<open>A discovery that comes late\<close>

lemma reconciled_existing:
  assumes "pool_ok (psManager s)" and "mgPools (psManager s) key = Some p" and "mgStore (psManager s) p = Some pc"
  shows "reconciled n ord key (PoolFound sel ports) s =
    s\<lparr>psManager := (psManager s)\<lparr>mgStore := (mgStore (psManager s))(p \<mapsto> fst (update_config key sel ports pc))\<rparr>,
      psStarted := psStarted s @ [(p, pkNamespace key, sel)]\<rparr>"
proof -
  have "pcKey pc = key" "config_ok pc" using pool_entry [OF assms(1,2)] assms(3) by simp_all
  then have "rNamespace (pcRouter pc) = pkNamespace key" by (simp add: config_ok_def)
  then have "snd (UpsertPool n key sel ports (psManager s)) = Some (pkNamespace key, sel)"
    by (simp add: UpsertPool_def update_config_def router_UpdatePodSelector_def assms(2,3))
  then show ?thesis
    by (simp add: reconciled_def rediscovery_def Reconcile_def upsert_existing [OF assms(2,3)] assms(2))
qed

text \<open>A discovery that is started may run to its end with nothing in between.\<close>

lemma run_discovery:
  assumes "pool_run n ord clients api es s" and "psStarted s = xs @ (p, ns, sel) # ys" and "psFetched s = []"
    and "router_at (psManager s) p = Some r" and "rHasClient r" and "client \<in> clients"
    and "client (discovery_opts ns sel) = Inr pods"
  shows "pool_run n ord clients api es (s\<lparr>psStarted := xs @ ys, psFetched := [],
    psManager := put_router p (r\<lparr>rModels := warm_of_pods (queryPodModels net decode) pods Map.empty\<rparr>) (psManager s)\<rparr>)"
proof -
  let ?warm = "warm_of_pods (queryPodModels net decode) pods Map.empty"
  have "pool_run n ord clients api es (s\<lparr>psStarted := xs @ ys, psFetched := psFetched s @ [(p, ?warm)]\<rparr>)"
    by (rule pr_fetch [OF assms(1,2,4-7)])
  from pr_store [OF this, of "[]" p ?warm "[]" r] show ?thesis using assms(3,4) by simp
qed

lemma GetPool_entry:
  assumes "pool_ok m" and "GetPool m key = Some pc"
  obtains p where "mgPools m key = Some p" "mgStore m p = Some pc"
  using assms by (auto simp: GetPool_def deref_def split: bind_splits)

lemma update_config_router:
  "pcRouter (fst (update_config key sel ports pc)) = (pcRouter pc)\<lparr>rPodSelector := sel, rNamespace := pkNamespace key\<rparr>"
  "pcPodSelector (fst (update_config key sel ports pc)) = sel"
  by (simp_all add: update_config_def router_UpdatePodSelector_def router_UpdateNamespace_def)

text \<open>Two updates of a pool in a row, and the two discoveries they start.\<close>

lemma two_updates:
  assumes "range_order ord" and "pool_run n ord clients api es s"
    and "psStarted s = []" and "psFetched s = []" and "GetPool (psManager s) key = Some pc"
  obtains p s2 pc2 where
    "pool_run n ord clients api (es @ [(key, PoolFound selA ports), (key, PoolFound selB ports)]) s2"
    "psStarted s2 = [(p, pkNamespace key, selA)] @ [(p, pkNamespace key, selB)]" "psFetched s2 = []"
    "mgPools (psManager s2) key = Some p" "mgStore (psManager s2) p = Some pc2"
    "rHasClient (pcRouter pc2) = rHasClient (pcRouter pc)" "rPodSelector (pcRouter pc2) = selB"
proof -
  have ok: "pool_ok t" if "pool_run n ord clients api fs u" "t = psManager u" for fs u t
    using pool_inv_run [OF assms(1) that(1)] that(2) by (simp add: pool_inv_def)
  obtain p where p: "mgPools (psManager s) key = Some p" "mgStore (psManager s) p = Some pc"
    by (rule GetPool_entry [OF ok [OF assms(2) refl] assms(5)])
  define s1 where "s1 = reconciled n ord key (PoolFound selA ports) s"
  define s2 where "s2 = reconciled n ord key (PoolFound selB ports) s1"
  define pc1 where "pc1 = fst (update_config key selA ports pc)"
  define pc2 where "pc2 = fst (update_config key selB ports pc1)"
  note s1 = reconciled_existing [OF ok [OF assms(2) refl] p, of n ord selA ports, folded s1_def pc1_def]
  have run1: "pool_run n ord clients api (es @ [(key, PoolFound selA ports)]) s1"
    unfolding s1_def by (rule pr_reconcile [OF assms(2)])
  have p1: "mgPools (psManager s1) key = Some p" "mgStore (psManager s1) p = Some pc1" by (simp_all add: s1 p)
  note s2 = reconciled_existing [OF ok [OF run1 refl] p1, of n ord selB ports, folded s2_def pc2_def]
  have run2: "pool_run n ord clients api (es @ [(key, PoolFound selA ports), (key, PoolFound selB ports)]) s2"
    using pr_reconcile [OF run1, of key "PoolFound selB ports"] by (simp add: s2_def)
  have jobs: "psStarted s2 = [(p, pkNamespace key, selA)] @ [(p, pkNamespace key, selB)]" "psFetched s2 = []"
    and p2: "mgPools (psManager s2) key = Some p" "mgStore (psManager s2) p = Some pc2"
    by (simp_all add: s2 s1 assms(3,4) p)
  have "rHasClient (pcRouter pc2) = rHasClient (pcRouter pc)" "rPodSelector (pcRouter pc2) = selB"
    by (simp_all add: pc2_def pc1_def update_config_router)
  with run2 jobs p2 show thesis by (rule that)
qed

lemma listed_model_warm:
  assumes "queryPodModels net decode pod = Inr infos" and "Phase pod = PodRunning" and "m \<in> MiName ` set infos"
  obtains info where "warm_of_pods (queryPodModels net decode) [pod] Map.empty m = Some info" "MiPodIP info = PodIP pod"
proof -
  let ?q = "queryPodModels net decode"
  have "m \<in> dom (warm_of_pods ?q [pod] Map.empty)"
    using assms unfolding warm_of_pods_dom by (simp add: pod_answers_def)
  then obtain info where info: "warm_of_pods ?q [pod] Map.empty m = Some info" by blast
  have "MiPodIP info = PodIP pod"
    using warm_of_pods_some [OF info] queryPodModels_info [OF assms(1)] by (auto simp: pod_answers_iff assms(1))
  with info show thesis by (rule that)
qed

text \<open>C16: The discoveries that two updates of a selector start are not ordered. In a pool with nothing
  outstanding, over a cluster that does not change and answers every list call, the selector is updated to
  \<open>selA\<close> and then to \<open>selB\<close>, and both discoveries succeed; when that of \<open>selA\<close> ends last, the router with
  the selector \<open>selB\<close> answers requests with the pod of \<open>selA\<close>, whatever its labels, and loads nothing.\<close>

theorem late_discovery_wins:
  assumes "range_order ord" and "pool_run n ord {\<lambda>opts. Inr (filter (pod_matches opts) cluster)} api es s"
    and "psStarted s = []" and "psFetched s = []"
    and "GetPool (psManager s) key = Some pc" and "rHasClient (pcRouter pc)"
    and "filter (pod_matches (discovery_opts (pkNamespace key) selA)) cluster = [pod]" and "Phase pod = PodRunning"
    and "queryPodModels net decode pod = Inr infos" and "m \<in> MiName ` set infos"
  shows "\<exists>s' pc'. pool_run n ord {\<lambda>opts. Inr (filter (pod_matches opts) cluster)} api
      (es @ [(key, PoolFound selA ports), (key, PoolFound selB ports)]) s' \<and> psStarted s' = [] \<and> psFetched s' = [] \<and>
    GetPool (psManager s') key = Some pc' \<and> rPodSelector (pcRouter pc') = selB \<and>
    GetModelEndpoint api' env await after m (pcRouter pc', c) = (Inr (endpoint_url (PodIP pod)), (pcRouter pc', c), [])"
proof -
  let ?client = "\<lambda>opts. Inr (filter (pod_matches opts) cluster) :: string + pod list"
  let ?q = "queryPodModels net decode" and ?ns = "pkNamespace key"
  obtain p s2 pc2 where
    run2: "pool_run n ord {?client} api (es @ [(key, PoolFound selA ports), (key, PoolFound selB ports)]) s2"
    and jobs: "psStarted s2 = [(p, ?ns, selA)] @ [(p, ?ns, selB)]" "psFetched s2 = []"
    and p2: "mgPools (psManager s2) key = Some p" "mgStore (psManager s2) p = Some pc2"
    and r2: "rHasClient (pcRouter pc2)" "rPodSelector (pcRouter pc2) = selB"
    by (rule two_updates [OF assms(1-5), of selA ports selB]) (simp add: assms(6))
  let ?r2 = "pcRouter pc2" and ?warm2 = "warm_of_pods ?q (filter (pod_matches (discovery_opts ?ns selB)) cluster) Map.empty"
  let ?s3 = "s2\<lparr>psStarted := [(p, ?ns, selA)] @ [], psFetched := [],
    psManager := put_router p (?r2\<lparr>rModels := ?warm2\<rparr>) (psManager s2)\<rparr>"
  have run3: "pool_run n ord {?client} api (es @ [(key, PoolFound selA ports), (key, PoolFound selB ports)]) ?s3"
    by (rule run_discovery [OF run2 jobs, where client = ?client]) (simp_all add: router_at_def p2 r2)
  let ?r4 = "?r2\<lparr>rModels := warm_of_pods ?q [pod] Map.empty\<rparr>"
  let ?s4 = "?s3\<lparr>psStarted := [] @ [], psFetched := [],
    psManager := put_router p ((?r2\<lparr>rModels := ?warm2\<rparr>)\<lparr>rModels := warm_of_pods ?q [pod] Map.empty\<rparr>) (psManager ?s3)\<rparr>"
  have run4: "pool_run n ord {?client} api (es @ [(key, PoolFound selA ports), (key, PoolFound selB ports)]) ?s4"
    by (rule run_discovery [OF run3, where client = ?client and ns = ?ns and sel = selA])
      (simp_all add: router_at_def put_router_def p2 r2 assms(7))
  have pool: "GetPool (psManager ?s4) key = Some (pc2\<lparr>pcRouter := ?r4\<rparr>)"
    by (simp add: GetPool_def deref_def put_router_def p2)
  obtain info where "rModels ?r4 m = Some info" "MiPodIP info = PodIP pod"
    using listed_model_warm [OF assms(9,8,10)] by auto
  then have "GetModelEndpoint api' env await after m (?r4, c) = (Inr (endpoint_url (PodIP pod)), (?r4, c), [])"
    by (simp add: GetModelEndpoint_def)
  then show ?thesis
    using run4 pool by (intro exI [of _ ?s4] exI [of _ "pc2\<lparr>pcRouter := ?r4\<rparr>"]) (simp add: r2)
qed

text \<open>The pool gives up its only server, and goes on to send requests to it.\<close>

theorem late_discovery_wins_witness:
  "\<exists>r. rPodSelector r = [''app'' \<mapsto> ''other''] \<and> \<not> labels_match [''app'' \<mapsto> ''other''] (PodLabels demo_server) \<and>
    GetModelEndpoint store_api demo_router_env DoneCancelled undefined ''llama'' (r, Map.empty) =
      (Inr (endpoint_url (PodIP demo_server)), (r, Map.empty), [])"
proof -
  let ?k = "PoolKey ''models'' ''a''"
  obtain pc where pc: "GetPool (psManager demo_pools) ?k = Some pc"
    "pcRouter pc = NewRouter True ''epp-0'' ''models'' [''app'' \<mapsto> ''llama''] ''/models/load''"
    using demo_pools_state(3)
    by (auto simp: demo_pools_def reconciled_def Reconcile_def UpsertPool_def NewManager_def Let_def GetPool_def
        deref_def new_config_def)
  have client: "rHasClient (pcRouter pc)" by (simp add: pc NewRouter_def)
  have only: "filter (pod_matches (discovery_opts (pkNamespace ?k) [''app'' \<mapsto> ''llama''])) [demo_server] = [demo_server]"
    by (simp add: demo_server_def pod_matches_def in_namespace_def labels_match_def map_le_def)
  have running: "Phase demo_server = PodRunning" by (simp add: demo_server_def)
  obtain infos where answer: "queryPodModels listing_net unloaded_listing demo_server = Inr infos" "''llama'' \<in> MiName ` set infos"
    by (auto simp: queryPodModels_def listing_net_def unloaded_listing_def demo_server_def StatusOK_def Let_def)
  have "\<not> labels_match [''app'' \<mapsto> ''other''] (PodLabels demo_server)"
    by (simp add: demo_server_def labels_match_def map_le_def)
  with late_discovery_wins [OF range_order_sorted demo_pools_run [unfolded demo_list_def] demo_pools_state(1,2) pc(1) client
      only running answer, where selB = "[''app'' \<mapsto> ''other'']" and ports = "[8080]" and api' = store_api and
      env = demo_router_env and await = DoneCancelled and after = undefined and c = Map.empty]
  show ?thesis by blast
qed

end
