(* ===== verification/GenAI_Metrics.thy ===== *)
theory GenAI_Metrics
  imports Version_Info Go_Float
begin

section \<open>Request telemetry\<close>

text \<open>
  \<open>internal/telemetry/genai.go\<close>: the instruments of the GenAI conventions, and the recorder of
  one request. An instrument keeps one series for each set of attributes: a counter its sum, a
  histogram the values recorded, a gauge the last one. The OpenTelemetry SDK is outside the
  program; what the code relies on is that a set of attributes built from a list keeps the last
  value of a key, and that \<open>Add\<close> and \<open>Record\<close> touch the series of their attributes only.
\<close>

subsection \<open>Attributes\<close>

datatype attr_value = StringAttr string | Int64Attr int64 | Float64Attr float64

type_synonym attr = "string \<times> attr_value"
type_synonym attr_set = "string \<rightharpoonup> attr_value"

definition attr_set :: "attr list \<Rightarrow> attr_set" where
  "attr_set as = map_of (rev as)"

definition AttrGenAIOperationName :: string where "AttrGenAIOperationName = ''gen_ai.operation.name''"
definition AttrGenAIRequestModel :: string where "AttrGenAIRequestModel = ''gen_ai.request.model''"
definition AttrGenAIResponseModel :: string where "AttrGenAIResponseModel = ''gen_ai.response.model''"
definition AttrGenAIProviderName :: string where "AttrGenAIProviderName = ''gen_ai.provider.name''"
definition AttrGenAISystem :: string where "AttrGenAISystem = ''gen_ai.system''"
definition AttrGenAITokenTypeKey :: string where "AttrGenAITokenTypeKey = ''gen_ai.token.type''"
definition AttrOpenInferenceSpanKind :: string where "AttrOpenInferenceSpanKind = ''openinference.span.kind''"
definition AttrLLMTokenCountPromptKey :: string where "AttrLLMTokenCountPromptKey = ''llm.token_count.prompt''"
definition AttrLLMTokenCountCompletionKey :: string where
  "AttrLLMTokenCountCompletionKey = ''llm.token_count.completion''"
definition AttrLLMTokenCountTotalKey :: string where "AttrLLMTokenCountTotalKey = ''llm.token_count.total''"
definition TokenTypeInput :: string where "TokenTypeInput = ''input''"
definition TokenTypeOutput :: string where "TokenTypeOutput = ''output''"

text \<open>
  The keys and values of the conventions that are there for callers; nothing in the repository reads
  them. Each table pairs the name of a constant with its value.
\<close>

definition AttrGenAIUsageInputTokensKey :: string where "AttrGenAIUsageInputTokensKey = ''gen_ai.usage.input_tokens''"
definition AttrGenAIUsageOutputTokensKey :: string where "AttrGenAIUsageOutputTokensKey = ''gen_ai.usage.output_tokens''"
definition AttrLLMModelName :: string where "AttrLLMModelName = ''llm.model_name''"

definition openinference_keys :: "(string \<times> string) list" where
  "openinference_keys =
     [(''AttrLLMInvocationParameters'', ''llm.invocation_parameters''),
      (''AttrEmbeddingModelName'', ''embedding.model_name''),
      (''AttrEmbeddingEmbeddings'', ''embedding.embeddings''),
      (''AttrRerankQueryText'', ''reranker.query''),
      (''AttrRerankTopK'', ''reranker.top_k''),
      (''AttrRetrieverQueryText'', ''retriever.query''),
      (''AttrRetrieverDocuments'', ''retriever.documents''),
      (''AttrToolName'', ''tool.name''),
      (''AttrToolDescription'', ''tool.description''),
      (''AttrToolParameters'', ''tool.parameters''),
      (''AttrSessionID'', ''session.id''),
      (''AttrUserID'', ''user.id''),
      (''AttrMetadataKey'', ''metadata''),
      (''AttrTagsKey'', ''tag.tags''),
      (''AttrInputValueKey'', ''input.value''),
      (''AttrInputMimeType'', ''input.mime_type''),
      (''AttrOutputValueKey'', ''output.value''),
      (''AttrOutputMimeType'', ''output.mime_type'')]"

definition operation_names :: "(string \<times> string) list" where
  "operation_names =
     [(''OperationChat'', ''chat''), (''OperationCompletion'', ''text_completion''),
      (''OperationEmbedding'', ''embeddings''), (''OperationRerank'', ''rerank'')]"

definition span_kinds :: "(string \<times> string) list" where
  "span_kinds =
     [(''SpanKindLLM'', ''LLM''), (''SpanKindEmbedding'', ''EMBEDDING''), (''SpanKindChain'', ''CHAIN''),
      (''SpanKindRetriever'', ''RETRIEVER''), (''SpanKindReranker'', ''RERANKER''), (''SpanKindTool'', ''TOOL''),
      (''SpanKindAgent'', ''AGENT''), (''SpanKindGuardrail'', ''GUARDRAIL''),
      (''SpanKindEvaluator'', ''EVALUATOR''), (''SpanKindPrompt'', ''PROMPT'')]"

record request_params =
  Operation :: string
  Model :: string
  Provider :: string
  System :: string
  TargetPod :: string
  TargetNode :: string
  SpanKind :: string
  Attributes :: "string \<rightharpoonup> string"
  InputTokens :: int64

text \<open>The code ranges over the map of custom attributes, in the order \<open>ord\<close>.\<close>

definition opt_attr :: "string \<Rightarrow> string \<Rightarrow> attr list" where
  "opt_attr key v = (if v = [] then [] else [(key, StringAttr v)])"

definition buildAttributes :: "(string set \<Rightarrow> string list) \<Rightarrow> request_params \<Rightarrow> attr list" where
  "buildAttributes ord params =
     [(AttrGenAIOperationName, StringAttr (Operation params)), (AttrGenAIRequestModel, StringAttr (Model params))] @
     opt_attr AttrGenAIProviderName (Provider params) @
     opt_attr AttrGenAISystem (System params) @
     opt_attr ''target.pod'' (TargetPod params) @
     opt_attr ''target.node'' (TargetNode params) @
     opt_attr AttrOpenInferenceSpanKind (SpanKind params) @
     (if i64_less 0 (InputTokens params) then [(AttrLLMTokenCountPromptKey, Int64Attr (InputTokens params))] else []) @
     map (\<lambda>k. (k, StringAttr (case Attributes params k of None \<Rightarrow> [] | Some v \<Rightarrow> v))) (ord (dom (Attributes params)))"

definition spanName :: "request_params \<Rightarrow> string" where
  "spanName params =
     (if SpanKind params \<noteq> [] then SpanKind params @ '' '' @ Model params
      else Operation params @ '' '' @ Model params)"

subsection \<open>Instruments\<close>

type_synonym counter = "attr_set \<Rightarrow> int64"
type_synonym histogram = "(attr_set \<times> float64) list"
type_synonym gauge = "attr_set \<rightharpoonup> int64"

definition Add :: "int64 \<Rightarrow> attr list \<Rightarrow> counter \<Rightarrow> counter" where
  "Add n as c = c(attr_set as := c (attr_set as) + n)"

definition Record :: "float64 \<Rightarrow> attr list \<Rightarrow> histogram \<Rightarrow> histogram" where
  "Record x as h = h @ [(attr_set as, x)]"

definition RecordGauge :: "int64 \<Rightarrow> attr list \<Rightarrow> gauge \<Rightarrow> gauge" where
  "RecordGauge n as g = g(attr_set as \<mapsto> n)"

record genai_metrics =
  tokenUsage :: counter
  requestDuration :: histogram
  timeToFirstToken :: histogram
  timePerOutputToken :: histogram
  activeRequests :: counter
  requestsTotal :: counter
  requestTokensTotal :: counter
  responseTokensTotal :: counter
  cacheHitTokensTotal :: counter
  modelLoadDuration :: histogram
  modelMemoryUsage :: gauge
  routingDecisionCount :: counter

text \<open>
  What the code asks the SDK to create, and the boundaries of the histograms in seconds, as the
  constants of the source round to \<open>float64\<close>.
\<close>

definition RequestDurationBuckets :: "float64 list" where
  "RequestDurationBuckets = map f64_const
     [5/1000, 1/100, 25/1000, 5/100, 1/10, 25/100, 5/10, 1, 25/10, 5, 10, 30, 60]"

definition TimeToFirstTokenBuckets :: "float64 list" where
  "TimeToFirstTokenBuckets = map f64_const
     [1/1000, 5/1000, 1/100, 25/1000, 5/100, 1/10, 25/100, 5/10, 1, 25/10, 5]"

definition TimePerTokenBuckets :: "float64 list" where
  "TimePerTokenBuckets = map f64_const [1/1000, 5/1000, 1/100, 25/1000, 5/100, 1/10, 25/100, 5/10, 1]"

definition ModelLoadDurationBuckets :: "float64 list" where
  "ModelLoadDurationBuckets = map f64_const [1, 5, 10, 30, 60, 120, 300, 600]"

datatype instrument_kind = Int64Counter | Int64UpDownCounter | Int64Gauge | Float64Histogram "float64 list"

record instrument =
  inName :: string
  inKind :: instrument_kind
  inDescription :: string
  inUnit :: string

text \<open>
  Creation asks the meter for each instrument in turn and stops at the first error, wrapped with
  what was being created. \<open>meter i\<close> is the error of the SDK for the instrument \<open>i\<close>.
\<close>

datatype instrument_error = Creating string string

type_synonym genai_meter = "instrument \<Rightarrow> string option"

fun create_all :: "genai_meter \<Rightarrow> (instrument \<times> string) list \<Rightarrow> instrument_error option" where
  "create_all meter [] = None"
| "create_all meter ((i, what) # is) =
     (case meter i of Some e \<Rightarrow> Some (Creating what e) | None \<Rightarrow> create_all meter is)"

definition core_instruments :: "(instrument \<times> string) list" where
  "core_instruments =
     [(\<lparr>inName = ''gen_ai.client.token.usage'', inKind = Int64Counter,
        inDescription = ''Number of tokens used in GenAI operations'', inUnit = ''{token}''\<rparr>, ''token usage counter''),
      (\<lparr>inName = ''gen_ai.server.request.duration'', inKind = Float64Histogram RequestDurationBuckets,
        inDescription = ''Duration of GenAI requests'', inUnit = ''s''\<rparr>, ''request duration histogram''),
      (\<lparr>inName = ''gen_ai.server.time_to_first_token'', inKind = Float64Histogram TimeToFirstTokenBuckets,
        inDescription = ''Time from request start to first token received'', inUnit = ''s''\<rparr>, ''time to first token histogram''),
      (\<lparr>inName = ''gen_ai.server.time_per_output_token'', inKind = Float64Histogram TimePerTokenBuckets,
        inDescription = ''Average time per output token generated'', inUnit = ''s''\<rparr>, ''time per output token histogram''),
      (\<lparr>inName = ''gen_ai.server.active_requests'', inKind = Int64UpDownCounter,
        inDescription = ''Number of active GenAI requests'', inUnit = ''{request}''\<rparr>, ''active requests counter''),
      (\<lparr>inName = ''gen_ai.server.requests_total'', inKind = Int64Counter,
        inDescription = ''Total number of GenAI requests'', inUnit = ''{request}''\<rparr>, ''requests total counter'')]"

definition token_instruments :: "(instrument \<times> string) list" where
  "token_instruments =
     [(\<lparr>inName = ''gen_ai.server.request_tokens_total'', inKind = Int64Counter,
        inDescription = ''Total input tokens across all requests'', inUnit = ''{token}''\<rparr>, ''request tokens total counter''),
      (\<lparr>inName = ''gen_ai.server.response_tokens_total'', inKind = Int64Counter,
        inDescription = ''Total output tokens across all requests'', inUnit = ''{token}''\<rparr>, ''response tokens total counter''),
      (\<lparr>inName = ''gen_ai.server.cache_hit_tokens_total'', inKind = Int64Counter,
        inDescription = ''Total tokens served from KV cache'', inUnit = ''{token}''\<rparr>, ''cache hit tokens total counter'')]"

definition model_instruments :: "(instrument \<times> string) list" where
  "model_instruments =
     [(\<lparr>inName = ''gen_ai.server.model_load.duration'', inKind = Float64Histogram ModelLoadDurationBuckets,
        inDescription = ''Time to load a model into VRAM'', inUnit = ''s''\<rparr>, ''model load duration histogram''),
      (\<lparr>inName = ''gen_ai.server.model.memory_usage'', inKind = Int64Gauge,
        inDescription = ''Current VRAM usage by model'', inUnit = ''By''\<rparr>, ''model memory usage gauge''),
      (\<lparr>inName = ''gen_ai.server.routing.decisions_total'', inKind = Int64Counter,
        inDescription = ''Total routing decisions made by the gateway'', inUnit = ''{decision}''\<rparr>, ''routing decision counter'')]"

definition createCoreMetrics :: "genai_meter \<Rightarrow> instrument_error option" where
  "createCoreMetrics meter = create_all meter core_instruments"

definition createTokenMetrics :: "genai_meter \<Rightarrow> instrument_error option" where
  "createTokenMetrics meter = create_all meter token_instruments"

definition createModelMetrics :: "genai_meter \<Rightarrow> instrument_error option" where
  "createModelMetrics meter = create_all meter model_instruments"

definition fresh_metrics :: genai_metrics where
  "fresh_metrics =
     \<lparr>tokenUsage = (\<lambda>_. 0), requestDuration = [], timeToFirstToken = [], timePerOutputToken = [],
      activeRequests = (\<lambda>_. 0), requestsTotal = (\<lambda>_. 0), requestTokensTotal = (\<lambda>_. 0),
      responseTokensTotal = (\<lambda>_. 0), cacheHitTokensTotal = (\<lambda>_. 0), modelLoadDuration = [],
      modelMemoryUsage = Map.empty, routingDecisionCount = (\<lambda>_. 0)\<rparr>"

definition createMetrics :: "genai_meter \<Rightarrow> instrument_error + genai_metrics" where
  "createMetrics meter =
     (case createCoreMetrics meter of
        Some e \<Rightarrow> Inl e
      | None \<Rightarrow> (case createTokenMetrics meter of
          Some e \<Rightarrow> Inl e
        | None \<Rightarrow> (case createModelMetrics meter of Some e \<Rightarrow> Inl e | None \<Rightarrow> Inr fresh_metrics)))"

datatype tracer_provider = GivenTracer | GlobalTracer

definition getTracerProvider :: "bool \<Rightarrow> tracer_provider" where
  "getTracerProvider given = (if given then GivenTracer else GlobalTracer)"

definition NewGenAIMetrics :: "genai_meter \<Rightarrow> bool \<Rightarrow> instrument_error + (genai_metrics \<times> tracer_provider)" where
  "NewGenAIMetrics meter given =
     (let tracer = getTracerProvider given
      in case createMetrics meter of Inl e \<Rightarrow> Inl e | Inr m \<Rightarrow> Inr (m, tracer))"

subsection \<open>One request\<close>

text \<open>A \<open>time.Duration\<close> is in nanoseconds; \<open>Seconds\<close> adds the whole seconds and the rest as floats.\<close>

definition Seconds :: "int64 \<Rightarrow> float64" where
  "Seconds d =
     (let sec = (if sint d < 0 then - (- sint d div 1000000000) else sint d div 1000000000);
          nsec = sint d - sec * 1000000000
      in f64_add (f64_of_int (word_of_int sec)) (f64_div (f64_of_int (word_of_int nsec)) (f64_const 1000000000)))"

definition since :: "gotime \<Rightarrow> gotime \<Rightarrow> int64" where
  "since now start = word_of_int (max (- (2 ^ 63)) (min (2 ^ 63 - 1) (now - start)))"

record span =
  spName :: string
  spAttrs :: "attr list"
  spEvents :: "(string \<times> attr list) list"
  spErrors :: "string list"
  spEnded :: bool

record request_recorder =
  rrParams :: request_params
  rrStart :: gotime
  rrSpan :: span
  rrFirstToken :: "gotime option"

definition StartRequest ::
  "(string set \<Rightarrow> string list) \<Rightarrow> gotime \<Rightarrow> request_params \<Rightarrow> genai_metrics \<Rightarrow> request_recorder \<times> genai_metrics" where
  "StartRequest ord now params m =
     (let attrs = buildAttributes ord params;
          m1 = m\<lparr>activeRequests := Add 1 attrs (activeRequests m), requestsTotal := Add 1 attrs (requestsTotal m)\<rparr>;
          m2 = (if i64_less 0 (InputTokens params)
                then m1\<lparr>tokenUsage := Add (InputTokens params)
                         (attrs @ [(AttrGenAITokenTypeKey, StringAttr TokenTypeInput)]) (tokenUsage m1),
                       requestTokensTotal := Add (InputTokens params) attrs (requestTokensTotal m1)\<rparr>
                else m1)
      in (\<lparr>rrParams = params, rrStart = now,
           rrSpan = \<lparr>spName = spanName params, spAttrs = attrs, spEvents = [], spErrors = [], spEnded = False\<rparr>,
           rrFirstToken = None\<rparr>, m2))"

definition RecordFirstToken ::
  "(string set \<Rightarrow> string list) \<Rightarrow> gotime \<Rightarrow> request_recorder \<times> genai_metrics \<Rightarrow> request_recorder \<times> genai_metrics" where
  "RecordFirstToken ord now w =
     (case w of (r, m) \<Rightarrow>
        let ttft = Seconds (since now (rrStart r));
            attrs = buildAttributes ord (rrParams r)
        in (r\<lparr>rrFirstToken := Some now,
             rrSpan := (rrSpan r)\<lparr>spEvents := spEvents (rrSpan r) @
               [(''first_token_received'', [(''time_to_first_token_seconds'', Float64Attr ttft)])]\<rparr>\<rparr>,
            m\<lparr>timeToFirstToken := Record ttft attrs (timeToFirstToken m)\<rparr>))"

record response_params =
  OutputTokens :: int64
  CacheHitTokens :: int64
  ResponseModel :: string
  RespError :: "string option"

text \<open>
  \<open>now\<close> is the clock at the start of \<open>End\<close>, \<open>later\<close> when the generation time is taken.
\<close>

definition End ::
  "(string set \<Rightarrow> string list) \<Rightarrow> gotime \<Rightarrow> gotime \<Rightarrow> response_params \<Rightarrow>
   request_recorder \<times> genai_metrics \<Rightarrow> request_recorder \<times> genai_metrics" where
  "End ord now later resp w =
     (case w of (r, m) \<Rightarrow>
        let duration = Seconds (since now (rrStart r));
            attrs = buildAttributes ord (rrParams r);
            m1 = m\<lparr>activeRequests := Add (- 1) attrs (activeRequests m),
                   requestDuration := Record duration attrs (requestDuration m)\<rparr>;
            m2 = (if i64_less 0 (OutputTokens resp)
                  then let m' = m1\<lparr>tokenUsage := Add (OutputTokens resp)
                                   (attrs @ [(AttrGenAITokenTypeKey, StringAttr TokenTypeOutput)]) (tokenUsage m1),
                                 responseTokensTotal := Add (OutputTokens resp) attrs (responseTokensTotal m1)\<rparr>
                       in (case rrFirstToken r of
                             None \<Rightarrow> m'
                           | Some t \<Rightarrow> m'\<lparr>timePerOutputToken := Record
                               (f64_div (Seconds (since later t)) (f64_of_int (OutputTokens resp))) attrs
                               (timePerOutputToken m')\<rparr>)
                  else m1);
            m3 = (if i64_less 0 (CacheHitTokens resp)
                  then m2\<lparr>cacheHitTokensTotal := Add (CacheHitTokens resp) attrs (cacheHitTokensTotal m2)\<rparr>
                  else m2);
            s = rrSpan r;
            s1 = s\<lparr>spAttrs := spAttrs s @
                   [(''duration_seconds'', Float64Attr duration),
                    (AttrLLMTokenCountCompletionKey, Int64Attr (OutputTokens resp)),
                    (AttrLLMTokenCountTotalKey, Int64Attr (InputTokens (rrParams r) + OutputTokens resp))] @
                   opt_attr AttrGenAIResponseModel (ResponseModel resp)\<rparr>;
            s2 = (case RespError resp of None \<Rightarrow> s1 | Some e \<Rightarrow> s1\<lparr>spErrors := spErrors s1 @ [e]\<rparr>)
        in (r\<lparr>rrSpan := s2\<lparr>spEnded := True\<rparr>\<rparr>, m3))"

subsection \<open>Routing and models\<close>

definition RecordRoutingDecision ::
  "string \<Rightarrow> string \<Rightarrow> string \<Rightarrow> string \<Rightarrow> genai_metrics \<Rightarrow> genai_metrics" where
  "RecordRoutingDecision model targetPod targetNode reason m =
     m\<lparr>routingDecisionCount := Add 1
        [(AttrGenAIRequestModel, StringAttr model), (''target.pod'', StringAttr targetPod),
         (''target.node'', StringAttr targetNode), (''routing.reason'', StringAttr reason)] (routingDecisionCount m)\<rparr>"

definition RecordModelMemory :: "string \<Rightarrow> string \<Rightarrow> int64 \<Rightarrow> genai_metrics \<Rightarrow> genai_metrics" where
  "RecordModelMemory model node memoryBytes m =
     m\<lparr>modelMemoryUsage := RecordGauge memoryBytes
        [(AttrGenAIRequestModel, StringAttr model), (''node'', StringAttr node)] (modelMemoryUsage m)\<rparr>"

definition RecordModelLoad :: "string \<Rightarrow> string \<Rightarrow> int64 \<Rightarrow> int64 \<Rightarrow> genai_metrics \<Rightarrow> genai_metrics" where
  "RecordModelLoad model node duration memoryBytes m =
     (let attrs = [(AttrGenAIRequestModel, StringAttr model), (''node'', StringAttr node)]
      in m\<lparr>modelLoadDuration := Record (Seconds duration) attrs (modelLoadDuration m),
           modelMemoryUsage := RecordGauge memoryBytes attrs (modelMemoryUsage m)\<rparr>)"

end
