(* ===== verification/GenAI_Correct.thy ===== *)
theory GenAI_Correct
  imports GenAI_Metrics
begin

section \<open>Correctness of the request telemetry\<close>

text \<open>
  The labels of a request do not depend on the iteration order of its custom attributes and can be
  read back; and under every interleaving of requests the counters are exact.
\<close>

subsection \<open>Instruments\<close>

text \<open>Creation succeeds exactly when the SDK makes all twelve instruments, which have different names.\<close>

lemma create_all_ok: "create_all meter xs = None \<longleftrightarrow> (\<forall>i \<in> fst ` set xs. meter i = None)"
  by (induction xs) (auto split: option.splits)

lemma createMetrics_ok:
  "(\<exists>m. createMetrics meter = Inr m) \<longleftrightarrow>
    (\<forall>i \<in> fst ` set (core_instruments @ token_instruments @ model_instruments). meter i = None)"
proof -
  have "(\<exists>m. createMetrics meter = Inr m) \<longleftrightarrow>
      createCoreMetrics meter = None \<and> createTokenMetrics meter = None \<and> createModelMetrics meter = None"
    by (simp add: createMetrics_def split: option.split)
  then show ?thesis
    unfolding createCoreMetrics_def createTokenMetrics_def createModelMetrics_def create_all_ok
    by (simp add: ball_Un image_Un)
qed

lemma instrument_names_distinct:
  "distinct (map (inName \<circ> fst) (core_instruments @ token_instruments @ model_instruments))"
  by (simp add: core_instruments_def token_instruments_def model_instruments_def)

text \<open>The boundaries of each histogram are finite and increase strictly, also as floats.\<close>

lemma map_const_increase:
  "sorted_wrt (\<lambda>x y. 2 * x \<le> y) xs \<Longrightarrow> \<forall>x \<in> set xs. pow2 (- 1022) \<le> x \<and> x \<le> pow2 1023 \<Longrightarrow>
   sorted_wrt f64_less (map f64_const xs)"
  by (auto simp: sorted_wrt_map intro!: f64_const_less elim!: sorted_wrt_mono_rel [rotated])

lemma buckets_increase:
  "sorted_wrt f64_less RequestDurationBuckets" "sorted_wrt f64_less TimeToFirstTokenBuckets"
  "sorted_wrt f64_less TimePerTokenBuckets" "sorted_wrt f64_less ModelLoadDurationBuckets"
  unfolding RequestDurationBuckets_def TimeToFirstTokenBuckets_def TimePerTokenBuckets_def ModelLoadDurationBuckets_def
  by (rule map_const_increase; simp add: pow2_def)+

lemma convention_values_distinct:
  "distinct (map snd openinference_keys)" "distinct (map snd operation_names)" "distinct (map snd span_kinds)"
  by (simp_all add: openinference_keys_def operation_names_def span_kinds_def)

subsection \<open>Labels\<close>

lemma attr_set_append [simp]: "attr_set (as @ bs) = attr_set as ++ attr_set bs"
  by (simp add: attr_set_def)

lemma attr_set_Nil [simp]: "attr_set [] = Map.empty"
  by (simp add: attr_set_def)

lemma attr_set_Cons [simp]: "attr_set (a # as) = [fst a \<mapsto> snd a] ++ attr_set as"
  by (cases a) (simp add: attr_set_def)

lemma attr_set_custom:
  "attr_set (map (\<lambda>k. (k, f k)) ks) = (\<lambda>k. if k \<in> set ks then Some (f k) else None)"
  by (induction ks) (auto simp: map_add_def fun_eq_iff split: option.split)

definition opt_label :: "string \<Rightarrow> string \<Rightarrow> attr_set" where
  "opt_label key v = (if v = [] then Map.empty else [key \<mapsto> StringAttr v])"

lemma attr_set_opt [simp]: "attr_set (opt_attr key v) = opt_label key v"
  by (simp add: opt_attr_def opt_label_def)

definition standard_labels :: "request_params \<Rightarrow> attr_set" where
  "standard_labels p =
     [AttrGenAIOperationName \<mapsto> StringAttr (Operation p)] ++ [AttrGenAIRequestModel \<mapsto> StringAttr (Model p)] ++
     opt_label AttrGenAIProviderName (Provider p) ++ opt_label AttrGenAISystem (System p) ++
     opt_label ''target.pod'' (TargetPod p) ++ opt_label ''target.node'' (TargetNode p) ++
     opt_label AttrOpenInferenceSpanKind (SpanKind p) ++
     (if i64_less 0 (InputTokens p) then [AttrLLMTokenCountPromptKey \<mapsto> Int64Attr (InputTokens p)] else Map.empty)"

definition labels_of :: "request_params \<Rightarrow> attr_set" where
  "labels_of p = standard_labels p ++ (\<lambda>k. map_option StringAttr (Attributes p k))"

lemma attr_set_build:
  assumes "range_order ord" and "finite (dom (Attributes p))"
  shows "attr_set (buildAttributes ord p) = labels_of p"
proof -
  have "attr_set (map (\<lambda>k. (k, StringAttr (case Attributes p k of None \<Rightarrow> [] | Some v \<Rightarrow> v))) (ord (dom (Attributes p)))) =
      (\<lambda>k. map_option StringAttr (Attributes p k))"
    unfolding attr_set_custom range_orderD(2) [OF assms] by (auto simp: fun_eq_iff split: option.split)
  then show ?thesis
    by (simp add: buildAttributes_def labels_of_def standard_labels_def if_distrib [of attr_set] cong: if_cong)
qed

text \<open>The parameters read back from a set of labels.\<close>

definition standard_keys :: "string set" where
  "standard_keys = {AttrGenAIOperationName, AttrGenAIRequestModel, AttrGenAIProviderName, AttrGenAISystem,
     ''target.pod'', ''target.node'', AttrOpenInferenceSpanKind, AttrLLMTokenCountPromptKey}"

definition string_label :: "attr_set \<Rightarrow> string \<Rightarrow> string" where
  "string_label ls k = (case ls k of Some (StringAttr v) \<Rightarrow> v | _ \<Rightarrow> [])"

definition params_of_labels :: "attr_set \<Rightarrow> request_params" where
  "params_of_labels ls =
     \<lparr>Operation = string_label ls AttrGenAIOperationName, Model = string_label ls AttrGenAIRequestModel,
      Provider = string_label ls AttrGenAIProviderName, System = string_label ls AttrGenAISystem,
      TargetPod = string_label ls ''target.pod'', TargetNode = string_label ls ''target.node'',
      SpanKind = string_label ls AttrOpenInferenceSpanKind,
      Attributes = (\<lambda>k. if k \<in> standard_keys then None
        else case ls k of Some (StringAttr v) \<Rightarrow> Some v | _ \<Rightarrow> None),
      InputTokens = (case ls AttrLLMTokenCountPromptKey of Some (Int64Attr n) \<Rightarrow> n | _ \<Rightarrow> 0)\<rparr>"

lemmas attr_keys = AttrGenAIOperationName_def AttrGenAIRequestModel_def AttrGenAIProviderName_def
  AttrGenAISystem_def AttrOpenInferenceSpanKind_def AttrLLMTokenCountPromptKey_def

lemma dom_standard_labels: "dom (standard_labels p) \<subseteq> standard_keys"
  by (auto simp: standard_labels_def standard_keys_def opt_label_def split: if_splits)

lemma labels_of_standard:
  "dom (Attributes p) \<inter> standard_keys = {} \<Longrightarrow> k \<in> standard_keys \<Longrightarrow> labels_of p k = standard_labels p k"
  by (auto simp: labels_of_def map_add_def split: option.split)

lemma labels_of_custom: "k \<notin> standard_keys \<Longrightarrow> labels_of p k = map_option StringAttr (Attributes p k)"
  using dom_standard_labels [of p] by (auto simp: labels_of_def map_add_def split: option.split)

lemma standard_label_values:
  "standard_labels p AttrGenAIOperationName = Some (StringAttr (Operation p))"
  "standard_labels p AttrGenAIRequestModel = Some (StringAttr (Model p))"
  "standard_labels p AttrGenAIProviderName = (if Provider p = [] then None else Some (StringAttr (Provider p)))"
  "standard_labels p AttrGenAISystem = (if System p = [] then None else Some (StringAttr (System p)))"
  "standard_labels p ''target.pod'' = (if TargetPod p = [] then None else Some (StringAttr (TargetPod p)))"
  "standard_labels p ''target.node'' = (if TargetNode p = [] then None else Some (StringAttr (TargetNode p)))"
  "standard_labels p AttrOpenInferenceSpanKind = (if SpanKind p = [] then None else Some (StringAttr (SpanKind p)))"
  "standard_labels p AttrLLMTokenCountPromptKey =
     (if i64_less 0 (InputTokens p) then Some (Int64Attr (InputTokens p)) else None)"
  by (simp_all add: standard_labels_def opt_label_def attr_keys map_add_def)

text \<open>C38: the labels of a request can be read back. If no custom attribute uses a key of the conventions, the
  attributes of the metrics determine every parameter of the request, a token count that is not
  positive being read as 0, in whatever order the custom attributes were visited. Two requests
  therefore share a series exactly when they agree on all parameters, the number of input tokens
  included.\<close>

theorem labels_roundtrip:
  assumes "range_order ord" and "finite (dom (Attributes p))" and "dom (Attributes p) \<inter> standard_keys = {}"
  shows "params_of_labels (attr_set (buildAttributes ord p)) =
    p\<lparr>InputTokens := (if i64_less 0 (InputTokens p) then InputTokens p else 0)\<rparr>"
proof -
  have keys: "AttrGenAIOperationName \<in> standard_keys" "AttrGenAIRequestModel \<in> standard_keys"
    "AttrGenAIProviderName \<in> standard_keys" "AttrGenAISystem \<in> standard_keys" "''target.pod'' \<in> standard_keys"
    "''target.node'' \<in> standard_keys" "AttrOpenInferenceSpanKind \<in> standard_keys"
    "AttrLLMTokenCountPromptKey \<in> standard_keys"
    by (simp_all add: standard_keys_def)
  note std = keys [THEN labels_of_standard [OF assms(3)]]
  have "(if k \<in> standard_keys then None
      else case labels_of p k of Some (StringAttr v) \<Rightarrow> Some v | _ \<Rightarrow> None) = Attributes p k" for k
    using assms(3) by (auto simp: labels_of_custom split: option.split)
  note custom = this
  show ?thesis
    unfolding attr_set_build [OF assms(1,2)]
    by (rule request_params.equality)
      (simp_all add: params_of_labels_def string_label_def std standard_label_values custom)
qed

definition demo_params :: request_params where
  "demo_params =
     \<lparr>Operation = ''chat'', Model = ''llama'', Provider = ''rocm-llamacpp'', System = [], TargetPod = ''llama-0'',
      TargetNode = [], SpanKind = ''LLM'', Attributes = [''tenant'' \<mapsto> ''a''], InputTokens = 12\<rparr>"

theorem labels_roundtrip_witness:
  "params_of_labels (attr_set (buildAttributes sorted_list_of_set demo_params)) = demo_params"
proof -
  have "finite (dom (Attributes demo_params))" "dom (Attributes demo_params) \<inter> standard_keys = {}"
    "0 < sint (InputTokens demo_params)"
    by (simp_all add: demo_params_def standard_keys_def attr_keys)
  with labels_roundtrip [OF range_order_sorted, of demo_params] show ?thesis by simp
qed

subsection \<open>Requests at the same time\<close>

text \<open>
  A request goes from idle through \<open>StartRequest\<close> to active, may record a first token, any number
  of times, and ends once. \<open>job g\<close> are the parameters of request \<open>g\<close>, which its caller does not
  change while it runs; each call may visit the custom attributes in another order.
\<close>

datatype req_phase = Idle | Active request_recorder | Ended request_recorder

record telemetry =
  tmMetrics :: genai_metrics
  tmReq :: "nat \<Rightarrow> req_phase"

inductive tstep :: "(nat \<Rightarrow> request_params) \<Rightarrow> telemetry \<Rightarrow> telemetry \<Rightarrow> bool" for job where
  t_start: "tmReq s g = Idle \<Longrightarrow> range_order ord \<Longrightarrow> StartRequest ord now (job g) (tmMetrics s) = (r, m) \<Longrightarrow>
    tstep job s \<lparr>tmMetrics = m, tmReq = (tmReq s)(g := Active r)\<rparr>"
| t_first: "tmReq s g = Active r \<Longrightarrow> range_order ord \<Longrightarrow> RecordFirstToken ord now (r, tmMetrics s) = (r', m) \<Longrightarrow>
    tstep job s \<lparr>tmMetrics = m, tmReq = (tmReq s)(g := Active r')\<rparr>"
| t_end: "tmReq s g = Active r \<Longrightarrow> range_order ord \<Longrightarrow> End ord now later resp (r, tmMetrics s) = (r', m) \<Longrightarrow>
    tstep job s \<lparr>tmMetrics = m, tmReq = (tmReq s)(g := Ended r')\<rparr>"
| t_route: "tstep job s (s\<lparr>tmMetrics := RecordRoutingDecision model pod node reason (tmMetrics s)\<rparr>)"
| t_load: "tstep job s (s\<lparr>tmMetrics := RecordModelLoad model node duration bytes (tmMetrics s)\<rparr>)"
| t_memory: "tstep job s (s\<lparr>tmMetrics := RecordModelMemory model node bytes (tmMetrics s)\<rparr>)"

inductive treach :: "(nat \<Rightarrow> request_params) \<Rightarrow> telemetry \<Rightarrow> bool" for job where
  t_init: "treach job \<lparr>tmMetrics = fresh_metrics, tmReq = (\<lambda>_. Idle)\<rparr>"
| t_next: "treach job s \<Longrightarrow> tstep job s s' \<Longrightarrow> treach job s'"

inductive_simps tstep_from: "tstep job s s'"

definition started :: "telemetry \<Rightarrow> nat set" where
  "started s = {g. tmReq s g \<noteq> Idle}"

definition in_flight :: "telemetry \<Rightarrow> nat set" where
  "in_flight s = {g. \<exists>r. tmReq s g = Active r}"

definition finished :: "telemetry \<Rightarrow> nat set" where
  "finished s = {g. \<exists>r. tmReq s g = Ended r}"

definition input_tokens :: "request_params \<Rightarrow> int64" where
  "input_tokens p = (if i64_less 0 (InputTokens p) then InputTokens p else 0)"

definition tinv :: "(nat \<Rightarrow> request_params) \<Rightarrow> telemetry \<Rightarrow> bool" where
  "tinv job s \<longleftrightarrow>
     finite (started s) \<and> (\<forall>g r. tmReq s g = Active r \<longrightarrow> rrParams r = job g) \<and>
     (\<forall>a. activeRequests (tmMetrics s) a = (\<Sum>g \<in> in_flight s. of_bool (labels_of (job g) = a))) \<and>
     (\<forall>a. requestsTotal (tmMetrics s) a = (\<Sum>g \<in> started s. of_bool (labels_of (job g) = a))) \<and>
     (\<forall>a. requestTokensTotal (tmMetrics s) a =
        (\<Sum>g \<in> started s. if labels_of (job g) = a then input_tokens (job g) else 0)) \<and>
     length (requestDuration (tmMetrics s)) = card (finished s)"

lemma started_split: "started s = in_flight s \<union> finished s" "in_flight s \<inter> finished s = {}"
  by (auto simp: started_def in_flight_def finished_def) (metis req_phase.exhaust)

lemma tinv_finite:
  assumes "tinv job s"
  shows "finite (in_flight s)" "finite (finished s)" "finite (started s)"
  using assms started_split(1) [of s] by (auto simp: tinv_def)

lemma StartRequest_effect:
  assumes "range_order ord" and "finite (dom (Attributes p))" and "StartRequest ord now p m = (r, m')"
  shows "rrParams r = p" "requestDuration m' = requestDuration m"
    "activeRequests m' a = activeRequests m a + of_bool (labels_of p = a)"
    "requestsTotal m' a = requestsTotal m a + of_bool (labels_of p = a)"
    "requestTokensTotal m' a = requestTokensTotal m a + (if labels_of p = a then input_tokens p else 0)"
  using assms(3)
  by (auto simp: StartRequest_def Let_def Add_def attr_set_build [OF assms(1,2)] input_tokens_def split: if_splits)

lemma RecordFirstToken_effect:
  assumes "RecordFirstToken ord now (r, m) = (r', m')"
  shows "rrParams r' = rrParams r" "requestDuration m' = requestDuration m"
    "activeRequests m' = activeRequests m" "requestsTotal m' = requestsTotal m"
    "requestTokensTotal m' = requestTokensTotal m"
  using assms by (auto simp: RecordFirstToken_def Let_def)

lemma End_effect:
  assumes "range_order ord" and "finite (dom (Attributes (rrParams r)))" and "End ord now later resp (r, m) = (r', m')"
  shows "length (requestDuration m') = length (requestDuration m) + 1"
    "activeRequests m' a = activeRequests m a - of_bool (labels_of (rrParams r) = a)"
    "requestsTotal m' = requestsTotal m" "requestTokensTotal m' = requestTokensTotal m"
  using assms(3)
  by (auto simp: End_def Let_def Add_def Record_def attr_set_build [OF assms(1,2)]
      split: if_splits option.splits)

lemma phase_sets_start:
  assumes "tmReq s g = Idle" and "tmReq s' = (tmReq s)(g := Active r)"
  shows "started s' = insert g (started s)" "in_flight s' = insert g (in_flight s)" "finished s' = finished s"
    "g \<notin> started s" "g \<notin> in_flight s"
  using assms by (auto simp: started_def in_flight_def finished_def)

lemma phase_sets_first:
  assumes "tmReq s g = Active r" and "tmReq s' = (tmReq s)(g := Active r')"
  shows "started s' = started s" "in_flight s' = in_flight s" "finished s' = finished s"
  using assms by (auto simp: started_def in_flight_def finished_def)

lemma phase_sets_end:
  assumes "tmReq s g = Active r" and "tmReq s' = (tmReq s)(g := Ended r')"
  shows "started s' = started s" "in_flight s' = in_flight s - {g}" "finished s' = insert g (finished s)"
    "g \<in> in_flight s" "g \<notin> finished s"
  using assms by (auto simp: started_def in_flight_def finished_def)

lemma tinv_start:
  assumes inv: "tinv job s" and idle: "tmReq s g = Idle" and ord: "range_order ord"
    and fin: "finite (dom (Attributes (job g)))"
    and start: "StartRequest ord now (job g) (tmMetrics s) = (r, m)"
  shows "tinv job \<lparr>tmMetrics = m, tmReq = (tmReq s)(g := Active r)\<rparr>" (is "tinv job ?s")
proof -
  note sets = phase_sets_start [OF idle, of ?s r, simplified]
  note eff = StartRequest_effect [OF ord fin start]
  show ?thesis
    using inv tinv_finite [OF inv] sets eff unfolding tinv_def
    by (simp add: add.commute)
qed

lemma tinv_first:
  assumes inv: "tinv job s" and act: "tmReq s g = Active r"
    and first: "RecordFirstToken ord now (r, tmMetrics s) = (r', m)"
  shows "tinv job \<lparr>tmMetrics = m, tmReq = (tmReq s)(g := Active r')\<rparr>" (is "tinv job ?s")
proof -
  note sets = phase_sets_first [OF act, of ?s r', simplified]
  show ?thesis
    using inv sets RecordFirstToken_effect [OF first] act unfolding tinv_def by simp
qed

lemma tinv_end:
  assumes inv: "tinv job s" and act: "tmReq s g = Active r" and ord: "range_order ord"
    and fin: "finite (dom (Attributes (job g)))"
    and e: "End ord now later resp (r, tmMetrics s) = (r', m)"
  shows "tinv job \<lparr>tmMetrics = m, tmReq = (tmReq s)(g := Ended r')\<rparr>" (is "tinv job ?s")
proof -
  note sets = phase_sets_end [OF act, of ?s r', simplified]
  have params: "rrParams r = job g" using inv act by (simp add: tinv_def)
  note eff = End_effect [OF ord _ e, unfolded params, OF fin]
  have "(\<Sum>h \<in> in_flight s. of_bool (labels_of (job h) = a)) =
      of_bool (labels_of (job g) = a) + (\<Sum>h \<in> in_flight s - {g}. of_bool (labels_of (job h) = a) :: int64)" for a
    by (rule sum.remove) (simp_all add: tinv_finite [OF inv] sets)
  then show ?thesis
    using inv tinv_finite [OF inv] sets eff unfolding tinv_def by simp
qed

lemma tinv_other:
  assumes "tinv job s" and "tmReq s' = tmReq s"
    and "activeRequests (tmMetrics s') = activeRequests (tmMetrics s)"
    and "requestsTotal (tmMetrics s') = requestsTotal (tmMetrics s)"
    and "requestTokensTotal (tmMetrics s') = requestTokensTotal (tmMetrics s)"
    and "requestDuration (tmMetrics s') = requestDuration (tmMetrics s)"
  shows "tinv job s'"
proof -
  have "started s' = started s" "in_flight s' = in_flight s" "finished s' = finished s"
    by (simp_all add: started_def in_flight_def finished_def assms(2))
  then show ?thesis using assms unfolding tinv_def by simp
qed

lemma tinv_step:
  assumes "tstep job s s'" and "tinv job s" and "\<And>g. finite (dom (Attributes (job g)))"
  shows "tinv job s'"
  using assms(1)
proof (cases rule: tstep.cases)
  case (t_start g ord now r m)
  then show ?thesis using tinv_start [OF assms(2) _ _ assms(3)] by simp
next
  case (t_first g r ord now r' m)
  then show ?thesis using tinv_first [OF assms(2)] by simp
next
  case (t_end g r ord now later resp r' m)
  then show ?thesis using tinv_end [OF assms(2) _ _ assms(3)] by simp
qed (rule tinv_other [OF assms(2)], simp_all add: RecordRoutingDecision_def RecordModelLoad_def
    RecordModelMemory_def Let_def)+

lemma tinv_reach:
  assumes "treach job s" and "\<And>g. finite (dom (Attributes (job g)))"
  shows "tinv job s"
  using assms(1)
proof (induction rule: treach.induct)
  case t_init
  then show ?case by (simp add: tinv_def fresh_metrics_def started_def in_flight_def finished_def)
qed (rule tinv_step [OF _ _ assms(2)])

text \<open>C22: the counters are exact under every interleaving. For each set of labels, the active-requests
  instrument counts the requests with these labels that have started and not ended, the request
  counter those that have started, the token counter sums their input tokens, all modulo 2^64,
  and every ended request has one duration.\<close>

theorem telemetry_exact:
  assumes "treach job s" and "\<forall>g. finite (dom (Attributes (job g)))"
  shows "activeRequests (tmMetrics s) a = of_nat (card {g \<in> in_flight s. labels_of (job g) = a}) \<and>
    requestsTotal (tmMetrics s) a = of_nat (card {g \<in> started s. labels_of (job g) = a}) \<and>
    requestTokensTotal (tmMetrics s) a =
      (\<Sum>g \<in> {g \<in> started s. labels_of (job g) = a}. input_tokens (job g)) \<and>
    length (requestDuration (tmMetrics s)) = card (finished s)"
proof -
  have inv: "tinv job s" using tinv_reach [OF assms(1)] assms(2) by blast
  note fin = tinv_finite [OF inv]
  show ?thesis
    using inv unfolding tinv_def
    by (simp add: Collect_conj_eq fin sum.inter_restrict)
qed

theorem telemetry_exact_witness:
  "\<exists>s. treach (\<lambda>_. demo_params) s \<and> activeRequests (tmMetrics s) (labels_of demo_params) = 2"
proof -
  let ?start = "StartRequest sorted_list_of_set 0 demo_params"
  obtain r0 m0 where m0: "?start fresh_metrics = (r0, m0)" by fastforce
  obtain r1 m1 where m1: "?start m0 = (r1, m1)" by fastforce
  let ?s = "\<lparr>tmMetrics = m1, tmReq = ((\<lambda>_. Idle)(0 := Active r0))(1 := Active r1)\<rparr>"
  have "tstep (\<lambda>_. demo_params) \<lparr>tmMetrics = fresh_metrics, tmReq = (\<lambda>_. Idle)\<rparr>
      \<lparr>tmMetrics = m0, tmReq = (\<lambda>_. Idle)(0 := Active r0)\<rparr>"
    using t_start [of "\<lparr>tmMetrics = fresh_metrics, tmReq = (\<lambda>_. Idle)\<rparr>" 0 sorted_list_of_set 0 "\<lambda>_. demo_params" r0 m0]
    by (simp add: range_order_sorted m0)
  note 1 = t_next [OF t_init this]
  have "tstep (\<lambda>_. demo_params) \<lparr>tmMetrics = m0, tmReq = (\<lambda>_. Idle)(0 := Active r0)\<rparr> ?s"
    using t_start [of "\<lparr>tmMetrics = m0, tmReq = (\<lambda>_. Idle)(0 := Active r0)\<rparr>" 1 sorted_list_of_set 0 "\<lambda>_. demo_params" r1 m1]
    by (simp add: range_order_sorted m1)
  note reach = t_next [OF 1 this]
  have "\<forall>g::nat. finite (dom (Attributes demo_params))" by (simp add: demo_params_def)
  from telemetry_exact [OF reach this, of "labels_of demo_params"]
  have "activeRequests (tmMetrics ?s) (labels_of demo_params) =
      of_nat (card {g \<in> in_flight ?s. labels_of demo_params = labels_of demo_params})" by blast
  moreover have "{g \<in> in_flight ?s. labels_of demo_params = labels_of demo_params} = {0, 1}"
    by (auto simp: in_flight_def)
  ultimately have "activeRequests (tmMetrics ?s) (labels_of demo_params) = 2" by simp
  with reach show ?thesis by blast
qed

end
