(* ===== verification/Telemetry_Setup.thy ===== *)
theory Telemetry_Setup
  imports Version_Info
begin

section \<open>Setting telemetry up and shutting it down\<close>

text \<open>
  \<open>internal/telemetry/telemetry.go\<close>. The exporters and providers belong to the OpenTelemetry SDK:
  whether each of them can be created is an argument. What is modelled is which of them are
  created, registered as global providers, and put on the list that \<open>Shutdown\<close> works through.
\<close>

definition DefaultMetricInterval :: int where "DefaultMetricInterval = 10000000000"

record telemetry_config =
  OTLPEndpoint :: string
  OTLPTracesEnabled :: bool
  OTLPMetricsEnabled :: bool
  PrometheusEnabled :: bool
  RuntimeInstrumentationEnabled :: bool
  HostInstrumentationEnabled :: bool
  MetricInterval :: int

definition telemetry_DefaultConfig :: telemetry_config where
  "telemetry_DefaultConfig =
     \<lparr>OTLPEndpoint = [], OTLPTracesEnabled = False, OTLPMetricsEnabled = False, PrometheusEnabled = True,
      RuntimeInstrumentationEnabled = True, HostInstrumentationEnabled = True,
      MetricInterval = DefaultMetricInterval\<rparr>"

datatype otel_provider = TraceProvider | MeterProvider "reader list"
  and reader = PrometheusReader | PeriodicReader int

datatype telemetry_error =
  CreateResource string
| TraceExporter string
| PrometheusExporter string
| OTLPMetricsExporter string
| SetupTrace telemetry_error
| SetupMeter telemetry_error

text \<open>The error, if any, of each call into the SDK.\<close>

record sdk =
  sdkResource :: "string option"
  sdkTraceExporter :: "string option"
  sdkPrometheus :: "string option"
  sdkOTLPMetrics :: "string option"
  sdkRuntime :: "string option"
  sdkHost :: "string option"

record provider =
  TracerProvider :: "otel_provider option"
  MeterProviderField :: "otel_provider option"
  shutdownFuncs :: "otel_provider list"

record otel_globals =
  glTracer :: "otel_provider option"
  glPropagator :: bool
  glMeter :: "otel_provider option"
  glRuntime :: bool
  glHost :: bool

definition setupTraceProvider :: "sdk \<Rightarrow> telemetry_error + otel_provider" where
  "setupTraceProvider env =
     (case sdkTraceExporter env of Some e \<Rightarrow> Inl (TraceExporter e) | None \<Rightarrow> Inr TraceProvider)"

definition setupMeterProvider :: "sdk \<Rightarrow> telemetry_config \<Rightarrow> telemetry_error + otel_provider" where
  "setupMeterProvider env cfg =
     (case (if PrometheusEnabled cfg
            then (case sdkPrometheus env of Some e \<Rightarrow> Inl (PrometheusExporter e) | None \<Rightarrow> Inr [PrometheusReader])
            else Inr []) of
        Inl e \<Rightarrow> Inl e
      | Inr opts \<Rightarrow>
          if OTLPMetricsEnabled cfg \<and> OTLPEndpoint cfg \<noteq> []
          then (case sdkOTLPMetrics env of
                  Some e \<Rightarrow> Inl (OTLPMetricsExporter e)
                | None \<Rightarrow> Inr (MeterProvider (opts @ [PeriodicReader (MetricInterval cfg)])))
          else Inr (MeterProvider opts))"

text \<open>
  \<open>Initialize\<close> returns an error or the provider, the global state it leaves, and the
  providers that were created and are running.
\<close>

definition Initialize ::
  "sdk \<Rightarrow> telemetry_config \<Rightarrow> otel_globals \<Rightarrow>
   (telemetry_error + provider) \<times> otel_globals \<times> otel_provider list" where
  "Initialize env cfg gl =
     (case sdkResource env of
        Some e \<Rightarrow> (Inl (CreateResource e), gl, [])
      | None \<Rightarrow>
          (case (if OTLPTracesEnabled cfg \<and> OTLPEndpoint cfg \<noteq> []
                 then map_sum id Some (setupTraceProvider env) else Inr None) of
             Inl e \<Rightarrow> (Inl (SetupTrace e), gl, [])
           | Inr tp \<Rightarrow>
               (let created = (case tp of None \<Rightarrow> [] | Some t \<Rightarrow> [t]);
                    gl1 = (case tp of None \<Rightarrow> gl | Some t \<Rightarrow> gl\<lparr>glTracer := Some t\<rparr>)\<lparr>glPropagator := True\<rparr>
                in case setupMeterProvider env cfg of
                     Inl e \<Rightarrow> (Inl (SetupMeter e), gl1, created)
                   | Inr mp \<Rightarrow>
                       (Inr \<lparr>TracerProvider = tp, MeterProviderField = Some mp, shutdownFuncs = created @ [mp]\<rparr>,
                        gl1\<lparr>glMeter := Some mp,
                            glRuntime := glRuntime gl1 \<or> RuntimeInstrumentationEnabled cfg \<and> sdkRuntime env = None,
                            glHost := glHost gl1 \<or> HostInstrumentationEnabled cfg \<and> sdkHost env = None\<rparr>,
                        created @ [mp]))))"

text \<open>Every function is called, an error does not stop the loop, and the last error is returned.\<close>

fun shutdown_loop ::
  "(otel_provider \<Rightarrow> string option) \<Rightarrow> otel_provider list \<Rightarrow> string option \<Rightarrow> string option \<times> otel_provider list" where
  "shutdown_loop stop [] lastErr = (lastErr, [])"
| "shutdown_loop stop (f # fs) lastErr =
     (case shutdown_loop stop fs (case stop f of None \<Rightarrow> lastErr | Some e \<Rightarrow> Some e) of
        (err, called) \<Rightarrow> (err, f # called))"

definition Shutdown :: "(otel_provider \<Rightarrow> string option) \<Rightarrow> provider \<Rightarrow> string option \<times> otel_provider list" where
  "Shutdown stop p = shutdown_loop stop (shutdownFuncs p) None"

subsection \<open>What is running and what is shut down\<close>

lemma shutdown_loop_called: "snd (shutdown_loop stop fs e) = fs"
  by (induction fs arbitrary: e) (simp_all add: case_prod_unfold)

lemma shutdown_loop_error:
  "fst (shutdown_loop stop fs e) = None \<longleftrightarrow> e = None \<and> (\<forall>f \<in> set fs. stop f = None)"
  by (induction fs arbitrary: e) (auto simp: case_prod_unfold split: option.split)

text \<open>C39: a telemetry setup that succeeds can be shut down completely: \<open>Shutdown\<close> calls every provider that was
  created, once each, the tracer first, whatever errors they return, and reports an error exactly
  when one of them does. A setup that fails returns nothing to shut down; what it leaves running is
  exactly the trace provider, when tracing was set up before the meter failed, and that provider
  stays the global one.\<close>

theorem telemetry_shutdown_complete:
  assumes "Initialize env cfg gl = (res, gl', running)"
  shows "case res of
      Inr p \<Rightarrow> snd (Shutdown stop p) = running \<and> distinct running \<and>
        (fst (Shutdown stop p) = None \<longleftrightarrow> (\<forall>f \<in> set running. stop f = None)) \<and>
        (\<exists>mp. glMeter gl' = Some mp \<and> mp \<in> set running)
    | Inl e \<Rightarrow>
        running = (if (\<exists>e'. e = SetupMeter e') \<and> OTLPTracesEnabled cfg \<and> OTLPEndpoint cfg \<noteq> [] then [TraceProvider] else []) \<and>
        glMeter gl' = glMeter gl \<and> (running \<noteq> [] \<longrightarrow> glTracer gl' = Some TraceProvider)"
proof -
  have meter: "\<exists>rs. mp = MeterProvider rs" if "setupMeterProvider env cfg = Inr mp" for mp
    using that by (auto simp: setupMeterProvider_def split: sum.splits if_splits option.splits)
  consider (resource) e where "sdkResource env = Some e"
    | (no_trace) "sdkResource env = None" "\<not> (OTLPTracesEnabled cfg \<and> OTLPEndpoint cfg \<noteq> [])"
    | (bad_trace) e where "sdkResource env = None" "OTLPTracesEnabled cfg \<and> OTLPEndpoint cfg \<noteq> []"
        "sdkTraceExporter env = Some e"
    | (traced) "sdkResource env = None" "OTLPTracesEnabled cfg \<and> OTLPEndpoint cfg \<noteq> []" "sdkTraceExporter env = None"
    by (cases "sdkResource env"; cases "sdkTraceExporter env") auto
  then show ?thesis
    by cases (use assms in \<open>auto simp: Initialize_def Let_def Shutdown_def shutdown_loop_called shutdown_loop_error
        setupTraceProvider_def dest!: meter split: sum.splits if_splits\<close>)
qed

definition demo_otel :: otel_globals where
  "demo_otel = \<lparr>glTracer = None, glPropagator = False, glMeter = None, glRuntime = False, glHost = False\<rparr>"

definition demo_sdk :: "string option \<Rightarrow> sdk" where
  "demo_sdk promErr = \<lparr>sdkResource = None, sdkTraceExporter = None, sdkPrometheus = promErr, sdkOTLPMetrics = None,
     sdkRuntime = None, sdkHost = None\<rparr>"

theorem telemetry_shutdown_complete_witness:
  "\<exists>e. fst (Initialize (demo_sdk (Some ''duplicate collector''))
      (telemetry_DefaultConfig\<lparr>OTLPEndpoint := ''localhost:4317'', OTLPTracesEnabled := True\<rparr>) demo_otel) = Inl e \<and>
    snd (snd (Initialize (demo_sdk (Some ''duplicate collector''))
      (telemetry_DefaultConfig\<lparr>OTLPEndpoint := ''localhost:4317'', OTLPTracesEnabled := True\<rparr>) demo_otel)) = [TraceProvider]"
proof -
  let ?cfg = "telemetry_DefaultConfig\<lparr>OTLPEndpoint := ''localhost:4317'', OTLPTracesEnabled := True\<rparr>"
  obtain gl' running where i: "Initialize (demo_sdk (Some ''duplicate collector'')) ?cfg demo_otel =
      (Inl (SetupMeter (PrometheusExporter ''duplicate collector'')), gl', running)"
    by (simp add: Initialize_def demo_sdk_def telemetry_DefaultConfig_def setupTraceProvider_def
        setupMeterProvider_def Let_def)
  from telemetry_shutdown_complete [OF i] i show ?thesis by simp
qed

end
