(* ===== verification/Spec2Isabelle.thy ===== *)
theory Spec2Isabelle
  imports System_Refinement Replicas Dedup_Converges Epp_Requests Router_Races Pool_Machine GenAI_Correct Telemetry_Setup
begin

text \<open>
  The external endpoint picker for llama.cpp model servers behind an Envoy AI gateway: a verification
  development of the Go program under \<open>src/cmd\<close> and \<open>src/internal\<close>.

  \<^bold>\<open>The program.\<close> A gateway asks the endpoint picker for a pod for each request. The scheduling
  framework calls the plugins of this program: the loaded-model filter keeps the pods that have the
  requested model in memory, the VRAM scorer prefers nodes with free GPU memory, and the model loader
  makes the chosen pod load the model before the request is sent. Two trackers run beside them. The
  model tracker polls the servers, and unloads a model that two pods hold from the one with less load;
  the VRAM tracker scrapes GPU metrics from the nodes. \<open>main\<close> builds the trackers and the cache of
  load signals, and hands them to the plugins. A second way to route, with a router and leases for each
  pool of a controller, and the telemetry package are in the repository but not built by \<open>main\<close>.

  \<^bold>\<open>Who shares what.\<close> The model tracker is shared by the filter (\<open>IsLoaded\<close>), the loader
  (\<open>MarkLoaded\<close>, \<open>MarkUnloaded\<close>) and its own poller. The filter writes the load signals that the
  tracker reads when it chooses which copy of a model to give up. The tracker tells its observer of
  each unload; the observer is \<open>InvalidateLoadedModel\<close> of the loader.

  \<^bold>\<open>Theories, in the order of the code.\<close>
  \<^item> \<open>Prelude\<close>: Go's integers as 64-bit words, keys and URLs, the order of \<open>range\<close> loops over maps
    (\<open>range_order\<close>: an argument that lists each key once), loops that end with a context (\<open>run_loop\<close>).
    \<open>Go_Float\<close>: \<open>float64\<close> with round-to-nearest, ties to even, infinities and NaN, with the lemmas
    on monotonicity of rounding that the scorer needs. \<open>K8s\<close>: pods, nodes, list options and HTTP.
    \<open>Scheduling\<close>: the framework's types that the plugins read.
  \<^item> \<open>Pod_State\<close>: \<open>internal/podstate/cache.go\<close>. Locale \<open>pressure_store\<close>: what the tracker needs
    of the cache; interpreted on \<open>cache_Update\<close> and \<open>cache_Pressure\<close>.
  \<^item> \<open>Warm_Models\<close>: the interface of the tracker to filter and loader, as the locale \<open>warm_models\<close>.
    \<open>Model_Tracker\<close>, \<open>Tracker_Poll\<close>, \<open>Tracker_Dedup\<close>: \<open>internal/modeltracker/tracker.go\<close>.
    The sets of models are behind references, because a poll keeps the previous set object of a silent
    pod. \<open>Tracker_Correct\<close>: the refinement to a map from pods to models, polls, and the pass over
    duplicates (last copy, grace, determinism, loser, failures). \<open>Tracker_Machine\<close>: the same code one
    critical section or server exchange at a time, with the loader's marks in between; what requests to
    unload rest on, which marks survive a poll, and that polls end. \<open>Poll_Refinement\<close>: the sequential
    \<open>pollOnce\<close> is a run of that machine. \<open>Replicas\<close>: the pollers of several replicas over shared servers:
    one alone never unloads the last copy of a model, two can. \<open>Dedup_Converges\<close>: rounds of polls over
    servers that answer and obey leave one copy of each model, in a number of rounds that is bounded.
  \<^item> \<open>Loaded_Filter\<close>: \<open>internal/plugins/filter/loaded_model.go\<close>; what it returns and what it writes.
  \<^item> \<open>Model_Loader\<close>: \<open>internal/plugins/modelloader/loader.go\<close>. \<open>Loader_Correct\<close>: one request on every
    path. \<open>Loader_Machine\<close>: any number of requests at once: single flight, wake-ups, final results, and the
    mark that a cancelled waiter takes back while the load goes on.
    \<open>Loader_Refinement\<close>: the sequential \<open>PreRequest\<close> is a run of that machine.
  \<^item> \<open>System_Machine\<close>: the machines of loader and poller over one tracker, with the notice of an unload as an
    action of its own: they compose, what the notice achieves, the cache entry that comes after it, and that
    a request for a cached pair never asks the server.
    \<open>System_Refinement\<close>: the process of \<open>Epp_System\<close>, one event at a time, is a part of this system.
  \<^item> \<open>Vram_Types\<close>, \<open>Vram_Scraper\<close>, \<open>Vram_Discovery\<close>, \<open>Vram_Tracker\<close>: \<open>internal/vram\<close>, with the two
    Go interfaces as the locales \<open>metrics_scraper\<close> and \<open>node_discovery\<close>, each interpreted on both
    implementations. \<open>Vram_Scorer\<close>: \<open>internal/plugins/scorer/vram.go\<close>.
  \<^item> \<open>Lease_Lock\<close>: the lock that the leases are to be, a locale; it excludes as long as nobody attempts it under
    a name that is inside. \<open>Router\<close>: \<open>internal/router/router.go\<close>. \<open>Router_Correct\<close>: leases between
    replicas, what a shared name breaks, discovery, one request on every path with its lease.
    \<open>Router_Machine\<close>: concurrent requests of one replica and the channel they wait on.
    \<open>Router_Refinement\<close>: the sequential \<open>GetModelEndpoint\<close> is a run of that machine.
    \<open>Router_Races\<close>: a model that becomes warm between the two checks of a request is loaded again;
    discoveries between a load and its waiter; models whose name cannot name a lease.
  \<^item> \<open>Pool_Manager\<close>: \<open>internal/pool/manager.go\<close> and \<open>internal/controller\<close>. \<open>Pool_Correct\<close>: locale
    \<open>registry\<close>, the invariant of the registry and the convergence of the controller. \<open>Pool_Machine\<close>:
    the manager with the discoveries of its routers and the requests, in any order: requests stay in their pool
    (on pods that were listed for it), and a discovery for an older selector may overwrite that of a newer one.
  \<^item> \<open>Version_Info\<close>: \<open>internal/version\<close>. \<open>GenAI_Metrics\<close>, \<open>GenAI_Correct\<close>, \<open>Telemetry_Setup\<close>:
    \<open>internal/telemetry\<close>.
  \<^item> \<open>Epp_Main\<close>: \<open>cmd/epp/main.go\<close> and \<open>internal/plugins/register.go\<close>. \<open>Epp_System\<close>: the process as
    \<open>main\<close> wires it, a transition system of scheduling decisions, requests and polls over the one tracker,
    loader and cache; the properties that span components. \<open>Epp_Types\<close>: what each reachable state
    looks like. \<open>Epp_Requests\<close>: one request from the filter through the framework's pick to the loader.

  \<^bold>\<open>How it is modelled.\<close> A struct is a record with the fields of the source; a handler is a function
  from state to state, or to \<open>None\<close> where it may wait forever; an error is a value of a sum type with
  a constructor for each error of the source. Calls out of the program are arguments: a \<open>pod lister\<close> and a lease
  API stand for the Kubernetes client, a \<open>transport\<close> for HTTP, a \<open>decode\<close> function for JSON, a record of
  outcomes for the OpenTelemetry SDK, a \<open>viper_lib\<close> for the configuration library. What a theorem assumes of
  such an argument is a named predicate (\<open>dedup_ranges\<close>, \<open>lists_cluster\<close> and the like) that states its documented
  behaviour, and the witness of the theorem instantiates it. Of the lease API (\<open>lease_api_ok\<close>) it is that a
  call that fails may or may not have taken effect, and that reads are not from a cache. Nothing is assumed of
  a server's answers, except where several replicas are run against servers (\<open>Replicas\<close>, \<open>Dedup_Converges\<close>).

  \<^bold>\<open>Bounds and loops.\<close> No definition uses fuel. A loop that waits for a context takes the list of
  events it receives (\<open>run_loop\<close>, \<open>wait_loop\<close>); \<open>wait_ends_with_context\<close> shows that it returns once the
  context is done, and \<open>poll_ends\<close> that a poll always returns to its wait. The constants are those
  of the source: one successful unload a pass (\<open>MaxUnloadsPerCycle\<close>), twelve polls of grace
  (\<open>DefaultDedupGracePolls\<close>). Durations are integers in nanoseconds; counters of telemetry wrap at 64 bits.

  \<^bold>\<open>Not modelled.\<close> Log lines, other than those of \<open>logProfileResults\<close>. The text parser of Prometheus, JSON, HTTP, the Kubernetes API server, the OpenTelemetry
  SDK and the scheduling framework beyond the arguments above. The clock: of the
  timeouts the deadlines of the loader's contexts are modelled, and that a context may end at any moment.
  \<open>internal/vram/doc.go\<close>, a package comment. In \<open>Epp_System\<close> an event is atomic;
  the interleavings of requests with each other and with the poller are in \<open>Loader_Machine\<close>,
  \<open>Tracker_Machine\<close> and \<open>System_Machine\<close>, where the filter has no part: it only reads the tracker. Data races on fields that are read outside their mutex are not visible in the model.
\<close>

end
